(* ===== verification/Prelude.thy ===== *)
theory Prelude
  imports Main "HOL-Library.Word"
begin

text \<open>
  Shared vocabulary of the development: the machine integers and byte strings of the Rust
  sources, the outcome of code that may panic, the fragments of the Rust standard library the
  sources use (string search, \<^verbatim>\<open>saturating_add\<close>, radix-16 parsing and printing, UTF-8
  validation), and the generic list and word lemmas the component theories rely on.

  A Rust \<^verbatim>\<open>String\<close> or \<^verbatim>\<open>&str\<close> is its sequence of bytes; HOL's \<^typ>\<open>char\<close> is a byte, so both are a
  \<^typ>\<open>string\<close>. A \<^verbatim>\<open>Vec<u8>\<close> is a list of \<^typ>\<open>8 word\<close>.
\<close>

section \<open>Machine integers\<close>

type_synonym u8 = "8 word"
type_synonym u32 = "32 word"
type_synonym u64 = "64 word"
type_synonym i32 = "32 word"  \<comment> \<open>two's complement bit pattern, read with \<^const>\<open>sint\<close>\<close>
type_synonym i64 = "64 word"
type_synonym f32 = "32 word"  \<comment> \<open>IEEE 754 bit pattern\<close>
type_synonym f64 = "64 word"
type_synonym usize = "64 word"
type_synonym bytes = "8 word list"

named_theorems rust_std \<open>facts about the Rust standard library fragments\<close>
named_theorems ascii_simps \<open>evaluation of character classes\<close>

section \<open>Outcomes\<close>

text \<open>
  Code that returns \<^verbatim>\<open>Result\<close> and cannot panic is modelled with the sum type, \<^const>\<open>Inl\<close> for the
  error. Code that can also panic (slicing and buffer reads out of range) uses \<open>outcome\<close>. Loops that
  are modelled with fuel return \<open>Out_of_fuel\<close> when it runs out; every such loop has a theorem that the
  fuel it is given never does.
\<close>

datatype ('a, 'e) outcome = Ok 'a | Err 'e | Panic | Out_of_fuel

text \<open>The \<^verbatim>\<open>?\<close> operator, and \<^verbatim>\<open>map_err\<close>.\<close>

fun obind :: "('a, 'e) outcome \<Rightarrow> ('a \<Rightarrow> ('b, 'e) outcome) \<Rightarrow> ('b, 'e) outcome" where
  "obind (Ok x) f = f x"
| "obind (Err e) f = Err e"
| "obind Panic f = Panic"
| "obind Out_of_fuel f = Out_of_fuel"

fun omap_err :: "('e \<Rightarrow> 'e) \<Rightarrow> ('a, 'e) outcome \<Rightarrow> ('a, 'e) outcome" where
  "omap_err f (Err e) = Err (f e)"
| "omap_err f (Ok x) = Ok x"
| "omap_err f Panic = Panic"
| "omap_err f Out_of_fuel = Out_of_fuel"

lemma obind_cong [fundef_cong]:
  "m = m' \<Longrightarrow> (\<And>x. m' = Ok x \<Longrightarrow> f x = g x) \<Longrightarrow> obind m f = obind m' g"
  by (cases m') simp_all

lemma obind_Ok_iff: "obind m f = Ok y \<longleftrightarrow> (\<exists>x. m = Ok x \<and> f x = Ok y)"
  by (cases m) simp_all

lemma obind_Err_iff: "obind m f = Err e \<longleftrightarrow> m = Err e \<or> (\<exists>x. m = Ok x \<and> f x = Err e)"
  by (cases m) simp_all

lemma omap_err_Err_iff: "omap_err f m = Err e \<longleftrightarrow> (\<exists>e'. m = Err e' \<and> e = f e')"
  by (cases m) auto

lemma obind_fuel: "obind m f = Out_of_fuel \<longleftrightarrow> m = Out_of_fuel \<or> (\<exists>x. m = Ok x \<and> f x = Out_of_fuel)"
  by (cases m) simp_all

lemma omap_err_Ok_iff [simp]: "omap_err f m = Ok x \<longleftrightarrow> m = Ok x"
  by (cases m) simp_all

lemma omap_err_fuel [simp]: "omap_err f m = Out_of_fuel \<longleftrightarrow> m = Out_of_fuel"
  by (cases m) simp_all

lemma omap_err_panic [simp]: "omap_err f m = Panic \<longleftrightarrow> m = Panic"
  by (cases m) simp_all

text \<open>The same for sums.\<close>

fun ebind :: "'e + 'a \<Rightarrow> ('a \<Rightarrow> 'e + 'b) \<Rightarrow> 'e + 'b" where
  "ebind (Inl e) f = Inl e"
| "ebind (Inr x) f = f x"

fun emap_err :: "('e \<Rightarrow> 'f) \<Rightarrow> 'e + 'a \<Rightarrow> 'f + 'a" where
  "emap_err f (Inl e) = Inl (f e)"
| "emap_err f (Inr x) = Inr x"

lemma ebind_cong [fundef_cong]:
  "m = m' \<Longrightarrow> (\<And>x. m' = Inr x \<Longrightarrow> f x = g x) \<Longrightarrow> ebind m f = ebind m' g"
  by (cases m') simp_all

lemma ebind_Inr_iff: "ebind m f = Inr y \<longleftrightarrow> (\<exists>x. m = Inr x \<and> f x = Inr y)"
  by (cases m) simp_all

lemma emap_err_Inr_iff [simp]: "emap_err f m = Inr x \<longleftrightarrow> m = Inr x"
  by (cases m) simp_all

section \<open>Bytes and characters\<close>

definition u8_of_char :: "char \<Rightarrow> u8" where
  "u8_of_char c = of_nat (of_char c)"

definition char_of_u8 :: "u8 \<Rightarrow> char" where
  "char_of_u8 b = char_of (unat b)"

definition as_bytes :: "string \<Rightarrow> bytes" where
  "as_bytes = map u8_of_char"

definition from_bytes :: "bytes \<Rightarrow> string" where
  "from_bytes = map char_of_u8"

lemma of_char_lt: "(of_char c :: nat) < 256"
  using range_nat_of_char by auto

lemma char_of_u8_of_char [simp]: "char_of_u8 (u8_of_char c) = c"
  by (simp add: char_of_u8_def u8_of_char_def unat_of_nat take_bit_eq_mod of_char_lt)

lemma u8_of_char_of_u8 [simp]: "u8_of_char (char_of_u8 b) = b"
proof -
  have "unat b < 256" using unsigned_less [of b, where 'a = nat] by simp
  then show ?thesis
    by (simp add: char_of_u8_def u8_of_char_def)
qed

lemma length_as_bytes [simp]: "length (as_bytes s) = length s"
  by (simp add: as_bytes_def)

lemma length_from_bytes [simp]: "length (from_bytes b) = length b"
  by (simp add: from_bytes_def)

lemma from_bytes_as_bytes [simp]: "from_bytes (as_bytes s) = s"
  by (simp add: from_bytes_def as_bytes_def o_def)

lemma as_bytes_from_bytes [simp]: "as_bytes (from_bytes b) = b"
  by (simp add: from_bytes_def as_bytes_def o_def)

lemma as_bytes_append [simp]: "as_bytes (s @ t) = as_bytes s @ as_bytes t"
  by (simp add: as_bytes_def)

lemma from_bytes_append [simp]: "from_bytes (s @ t) = from_bytes s @ from_bytes t"
  by (simp add: from_bytes_def)

section \<open>String search\<close>

text \<open>\<^verbatim>\<open>str::find\<close> with a character or a set of characters: the index of the first match.\<close>

fun str_find :: "(char \<Rightarrow> bool) \<Rightarrow> string \<Rightarrow> nat option" where
  "str_find P [] = None"
| "str_find P (c # cs) = (if P c then Some 0 else map_option Suc (str_find P cs))"

lemma str_find_None: "str_find P s = None \<longleftrightarrow> (\<forall>c \<in> set s. \<not> P c)"
  by (induction s) auto

lemma str_find_SomeD:
  "str_find P s = Some i \<Longrightarrow> i < length s \<and> P (s ! i) \<and> (\<forall>c \<in> set (take i s). \<not> P c)"
  by (induction s arbitrary: i) (auto split: if_splits)

lemma str_find_append [rust_std]:
  "\<forall>c \<in> set s. \<not> P c \<Longrightarrow> P c \<Longrightarrow> str_find P (s @ c # t) = Some (length s)"
  by (induction s) auto

section \<open>Saturating arithmetic on \<^verbatim>\<open>u32\<close>\<close>

definition u32_max :: u32 where
  "u32_max = - 1"

definition saturating_add :: "u32 \<Rightarrow> u32 \<Rightarrow> u32" where
  "saturating_add a b = (if uint a + uint b < 2 ^ 32 then a + b else u32_max)"

text \<open>\<^verbatim>\<open>u32::try_from(n).unwrap_or(u32::MAX)\<close> for a \<^verbatim>\<open>usize\<close>.\<close>

definition u32_try_from_or_max :: "nat \<Rightarrow> u32" where
  "u32_try_from_or_max n = (if int n < 2 ^ 32 then of_nat n else u32_max)"

lemma unat_u32_max [simp]: "unat u32_max = 4294967295"
  by (simp add: u32_max_def unsigned_minus_1_eq_mask mask_eq_exp_minus_1)

lemma unat_u32_lt [simp]: "unat (w :: u32) < 4294967296"
  using unsigned_less [of w, where 'a = nat] by simp

lemma saturating_add_unat:
  "saturating_add a b = (if unat a + unat b < 2 ^ 32 then a + b else u32_max)"
proof -
  have "uint a + uint b = int (unat a + unat b)" by simp
  then have "uint a + uint b < 2 ^ 32 \<longleftrightarrow> unat a + unat b < 2 ^ 32"
    by (simp only: of_nat_less_iff [where 'a = int, symmetric] of_nat_power of_nat_numeral)
  then show ?thesis by (simp only: saturating_add_def)
qed

lemma unat_saturating_add: "unat (saturating_add a b) = min (unat a + unat b) (2 ^ 32 - 1)"
proof (cases "unat a + unat b < 2 ^ 32")
  case True
  then have "unat (a + b) = unat a + unat b"
    by (simp add: unat_word_ariths)
  with True show ?thesis by (simp add: saturating_add_unat)
next
  case False
  then show ?thesis by (simp add: saturating_add_unat)
qed

lemma unat_u32_try_from_or_max: "unat (u32_try_from_or_max n) = min n (2 ^ 32 - 1)"
  by (auto simp: u32_try_from_or_max_def unat_of_nat take_bit_eq_mod)

lemma unat_sat_exact:
  "unat (saturating_add a b) < 2 ^ 32 - 1 \<Longrightarrow> unat (saturating_add a b) = unat a + unat b"
  by (simp add: unat_saturating_add)

lemma saturating_add_0 [simp]: "saturating_add 0 b = b" "saturating_add a 0 = a"
  by (simp_all add: saturating_add_unat)

section \<open>Slices and early return\<close>

text \<open>\<^verbatim>\<open>slice::chunks_exact\<close>: the full chunks and the remainder.\<close>

function chunks_exact :: "nat \<Rightarrow> 'a list \<Rightarrow> 'a list list \<times> 'a list" where
  "chunks_exact n xs =
     (if 0 < n \<and> n \<le> length xs
      then (let (cs, r) = chunks_exact n (drop n xs) in (take n xs # cs, r))
      else ([], xs))"
  by pat_completeness auto
termination
  by (relation "measure (\<lambda>(n, xs). length xs)") auto

declare chunks_exact.simps [simp del]

lemma chunks_exact_concat: "concat (fst (chunks_exact n xs)) @ snd (chunks_exact n xs) = xs"
  by (induction n xs rule: chunks_exact.induct)
    (subst (1 2) chunks_exact.simps, auto simp: Let_def case_prod_beta)

lemma chunks_exact_length: "c \<in> set (fst (chunks_exact n xs)) \<Longrightarrow> length c = n"
proof (induction n xs rule: chunks_exact.induct)
  case (1 n xs)
  then show ?case
    by (subst (asm) (2) chunks_exact.simps) (auto simp: Let_def case_prod_beta split: if_splits)
qed

lemma chunks_exact_rem_length: "0 < n \<Longrightarrow> length (snd (chunks_exact n xs)) < n"
  by (induction n xs rule: chunks_exact.induct)
    (subst chunks_exact.simps, auto simp: Let_def case_prod_beta)

lemma map2_map_same: "map2 g xs (map f xs) = map (\<lambda>x. g x (f x)) xs"
  by (induction xs) simp_all

text \<open>A loop that applies a fallible step to every element and stops at the first error.\<close>

fun try_map :: "('a \<Rightarrow> 'e + 'b) \<Rightarrow> 'a list \<Rightarrow> 'e + 'b list" where
  "try_map f [] = Inr []"
| "try_map f (x # xs) =
     (case f x of
        Inl e \<Rightarrow> Inl e
      | Inr y \<Rightarrow> (case try_map f xs of Inl e \<Rightarrow> Inl e | Inr ys \<Rightarrow> Inr (y # ys)))"

lemma try_map_Inr_iff: "try_map f xs = Inr ys \<longleftrightarrow> list_all2 (\<lambda>x y. f x = Inr y) xs ys"
proof (induction xs arbitrary: ys)
  case Nil
  then show ?case by auto
next
  case (Cons x xs)
  show ?case
    by (cases ys) (auto simp: Cons.IH [symmetric] split: sum.splits)
qed

lemma try_map_total: "\<forall>x \<in> set xs. \<exists>y. f x = Inr y \<Longrightarrow> \<exists>ys. try_map f xs = Inr ys"
  by (induction xs) (auto split: sum.splits)

section \<open>Decimal numbers\<close>

text \<open>\<^verbatim>\<open>Display\<close> of an unsigned integer.\<close>

function nat_decimal :: "nat \<Rightarrow> string" where
  "nat_decimal n =
     (if n < 10 then [char_of (48 + n)] else nat_decimal (n div 10) @ [char_of (48 + n mod 10)])"
  by pat_completeness auto
termination
  by (relation "measure id") auto

declare nat_decimal.simps [simp del]

section \<open>UTF-8 validation\<close>

text \<open>
  \<^verbatim>\<open>String::from_utf8\<close> accepts exactly the well-formed byte sequences of the Unicode standard
  (no overlong forms, no surrogates, nothing above U+10FFFF).
\<close>

definition utf8_cont :: "u8 \<Rightarrow> bool" where
  "utf8_cont b \<longleftrightarrow> 0x80 \<le> b \<and> b \<le> 0xBF"

fun utf8_valid :: "bytes \<Rightarrow> bool" where
  "utf8_valid [] = True"
| "utf8_valid (a # bs) =
     (if a \<le> 0x7F then utf8_valid bs
      else if 0xC2 \<le> a \<and> a \<le> 0xDF then
        (case bs of b # r \<Rightarrow> utf8_cont b \<and> utf8_valid r | _ \<Rightarrow> False)
      else if 0xE0 \<le> a \<and> a \<le> 0xEF then
        (case bs of b # c # r \<Rightarrow>
            (if a = 0xE0 then 0xA0 \<le> b \<and> b \<le> 0xBF
             else if a = 0xED then 0x80 \<le> b \<and> b \<le> 0x9F else utf8_cont b)
            \<and> utf8_cont c \<and> utf8_valid r
         | _ \<Rightarrow> False)
      else if 0xF0 \<le> a \<and> a \<le> 0xF4 then
        (case bs of b # c # d # r \<Rightarrow>
            (if a = 0xF0 then 0x90 \<le> b \<and> b \<le> 0xBF
             else if a = 0xF4 then 0x80 \<le> b \<and> b \<le> 0x8F else utf8_cont b)
            \<and> utf8_cont c \<and> utf8_cont d \<and> utf8_valid r
         | _ \<Rightarrow> False)
      else False)"

lemma utf8_valid_ascii: "\<forall>b \<in> set bs. b \<le> 0x7F \<Longrightarrow> utf8_valid bs"
  by (induction bs) auto

section \<open>Radix-16 numbers\<close>

text \<open>\<^verbatim>\<open>char::to_digit(16)\<close>: both cases of letters are digits.\<close>

definition to_digit16 :: "char \<Rightarrow> int option" where
  "to_digit16 c =
     (let n = (of_char c :: int) in
      if 48 \<le> n \<and> n \<le> 57 then Some (n - 48)
      else if 97 \<le> n \<and> n \<le> 102 then Some (n - 87)
      else if 65 \<le> n \<and> n \<le> 70 then Some (n - 55)
      else None)"

text \<open>The checked accumulation loop of \<^verbatim>\<open>usize::from_str_radix(_, 16)\<close>.\<close>

fun radix16_loop :: "int \<Rightarrow> string \<Rightarrow> int option" where
  "radix16_loop acc [] = Some acc"
| "radix16_loop acc (c # cs) =
     (case to_digit16 c of
        None \<Rightarrow> None
      | Some d \<Rightarrow> if acc * 16 + d < 2 ^ 64 then radix16_loop (acc * 16 + d) cs else None)"

text \<open>
  A leading \<^verbatim>\<open>+\<close> is skipped unless it is the whole string; the empty string is an error; for an
  unsigned type a \<^verbatim>\<open>-\<close> is just an invalid digit.
\<close>

definition usize_from_str_radix16 :: "string \<Rightarrow> usize option" where
  "usize_from_str_radix16 s =
     (case s of
        [] \<Rightarrow> None
      | c # cs \<Rightarrow>
          map_option of_int (radix16_loop 0 (if c = CHR ''+'' \<and> cs \<noteq> [] then cs else s)))"

definition hex_char :: "int \<Rightarrow> char" where
  "hex_char n = (if n < 10 then char_of (48 + n) else char_of (87 + n))"

text \<open>\<^verbatim>\<open>format!("{:x}", n)\<close>.\<close>

function int_hex :: "int \<Rightarrow> string" where
  "int_hex n = (if n < 16 then [hex_char n] else int_hex (n div 16) @ [hex_char (n mod 16)])"
  by pat_completeness auto
termination
  by (relation "measure nat") auto

declare int_hex.simps [simp del]

lemma to_digit16_hex_char: "0 \<le> n \<Longrightarrow> n < 16 \<Longrightarrow> to_digit16 (hex_char n) = Some n"
  by (auto simp: to_digit16_def hex_char_def Let_def)

lemma int_hex_nonempty [simp]: "int_hex n \<noteq> []"
  by (subst int_hex.simps) simp

lemma radix16_loop_append:
  "radix16_loop acc (s @ t) =
     (case radix16_loop acc s of None \<Rightarrow> None | Some a \<Rightarrow> radix16_loop a t)"
  by (induction s arbitrary: acc) (auto split: option.splits)

lemma radix16_loop_int_hex: "0 \<le> n \<Longrightarrow> n < 2 ^ 64 \<Longrightarrow> radix16_loop 0 (int_hex n) = Some n"
proof (induction n rule: int_hex.induct)
  case (1 n)
  show ?case
  proof (cases "n < 16")
    case True
    with "1.prems" show ?thesis
      by (subst int_hex.simps) (simp add: to_digit16_hex_char)
  next
    case False
    with 1 have "radix16_loop 0 (int_hex (n div 16)) = Some (n div 16)" by simp
    with False "1.prems" show ?thesis
      by (subst int_hex.simps) (simp add: radix16_loop_append to_digit16_hex_char)
  qed
qed

lemma int_hex_hd_digit: "0 \<le> n \<Longrightarrow> \<exists>d. 0 \<le> d \<and> d < 16 \<and> hd (int_hex n) = hex_char d"
proof (induction n rule: int_hex.induct)
  case (1 n)
  then show ?case
    by (cases "n < 16") (auto simp: int_hex.simps [of n])
qed

lemma hex_char_not_plus: "0 \<le> d \<Longrightarrow> d < 16 \<Longrightarrow> hex_char d \<noteq> CHR ''+''"
  by (auto simp: hex_char_def char_of_eq_iff take_bit_eq_mod split: if_splits)

lemma usize_from_str_radix16_int_hex [rust_std]:
  "usize_from_str_radix16 (int_hex (uint w)) = Some w"
proof -
  have lt: "uint w < 2 ^ 64" using unsigned_less [of w, where 'a = int] by simp
  obtain c cs where s: "int_hex (uint w) = c # cs"
    by (cases "int_hex (uint w)") simp_all
  have "c \<noteq> CHR ''+''"
    using int_hex_hd_digit [of "uint w"] hex_char_not_plus s by auto
  then show ?thesis
    using radix16_loop_int_hex [OF _ lt] s
    by (simp add: usize_from_str_radix16_def)
qed

section \<open>Splitting and joining\<close>

text \<open>\<^verbatim>\<open>str::split\<close> with a character, which yields at least one part, and \<^verbatim>\<open>join\<close>.\<close>

fun split_on :: "char \<Rightarrow> string \<Rightarrow> string list" where
  "split_on c [] = [[]]"
| "split_on c (x # s) = (if x = c then [] # split_on c s else (case split_on c s of [] \<Rightarrow> [[x]] | p # ps \<Rightarrow> (x # p) # ps))"

fun join :: "string \<Rightarrow> string list \<Rightarrow> string" where
  "join sep [] = []"
| "join sep [p] = p"
| "join sep (p # ps) = p @ sep @ join sep ps"

lemma split_on_nonempty [simp]: "split_on c s \<noteq> []"
  by (induction s) (auto split: list.splits)

lemma split_on_append [simp]: "c \<notin> set p \<Longrightarrow> split_on c (p @ c # s) = p # split_on c s"
  by (induction p) auto

lemma split_on_single [simp]: "c \<notin> set p \<Longrightarrow> split_on c p = [p]"
  by (induction p) auto

lemma split_on_join: "ps \<noteq> [] \<Longrightarrow> list_all (\<lambda>p. c \<notin> set p) ps \<Longrightarrow> split_on c (join [c] ps) = ps"
  by (induction "[c]" ps rule: join.induct) auto

lemma join_split_on: "join [c] (split_on c s) = s"
proof (induction s)
  case (Cons x s)
  show ?case
  proof (cases "split_on c s")
    case (Cons p ps)
    with Cons.IH show ?thesis by (cases ps) auto
  qed simp
qed simp

end
