(* ===== verification/Wire.thy ===== *)
theory Wire
  imports Prelude
begin

text \<open>
  What the encoder and the decoder share: component values (\<^verbatim>\<open>wasmtime::component::Val\<close>), the type
  metadata of \<^verbatim>\<open>runtime/metadata.proto\<close>, wire types and tags, and the interface of the
  third-party code both run on.

  The varint routines of \<^verbatim>\<open>prost\<close> and the buffer primitives of \<^verbatim>\<open>bytes\<close> are not part of the
  repository. They are a parameter \<open>W\<close> of every definition that calls them; the locale \<open>wire\<close> states
  the documented behaviour the code relies on, and a textbook LEB128 implementation shows that the
  laws are consistent.
\<close>

unbundle bit_operations_syntax

section \<open>Values and metadata\<close>

text \<open>
  The cases of \<^verbatim>\<open>Val\<close> that occur in the sources; the others fail every pattern match, as
  \<open>Val_Other\<close> does. Floating-point numbers are their IEEE 754 bit patterns.
\<close>

datatype val =
    Val_Bool bool
  | Val_U8 u8
  | Val_S32 i32
  | Val_U32 u32
  | Val_S64 i64
  | Val_U64 u64
  | Val_Float32 f32
  | Val_Float64 f64
  | Val_String string
  | Val_List "val list"
  | Val_Record "(string \<times> val) list"
  | Val_Variant string "val option"
  | Val_Enum string
  | Val_Option "val option"
  | Val_Tuple "val list"
  | Val_Other

text \<open>\<^verbatim>\<open>Field\<close> and its codings; the generated code keeps an enumeration field as a plain \<^verbatim>\<open>i32\<close>.\<close>

datatype coding = Scalar_coding int | Compound_coding int

datatype field = Field
  (field_number: u32) (field_name: string) (field_subfields: "field list") (field_coding: "coding option")

datatype scalar_kind =
    Bytes | String_utf8 | String_permissive | Bool | Int32 | Sint32 | Sfixed32 | Uint32 | Fixed32
  | Int64 | Sint64 | Sfixed64 | Uint64 | Fixed64 | Float | Double

datatype presence = Implicit | Packed | Explicit | Expanded

text \<open>
  A \<^verbatim>\<open>ScalarCoding\<close>: the cycle implicit, packed, explicit, expanded for each of the sixteen types;
  1, 5 and 9 are reserved because bytes and strings cannot be packed.
\<close>

datatype scalar_coding = ScalarCoding scalar_kind presence

definition scalar_kinds :: "scalar_kind list" where
  "scalar_kinds =
     [Bytes, String_utf8, String_permissive, Bool, Int32, Sint32, Sfixed32, Uint32, Fixed32,
      Int64, Sint64, Sfixed64, Uint64, Fixed64, Float, Double]"

definition presences :: "presence list" where
  "presences = [Implicit, Packed, Explicit, Expanded]"

definition scalar_coding_try_from :: "int \<Rightarrow> scalar_coding option" where
  "scalar_coding_try_from n =
     (if 0 \<le> n \<and> n < 64 \<and> n \<noteq> 1 \<and> n \<noteq> 5 \<and> n \<noteq> 9
      then Some (ScalarCoding (scalar_kinds ! nat (n div 4)) (presences ! nat (n mod 4)))
      else None)"

datatype compound_coding =
  EnumImplicit | EnumPacked | EnumExplicit | EnumExpanded | Message | MessageExpanded | Oneof

definition compound_coding_try_from :: "int \<Rightarrow> compound_coding option" where
  "compound_coding_try_from n =
     (if n = 0 then Some EnumImplicit else if n = 1 then Some EnumPacked
      else if n = 2 then Some EnumExplicit else if n = 3 then Some EnumExpanded
      else if n = 6 then Some Message else if n = 7 then Some MessageExpanded
      else if n = 8 then Some Oneof else None)"

text \<open>Explicit codings are the numbers \<open>4n + 2\<close>; the remainder of Rust has the sign of the dividend.\<close>

definition explicit_scalar :: "int \<Rightarrow> bool" where
  "explicit_scalar n \<longleftrightarrow> (if 0 \<le> n then n mod 4 else - (- n mod 4)) = 2"

lemma explicit_scalar_iff:
  "scalar_coding_try_from n = Some (ScalarCoding k p) \<Longrightarrow> explicit_scalar n \<longleftrightarrow> p = Explicit"
proof -
  assume a: "scalar_coding_try_from n = Some (ScalarCoding k p)"
  then have n: "0 \<le> n" and p: "p = presences ! nat (n mod 4)"
    by (auto simp: scalar_coding_try_from_def split: if_splits)
  have "n mod 4 \<in> {0, 1, 2, 3}" by auto
  with n p show ?thesis by (auto simp: explicit_scalar_def presences_def)
qed

section \<open>Wire types and tags\<close>

datatype wire_type = Varint | SixtyFourBit | LengthDelimited | StartGroup | EndGroup | ThirtyTwoBit

fun wire_number :: "wire_type \<Rightarrow> u64" where
  "wire_number Varint = 0"
| "wire_number SixtyFourBit = 1"
| "wire_number LengthDelimited = 2"
| "wire_number StartGroup = 3"
| "wire_number EndGroup = 4"
| "wire_number ThirtyTwoBit = 5"

definition tag :: "u32 \<Rightarrow> wire_type \<Rightarrow> u64" where
  "tag number wire_type = push_bit 3 (ucast number) OR wire_number wire_type"

text \<open>The inverse of the \<^verbatim>\<open>as u64\<close> cast: \<^verbatim>\<open>transmute\<close> of a number below six.\<close>

definition wire_transmute :: "u8 \<Rightarrow> wire_type" where
  "wire_transmute b =
     (if b = 0 then Varint else if b = 1 then SixtyFourBit else if b = 2 then LengthDelimited
      else if b = 3 then StartGroup else if b = 4 then EndGroup else ThirtyTwoBit)"

lemma wire_number_lt: "wire_number w < 6"
  by (cases w) simp_all

lemma tag_number: "drop_bit 3 (tag n w) = ucast n"
proof (rule bit_word_eqI)
  fix i
  assume "i < LENGTH(64)"
  have "\<not> bit (wire_number w) (3 + i)" for i
    by (cases w) (simp_all add: bit_numeral_rec(1,2) bit_1_iff numeral_3_eq_3 bit_Suc)
  then show "bit (drop_bit 3 (tag n w)) i \<longleftrightarrow> bit (ucast n :: u64) i"
    by (auto simp: tag_def bit_simps dest: bit_imp_le_length)
qed

lemma tag_wire: "(ucast (tag n w) :: u8) AND 7 = ucast (wire_number w)"
proof (rule bit_word_eqI)
  fix i
  assume "i < LENGTH(8)"
  have "bit (7 :: u8) i \<longleftrightarrow> i < 3"
    using \<open>i < LENGTH(8)\<close> bit_mask_iff [of 3 i, where 'a = u8] by (simp add: mask_eq_exp_minus_1)
  moreover have "bit (wire_number w) i \<Longrightarrow> i < 3"
  proof (rule ccontr)
    assume "bit (wire_number w) i" "\<not> i < 3"
    then have "bit (drop_bit 3 (wire_number w)) (i - 3)" by (simp add: bit_drop_bit_eq)
    moreover have "drop_bit 3 (wire_number w) = 0" by (cases w) simp_all
    ultimately show False by simp
  qed
  ultimately show "bit ((ucast (tag n w) :: u8) AND 7) i \<longleftrightarrow> bit (ucast (wire_number w) :: u8) i"
    by (auto simp: tag_def bit_simps)
qed

lemma wire_transmute_number [simp]: "wire_transmute (ucast (wire_number w)) = w"
  by (cases w) (simp_all add: wire_transmute_def)

lemma wire_number_u8_lt: "(ucast (wire_number w) :: u8) < 6"
  by (cases w) simp_all

section \<open>The interface of the third-party code\<close>

text \<open>
  A buffer is the list of its bytes: those still to be read (\<^verbatim>\<open>Buf\<close>), or those written so far
  (\<^verbatim>\<open>BufMut\<close>, whose \<^verbatim>\<open>put_u8\<close> and \<^verbatim>\<open>put_slice\<close> append). A read returns \<^const>\<open>None\<close> when it
  panics; \<open>decode_varint\<close> returns \<^const>\<open>None\<close> for its error (incomplete, or more than 64 bits).
\<close>

record wire_lib =
  encode_varint :: "u64 \<Rightarrow> bytes"
  encoded_len_varint :: "u64 \<Rightarrow> nat"
  decode_varint :: "bytes \<Rightarrow> (u64 \<times> bytes) option"
  get_u8 :: "bytes \<Rightarrow> (u8 \<times> bytes) option"
  advance :: "nat \<Rightarrow> bytes \<Rightarrow> bytes option"
  take_read :: "nat \<Rightarrow> bytes \<Rightarrow> bytes \<times> bytes"
  put_u32_le :: "u32 \<Rightarrow> bytes"
  get_u32_le :: "bytes \<Rightarrow> (u32 \<times> bytes) option"
  put_u64_le :: "u64 \<Rightarrow> bytes"
  get_u64_le :: "bytes \<Rightarrow> (u64 \<times> bytes) option"

locale wire =
  fixes W :: wire_lib
  assumes decode_encode: "decode_varint W (encode_varint W v @ r) = Some (v, r)"
    and length_encode: "length (encode_varint W v) = encoded_len_varint W v"
    and encoded_len_bounds: "1 \<le> encoded_len_varint W v" "encoded_len_varint W v \<le> 10"
    and decode_prefix: "decode_varint W b = Some (v, r) \<Longrightarrow>
          \<exists>p. b = p @ r \<and> encoded_len_varint W v \<le> length p \<and> length p \<le> 10"
    and get_u8_law: "get_u8 W b = (case b of [] \<Rightarrow> None | x # r \<Rightarrow> Some (x, r))"
    and advance_law: "advance W n b = (if n \<le> length b then Some (drop n b) else None)"
    and take_read_law: "take_read W n b = (take n b, drop n b)"
    and length_put_u32: "length (put_u32_le W x) = 4"
    and get_put_u32: "get_u32_le W (put_u32_le W x @ r) = Some (x, r)"
    and get_u32_None: "get_u32_le W b = None \<longleftrightarrow> length b < 4"
    and get_u32_Some: "get_u32_le W b = Some (x, r) \<Longrightarrow> r = drop 4 b"
    and length_put_u64: "length (put_u64_le W y) = 8"
    and get_put_u64: "get_u64_le W (put_u64_le W y @ r) = Some (y, r)"
    and get_u64_None: "get_u64_le W b = None \<longleftrightarrow> length b < 8"
    and get_u64_Some: "get_u64_le W b = Some (y, r) \<Longrightarrow> r = drop 8 b"

section \<open>A reference implementation\<close>

text \<open>Base-128 varints, least significant group first, on the value as an integer.\<close>

function leb_encode :: "int \<Rightarrow> bytes" where
  "leb_encode n = (if n < 128 then [of_int n] else of_int (n mod 128 + 128) # leb_encode (n div 128))"
  by pat_completeness auto
termination
  by (relation "measure nat") auto

function leb_len :: "int \<Rightarrow> nat" where
  "leb_len n = (if n < 128 then 1 else Suc (leb_len (n div 128)))"
  by pat_completeness auto
termination
  by (relation "measure nat") auto

declare leb_encode.simps [simp del] leb_len.simps [simp del]

fun leb_decode :: "nat \<Rightarrow> bytes \<Rightarrow> (int \<times> bytes) option" where
  "leb_decode 0 bs = None"
| "leb_decode (Suc k) [] = None"
| "leb_decode (Suc k) (b # bs) =
     (if uint b < 128 then Some (uint b, bs)
      else (case leb_decode k bs of
              None \<Rightarrow> None
            | Some (v, r) \<Rightarrow> Some (uint b - 128 + 128 * v, r)))"

text \<open>Little-endian fixed-width integers.\<close>

fun le_put :: "nat \<Rightarrow> int \<Rightarrow> bytes" where
  "le_put 0 n = []"
| "le_put (Suc k) n = of_int (n mod 256) # le_put k (n div 256)"

fun le_get :: "nat \<Rightarrow> bytes \<Rightarrow> (int \<times> bytes) option" where
  "le_get 0 bs = Some (0, bs)"
| "le_get (Suc k) [] = None"
| "le_get (Suc k) (b # bs) = map_option (\<lambda>(v, r). (uint b + 256 * v, r)) (le_get k bs)"

definition leb_lib :: wire_lib where
  "leb_lib =
     \<lparr>encode_varint = \<lambda>v. leb_encode (uint v),
      encoded_len_varint = \<lambda>v. leb_len (uint v),
      decode_varint = \<lambda>b.
        (case leb_decode 10 b of
           None \<Rightarrow> None
         | Some (v, r) \<Rightarrow> if v < 2 ^ 64 then Some (of_int v, r) else None),
      get_u8 = \<lambda>b. (case b of [] \<Rightarrow> None | x # r \<Rightarrow> Some (x, r)),
      advance = \<lambda>n b. (if n \<le> length b then Some (drop n b) else None),
      take_read = \<lambda>n b. (take n b, drop n b),
      put_u32_le = \<lambda>x. le_put 4 (uint x),
      get_u32_le = \<lambda>b. map_option (\<lambda>(v, r). (of_int v, r)) (le_get 4 b),
      put_u64_le = \<lambda>x. le_put 8 (uint x),
      get_u64_le = \<lambda>b. map_option (\<lambda>(v, r). (of_int v, r)) (le_get 8 b)\<rparr>"

lemma uint_byte: "0 \<le> n \<Longrightarrow> n < 256 \<Longrightarrow> uint (of_int n :: u8) = n"
  by (simp add: unsigned_of_int take_bit_eq_mod)

lemma leb_len_pos: "1 \<le> leb_len n"
  by (subst leb_len.simps) simp

lemma leb_len_bound: "n < 128 ^ Suc k \<Longrightarrow> leb_len n \<le> Suc k"
proof (induction k arbitrary: n)
  case 0
  then show ?case by (simp add: leb_len.simps)
next
  case (Suc k)
  then have "n div 128 < 128 ^ Suc k" by (simp add: div_less_iff_less_mult mult.commute)
  with Suc.IH show ?case by (subst leb_len.simps) simp
qed

lemma length_leb_encode: "length (leb_encode n) = leb_len n"
  by (induction n rule: leb_encode.induct) (subst leb_encode.simps, subst leb_len.simps, simp)

lemma leb_decode_encode:
  "0 \<le> n \<Longrightarrow> leb_len n \<le> k \<Longrightarrow> leb_decode k (leb_encode n @ r) = Some (n, r)"
proof (induction n arbitrary: k rule: leb_encode.induct)
  case (1 n)
  show ?case
  proof (cases "n < 128")
    case True
    with "1.prems" show ?thesis
      by (cases k) (simp_all add: leb_encode.simps [of n] leb_len.simps [of n] uint_byte)
  next
    case False
    with "1.prems" obtain j where k: "k = Suc j" and j: "leb_len (n div 128) \<le> j"
      by (cases k) (simp_all add: leb_len.simps [of n])
    have "uint (of_int (n mod 128 + 128) :: u8) = n mod 128 + 128"
      by (rule uint_byte) (auto simp: pos_mod_bound [of 128 n, simplified] dest: order_less_le_trans)
    moreover have "\<not> n mod 128 < 0" by (simp add: not_less)
    ultimately show ?thesis
      using False "1.prems"(1) "1.IH" [OF False _ j] by (simp add: leb_encode.simps [of n] k)
  qed
qed

lemma leb_decode_prefix:
  "leb_decode k b = Some (v, r) \<Longrightarrow> \<exists>p. b = p @ r \<and> leb_len v \<le> length p \<and> length p \<le> k \<and> 0 \<le> v"
proof (induction k b arbitrary: v r rule: leb_decode.induct)
  case (3 k b bs)
  show ?case
  proof (cases "uint b < 128")
    case True
    with "3.prems" have "v = uint b" "b # bs = [b] @ r" by simp_all
    with True show ?thesis by (intro exI [of _ "[b]"]) (simp add: leb_len.simps)
  next
    case False
    with "3.prems" obtain v' where d: "leb_decode k bs = Some (v', r)" and v: "v = uint b - 128 + 128 * v'"
      by (auto split: option.splits)
    from "3.IH" [OF False d] obtain p where p: "bs = p @ r" "leb_len v' \<le> length p" "length p \<le> k" "0 \<le> v'"
      by blast
    have b: "uint b < 256" using unsigned_less [of b, where 'a = int] by simp
    have "v div 128 = v'" using v False b by simp
    then have "leb_len v \<le> Suc (leb_len v')" by (subst leb_len.simps) simp
    with p False v show ?thesis by (intro exI [of _ "b # p"]) simp
  qed
qed simp_all

lemma length_le_put [simp]: "length (le_put k n) = k"
  by (induction k arbitrary: n) simp_all

lemma le_get_put: "0 \<le> n \<Longrightarrow> n < 256 ^ k \<Longrightarrow> le_get k (le_put k n @ r) = Some (n, r)"
proof (induction k arbitrary: n)
  case (Suc k)
  then have "le_get k (le_put k (n div 256) @ r) = Some (n div 256, r)"
    by (simp add: div_less_iff_less_mult mult.commute)
  then show ?case by (simp add: uint_byte)
qed simp

lemma le_get_None: "le_get k b = None \<longleftrightarrow> length b < k"
  by (induction k b rule: le_get.induct) auto

lemma le_get_Some: "le_get k b = Some (v, r) \<Longrightarrow> r = drop k b"
  by (induction k b arbitrary: v rule: le_get.induct) auto

interpretation leb: wire leb_lib
proof
  fix v :: u64 and r b :: bytes
  have v: "0 \<le> uint v" "uint v < 2 ^ 64" using unsigned_less [of v, where 'a = int] by simp_all
  have len: "leb_len (uint v) \<le> 10" using leb_len_bound [of "uint v" 9] v by simp
  show "decode_varint leb_lib (encode_varint leb_lib v @ r) = Some (v, r)"
    using leb_decode_encode [OF v(1) len, of r] v by (simp add: leb_lib_def)
  show "length (encode_varint leb_lib v) = encoded_len_varint leb_lib v"
    by (simp add: leb_lib_def length_leb_encode)
  show "1 \<le> encoded_len_varint leb_lib v" using leb_len_pos by (simp add: leb_lib_def)
  show "encoded_len_varint leb_lib v \<le> 10" using len by (simp add: leb_lib_def)
  assume "decode_varint leb_lib b = Some (v, r)"
  then obtain n where n: "leb_decode 10 b = Some (n, r)" and lt: "n < 2 ^ 64" and v: "v = of_int n"
    by (auto simp: leb_lib_def split: option.splits if_splits)
  from leb_decode_prefix [OF n] obtain p
    where p: "b = p @ r" "leb_len n \<le> length p" "length p \<le> 10" "0 \<le> n" by blast
  have "uint v = n" using v lt p(4) by (simp add: unsigned_of_int take_bit_eq_mod)
  with p show "\<exists>p. b = p @ r \<and> encoded_len_varint leb_lib v \<le> length p \<and> length p \<le> 10"
    by (auto simp: leb_lib_def)
next
  fix x :: u32 and r b :: bytes
  have x: "0 \<le> uint x" "uint x < 2 ^ 32" using unsigned_less [of x, where 'a = int] by simp_all
  show "get_u32_le leb_lib (put_u32_le leb_lib x @ r) = Some (x, r)"
    using le_get_put [of "uint x" 4 r] x by (simp add: leb_lib_def)
next
  fix y :: u64 and r b :: bytes
  have y: "0 \<le> uint y" "uint y < 2 ^ 64" using unsigned_less [of y, where 'a = int] by simp_all
  show "get_u64_le leb_lib (put_u64_le leb_lib y @ r) = Some (y, r)"
    using le_get_put [of "uint y" 8 r] y by (simp add: leb_lib_def)
qed (auto simp: leb_lib_def le_get_None dest: le_get_Some)

end
