(* ===== verification/Encode_Scalar.thy ===== *)
theory Encode_Scalar
  imports Wire
begin

text \<open>
  Encoding of scalar fields (\<^verbatim>\<open>runtime/encode/scalar.rs\<close>) and the errors of
  \<^verbatim>\<open>runtime/encode/lib.rs\<close>.

  A macro of the source is a function of its arguments: the arguments of \<^verbatim>\<open>scalar_encode_fns!\<close> and
  \<^verbatim>\<open>scalar_fixed_length_fns!\<close> / \<^verbatim>\<open>scalar_var_length_fns!\<close> are the record \<open>scalar_codec\<close>, the functions
  they declare are \<open>explicit_encode\<close>, \<open>implicit_encode\<close>, \<open>packed_encode\<close>, \<open>expanded_encode\<close> and their
  \<open>_length\<close> companions, and each invocation is one \<open>_codec\<close> record. The vector of pre-computed lengths is a
  list used as a stack (the last element of the vector is the head of the list). An encoding function
  maps the lengths and the bytes written so far to an error or to both updated.
\<close>

section \<open>Errors\<close>

datatype encode_message =
    NO_ENCODER_FOR_FIELD | MESSAGE_NON_OPTIONAL | MESSAGE_NON_RECORD | REPEATED_NON_LIST
  | EXPLICIT_NON_OPTION | BYTES_NON_LIST | BYTE_NON_BYTE | STRING_NON_STRING | BOOL_NON_BOOL
  | INT32_NON_INT32 | SINT32_NON_SINT32 | SFIXED32_NON_SFIXED32 | UINT32_NON_UINT32
  | FIXED32_NON_FIXED32 | INT64_NON_INT64 | SINT64_NON_SINT64 | SFIXED64_NON_SFIXED64
  | UINT64_NON_UINT64 | FIXED64_NON_FIXED64 | FLOAT_NON_FLOAT | DOUBLE_NON_DOUBLE
  | ENUM_NON_ENUM | ENUM_VARIANT_UNRECOGNIZED | ONEOF_NON_OPTIONAL | ONEOF_NON_VARIANT
  | ONEOF_VARIANT_UNRECOGNIZED | ONEOF_VARIANT_NO_PAYLOAD | LENGTH_INCONSISTENCY

datatype encode_level = EncodeLevel_Field string | EncodeLevel_Index nat

record encode_error =
  ee_message :: encode_message
  ee_traceback :: "encode_level list"

definition EncodeError_new :: "encode_message \<Rightarrow> encode_error" where
  "EncodeError_new message = \<lparr>ee_message = message, ee_traceback = []\<rparr>"

definition EncodeError_with_field :: "string \<Rightarrow> encode_error \<Rightarrow> encode_error" where
  "EncodeError_with_field name e = e\<lparr>ee_traceback := ee_traceback e @ [EncodeLevel_Field name]\<rparr>"

definition EncodeError_with_index :: "nat \<Rightarrow> encode_error \<Rightarrow> encode_error" where
  "EncodeError_with_index i e = e\<lparr>ee_traceback := ee_traceback e @ [EncodeLevel_Index i]\<rparr>"

text \<open>The \<^verbatim>\<open>Display\<close> form, sent to the client, says nothing; the \<^verbatim>\<open>Debug\<close> form is for the log.\<close>

fun encode_message_text :: "encode_message \<Rightarrow> string" where
  "encode_message_text NO_ENCODER_FOR_FIELD = ''Unexpected field name''"
| "encode_message_text MESSAGE_NON_OPTIONAL = ''Submessage is not optional''"
| "encode_message_text MESSAGE_NON_RECORD = ''Message is not a record''"
| "encode_message_text REPEATED_NON_LIST = ''Repeated field is not a list''"
| "encode_message_text EXPLICIT_NON_OPTION = ''Explicit field is not an option''"
| "encode_message_text BYTES_NON_LIST = ''Bytes field is not a list''"
| "encode_message_text BYTE_NON_BYTE = ''Byte item is not a byte''"
| "encode_message_text STRING_NON_STRING = ''String field is not a string''"
| "encode_message_text BOOL_NON_BOOL = ''Boolean field is not boolean''"
| "encode_message_text INT32_NON_INT32 = ''Int32 field is not S32''"
| "encode_message_text SINT32_NON_SINT32 = ''Sint32 field is not S32''"
| "encode_message_text SFIXED32_NON_SFIXED32 = ''Sfixed32 field is not S32''"
| "encode_message_text UINT32_NON_UINT32 = ''Uint32 field is not U32''"
| "encode_message_text FIXED32_NON_FIXED32 = ''Fixed32 field is not U32''"
| "encode_message_text INT64_NON_INT64 = ''Int64 field is not S64''"
| "encode_message_text SINT64_NON_SINT64 = ''Sint64 field is not S64''"
| "encode_message_text SFIXED64_NON_SFIXED64 = ''Sfixed64 field is not S64''"
| "encode_message_text UINT64_NON_UINT64 = ''Uint64 field is not U64''"
| "encode_message_text FIXED64_NON_FIXED64 = ''Fixed64 field is not U64''"
| "encode_message_text FLOAT_NON_FLOAT = ''Float field is not Float32''"
| "encode_message_text DOUBLE_NON_DOUBLE = ''Double field is not Float64''"
| "encode_message_text ENUM_NON_ENUM = ''Enum field is not an enumeration''"
| "encode_message_text ENUM_VARIANT_UNRECOGNIZED = ''Unrecognized enum variant''"
| "encode_message_text ONEOF_NON_OPTIONAL = ''Oneof field is not optional''"
| "encode_message_text ONEOF_NON_VARIANT = ''Oneof field is not a variant''"
| "encode_message_text ONEOF_VARIANT_UNRECOGNIZED = ''Unrecognized oneof variant''"
| "encode_message_text ONEOF_VARIANT_NO_PAYLOAD = ''Oneof variant lacks a payload''"
| "encode_message_text LENGTH_INCONSISTENCY = ''Length pre-computation algorithm error''"

fun encode_level_text :: "encode_level \<Rightarrow> string" where
  "encode_level_text (EncodeLevel_Field name) = CHR ''.'' # name"
| "encode_level_text (EncodeLevel_Index index) = CHR ''['' # nat_decimal index @ '']''"

definition format_encode_error_trace :: "encode_error \<Rightarrow> string" where
  "format_encode_error_trace e = concat (map encode_level_text (rev (ee_traceback e)))"

definition EncodeError_debug :: "encode_error \<Rightarrow> string" where
  "EncodeError_debug e =
     ''EncodeError('' @ format_encode_error_trace e @ ''): '' @ encode_message_text (ee_message e)"

definition EncodeError_display :: "encode_error \<Rightarrow> string" where
  "EncodeError_display e = ''Response serialization error''"

type_synonym lengths = "u32 list"
type_synonym encode_result = "encode_error + lengths \<times> bytes"
type_synonym length_result = "encode_error + u32 \<times> lengths"

section \<open>The macros\<close>

datatype 'a scalar_length = Fixed_length nat | Var_length "'a \<Rightarrow> encode_error + u32"

record 'a scalar_codec =
  sc_type :: "val \<Rightarrow> 'a option"  \<comment> \<open>\<^verbatim>\<open>if let $type(value) = item\<close>\<close>
  sc_type_error :: encode_message
  sc_encode_inner :: "'a \<Rightarrow> bytes \<Rightarrow> encode_error + bytes"
  sc_default :: "'a \<Rightarrow> bool"
  sc_length :: "'a scalar_length"

fun option_get :: "val \<Rightarrow> val option option" where
  "option_get (Val_Option v) = Some v"
| "option_get _ = None"

fun list_get :: "val \<Rightarrow> val list option" where
  "list_get (Val_List vs) = Some vs"
| "list_get _ = None"

definition explicit_encode ::
    "wire_lib \<Rightarrow> 'a scalar_codec \<Rightarrow> u64 \<Rightarrow> val \<Rightarrow> lengths \<Rightarrow> bytes \<Rightarrow> encode_result" where
  "explicit_encode W c etag value lengths buf =
     (case option_get value of
        None \<Rightarrow> Inl (EncodeError_new EXPLICIT_NON_OPTION)
      | Some None \<Rightarrow> Inr (lengths, buf)
      | Some (Some item) \<Rightarrow>
          (case sc_type c item of
             Some value \<Rightarrow>
               ebind (sc_encode_inner c value (buf @ encode_varint W etag)) (\<lambda>buf. Inr (lengths, buf))
           | None \<Rightarrow> Inl (EncodeError_new (sc_type_error c))))"

definition implicit_encode ::
    "wire_lib \<Rightarrow> 'a scalar_codec \<Rightarrow> u64 \<Rightarrow> val \<Rightarrow> lengths \<Rightarrow> bytes \<Rightarrow> encode_result" where
  "implicit_encode W c etag value lengths buf =
     (case sc_type c value of
        None \<Rightarrow> Inl (EncodeError_new (sc_type_error c))
      | Some value \<Rightarrow>
          if \<not> sc_default c value
          then ebind (sc_encode_inner c value (buf @ encode_varint W etag)) (\<lambda>buf. Inr (lengths, buf))
          else Inr (lengths, buf))"

fun packed_items_encode :: "'a scalar_codec \<Rightarrow> val list \<Rightarrow> bytes \<Rightarrow> encode_error + bytes" where
  "packed_items_encode c [] buf = Inr buf"
| "packed_items_encode c (item # items) buf =
     (case sc_type c item of
        Some value \<Rightarrow> ebind (sc_encode_inner c value buf) (packed_items_encode c items)
      | None \<Rightarrow> Inl (EncodeError_new (sc_type_error c)))"

definition packed_encode ::
    "wire_lib \<Rightarrow> 'a scalar_codec \<Rightarrow> u64 \<Rightarrow> val \<Rightarrow> lengths \<Rightarrow> bytes \<Rightarrow> encode_result" where
  "packed_encode W c etag value lengths buf =
     (case list_get value of
        None \<Rightarrow> Inl (EncodeError_new REPEATED_NON_LIST)
      | Some items \<Rightarrow>
          if length items > 0
          then (case lengths of
                  len # lengths \<Rightarrow>
                    ebind (packed_items_encode c items (buf @ encode_varint W etag @ encode_varint W (ucast len)))
                      (\<lambda>buf. Inr (lengths, buf))
                | [] \<Rightarrow> Inl (EncodeError_new LENGTH_INCONSISTENCY))
          else Inr (lengths, buf))"

fun expanded_items_encode ::
    "wire_lib \<Rightarrow> 'a scalar_codec \<Rightarrow> u64 \<Rightarrow> val list \<Rightarrow> bytes \<Rightarrow> encode_error + bytes" where
  "expanded_items_encode W c etag [] buf = Inr buf"
| "expanded_items_encode W c etag (item # items) buf =
     (case sc_type c item of
        Some value \<Rightarrow>
          ebind (sc_encode_inner c value (buf @ encode_varint W etag)) (expanded_items_encode W c etag items)
      | None \<Rightarrow> Inl (EncodeError_new (sc_type_error c)))"

definition expanded_encode ::
    "wire_lib \<Rightarrow> 'a scalar_codec \<Rightarrow> u64 \<Rightarrow> val \<Rightarrow> lengths \<Rightarrow> bytes \<Rightarrow> encode_result" where
  "expanded_encode W c etag value lengths buf =
     (case list_get value of
        None \<Rightarrow> Inl (EncodeError_new REPEATED_NON_LIST)
      | Some items \<Rightarrow> ebind (expanded_items_encode W c etag items buf) (\<lambda>buf. Inr (lengths, buf)))"

text \<open>Length functions: for a fixed length the items are not looked at.\<close>

definition explicit_length :: "wire_lib \<Rightarrow> 'a scalar_codec \<Rightarrow> u64 \<Rightarrow> val \<Rightarrow> lengths \<Rightarrow> length_result" where
  "explicit_length W c etag value lengths =
     (case option_get value of
        None \<Rightarrow> Inl (EncodeError_new EXPLICIT_NON_OPTION)
      | Some None \<Rightarrow> Inr (0, lengths)
      | Some (Some item) \<Rightarrow>
          (case sc_length c of
             Fixed_length n \<Rightarrow> Inr (saturating_add (of_nat n) (of_nat (encoded_len_varint W etag)), lengths)
           | Var_length length_inner \<Rightarrow>
               (case sc_type c item of
                  Some value \<Rightarrow>
                    ebind (length_inner value)
                      (\<lambda>n. Inr (saturating_add n (of_nat (encoded_len_varint W etag)), lengths))
                | None \<Rightarrow> Inl (EncodeError_new (sc_type_error c)))))"

definition implicit_length :: "wire_lib \<Rightarrow> 'a scalar_codec \<Rightarrow> u64 \<Rightarrow> val \<Rightarrow> lengths \<Rightarrow> length_result" where
  "implicit_length W c etag value lengths =
     (case sc_type c value of
        None \<Rightarrow> Inl (EncodeError_new (sc_type_error c))
      | Some value \<Rightarrow>
          if \<not> sc_default c value
          then (case sc_length c of
                  Fixed_length n \<Rightarrow> Inr (saturating_add (of_nat n) (of_nat (encoded_len_varint W etag)), lengths)
                | Var_length length_inner \<Rightarrow>
                    ebind (length_inner value)
                      (\<lambda>n. Inr (saturating_add n (of_nat (encoded_len_varint W etag)), lengths)))
          else Inr (0, lengths))"

fun packed_items_length :: "'a scalar_codec \<Rightarrow> ('a \<Rightarrow> encode_error + u32) \<Rightarrow> val list \<Rightarrow> u32 \<Rightarrow> encode_error + u32" where
  "packed_items_length c length_inner [] tot = Inr tot"
| "packed_items_length c length_inner (item # items) tot =
     (case sc_type c item of
        Some value \<Rightarrow>
          ebind (length_inner value) (\<lambda>n. packed_items_length c length_inner items (saturating_add tot n))
      | None \<Rightarrow> Inl (EncodeError_new (sc_type_error c)))"

definition packed_length :: "wire_lib \<Rightarrow> 'a scalar_codec \<Rightarrow> u64 \<Rightarrow> val \<Rightarrow> lengths \<Rightarrow> length_result" where
  "packed_length W c etag value lengths =
     (case list_get value of
        None \<Rightarrow> Inl (EncodeError_new REPEATED_NON_LIST)
      | Some items \<Rightarrow>
          if length items > 0
          then ebind (case sc_length c of
                        Fixed_length n \<Rightarrow> Inr (u32_try_from_or_max (length items * n))
                      | Var_length length_inner \<Rightarrow> packed_items_length c length_inner items 0)
                 (\<lambda>tot. Inr (saturating_add tot
                    (of_nat (encoded_len_varint W etag + encoded_len_varint W (ucast tot))), tot # lengths))
          else Inr (0, lengths))"

fun expanded_items_length ::
    "'a scalar_codec \<Rightarrow> ('a \<Rightarrow> encode_error + u32) \<Rightarrow> u32 \<Rightarrow> val list \<Rightarrow> u32 \<Rightarrow> encode_error + u32" where
  "expanded_items_length c length_inner tag_length [] tot = Inr tot"
| "expanded_items_length c length_inner tag_length (item # items) tot =
     (case sc_type c item of
        Some value \<Rightarrow>
          ebind (length_inner value)
            (\<lambda>n. expanded_items_length c length_inner tag_length items
                   (saturating_add tot (saturating_add n tag_length)))
      | None \<Rightarrow> Inl (EncodeError_new (sc_type_error c)))"

definition expanded_length :: "wire_lib \<Rightarrow> 'a scalar_codec \<Rightarrow> u64 \<Rightarrow> val \<Rightarrow> lengths \<Rightarrow> length_result" where
  "expanded_length W c etag value lengths =
     (case list_get value of
        None \<Rightarrow> Inl (EncodeError_new REPEATED_NON_LIST)
      | Some items \<Rightarrow>
          (case sc_length c of
             Fixed_length n \<Rightarrow> Inr (u32_try_from_or_max ((encoded_len_varint W etag + n) * length items), lengths)
           | Var_length length_inner \<Rightarrow>
               ebind (expanded_items_length c length_inner (of_nat (encoded_len_varint W etag)) items 0)
                 (\<lambda>tot. Inr (tot, lengths))))"

definition scalar_encode_fns ::
    "wire_lib \<Rightarrow> 'a scalar_codec \<Rightarrow> presence \<Rightarrow> u64 \<Rightarrow> val \<Rightarrow> lengths \<Rightarrow> bytes \<Rightarrow> encode_result" where
  "scalar_encode_fns W c p =
     (case p of Implicit \<Rightarrow> implicit_encode W c | Packed \<Rightarrow> packed_encode W c
      | Explicit \<Rightarrow> explicit_encode W c | Expanded \<Rightarrow> expanded_encode W c)"

definition scalar_length_fns ::
    "wire_lib \<Rightarrow> 'a scalar_codec \<Rightarrow> presence \<Rightarrow> u64 \<Rightarrow> val \<Rightarrow> lengths \<Rightarrow> length_result" where
  "scalar_length_fns W c p =
     (case p of Implicit \<Rightarrow> implicit_length W c | Packed \<Rightarrow> packed_length W c
      | Explicit \<Rightarrow> explicit_length W c | Expanded \<Rightarrow> expanded_length W c)"

section \<open>The scalar types\<close>

fun bytes_items_encode :: "val list \<Rightarrow> bytes \<Rightarrow> encode_error + bytes" where
  "bytes_items_encode [] buf = Inr buf"
| "bytes_items_encode (item # items) buf =
     (case item of
        Val_U8 byte \<Rightarrow> bytes_items_encode items (buf @ [byte])
      | _ \<Rightarrow> Inl (EncodeError_new BYTE_NON_BYTE))"

definition bytes_encode_inner :: "wire_lib \<Rightarrow> val list \<Rightarrow> bytes \<Rightarrow> encode_error + bytes" where
  "bytes_encode_inner W value buf = bytes_items_encode value (buf @ encode_varint W (of_nat (length value)))"

definition bytes_length_inner :: "wire_lib \<Rightarrow> val list \<Rightarrow> encode_error + u32" where
  "bytes_length_inner W value =
     Inr (saturating_add (of_nat (encoded_len_varint W (of_nat (length value)))) (u32_try_from_or_max (length value)))"

definition bytes_default :: "val list \<Rightarrow> bool" where
  "bytes_default value \<longleftrightarrow> value = []"

definition bytes_codec :: "wire_lib \<Rightarrow> val list scalar_codec" where
  "bytes_codec W =
     \<lparr>sc_type = list_get, sc_type_error = BYTES_NON_LIST, sc_encode_inner = bytes_encode_inner W,
      sc_default = bytes_default, sc_length = Var_length (bytes_length_inner W)\<rparr>"

fun string_get :: "val \<Rightarrow> string option" where
  "string_get (Val_String s) = Some s"
| "string_get _ = None"

definition string_encode_inner :: "wire_lib \<Rightarrow> string \<Rightarrow> bytes \<Rightarrow> encode_error + bytes" where
  "string_encode_inner W value buf = Inr (buf @ encode_varint W (of_nat (length value)) @ as_bytes value)"

definition string_length_inner :: "wire_lib \<Rightarrow> string \<Rightarrow> encode_error + u32" where
  "string_length_inner W value =
     Inr (saturating_add (of_nat (encoded_len_varint W (of_nat (length value)))) (u32_try_from_or_max (length value)))"

definition string_default :: "string \<Rightarrow> bool" where
  "string_default value \<longleftrightarrow> value = []"

definition string_codec :: "wire_lib \<Rightarrow> string scalar_codec" where
  "string_codec W =
     \<lparr>sc_type = string_get, sc_type_error = STRING_NON_STRING, sc_encode_inner = string_encode_inner W,
      sc_default = string_default, sc_length = Var_length (string_length_inner W)\<rparr>"

fun bool_get :: "val \<Rightarrow> bool option" where
  "bool_get (Val_Bool b) = Some b"
| "bool_get _ = None"

definition bool_encode_inner :: "bool \<Rightarrow> bytes \<Rightarrow> encode_error + bytes" where
  "bool_encode_inner value buf = Inr (buf @ [if value then 1 else 0])"

definition bool_default :: "bool \<Rightarrow> bool" where
  "bool_default value \<longleftrightarrow> \<not> value"

definition bool_codec :: "bool scalar_codec" where
  "bool_codec =
     \<lparr>sc_type = bool_get, sc_type_error = BOOL_NON_BOOL, sc_encode_inner = bool_encode_inner,
      sc_default = bool_default, sc_length = Fixed_length 1\<rparr>"

fun s32_get :: "val \<Rightarrow> i32 option" where
  "s32_get (Val_S32 n) = Some n"
| "s32_get _ = None"

fun u32_get :: "val \<Rightarrow> u32 option" where
  "u32_get (Val_U32 n) = Some n"
| "u32_get _ = None"

fun s64_get :: "val \<Rightarrow> i64 option" where
  "s64_get (Val_S64 n) = Some n"
| "s64_get _ = None"

fun u64_get :: "val \<Rightarrow> u64 option" where
  "u64_get (Val_U64 n) = Some n"
| "u64_get _ = None"

fun float32_get :: "val \<Rightarrow> f32 option" where
  "float32_get (Val_Float32 n) = Some n"
| "float32_get _ = None"

fun float64_get :: "val \<Rightarrow> f64 option" where
  "float64_get (Val_Float64 n) = Some n"
| "float64_get _ = None"

text \<open>The numbers passed to \<^verbatim>\<open>encode_varint\<close> / \<^verbatim>\<open>encoded_len_varint\<close>; a cast from \<^verbatim>\<open>i32\<close> extends the sign.\<close>

definition int32_varint :: "i32 \<Rightarrow> u64" where
  "int32_varint value = scast value"

definition zigzag32 :: "i32 \<Rightarrow> u64" where
  "zigzag32 value = ucast (push_bit 1 value XOR signed_drop_bit 31 value)"

definition zigzag64 :: "i64 \<Rightarrow> u64" where
  "zigzag64 value = push_bit 1 value XOR signed_drop_bit 63 value"

definition varint_codec ::
    "wire_lib \<Rightarrow> (val \<Rightarrow> ('n::len) word option) \<Rightarrow> encode_message \<Rightarrow> ('n word \<Rightarrow> u64) \<Rightarrow> 'n word scalar_codec" where
  "varint_codec W get err varint =
     \<lparr>sc_type = get, sc_type_error = err,
      sc_encode_inner = (\<lambda>value buf. Inr (buf @ encode_varint W (varint value))),
      sc_default = (\<lambda>value. value = 0),
      sc_length = Var_length (\<lambda>value. Inr (of_nat (encoded_len_varint W (varint value))))\<rparr>"

definition fixed_codec ::
    "(val \<Rightarrow> ('n::len) word option) \<Rightarrow> encode_message \<Rightarrow> ('n word \<Rightarrow> bytes) \<Rightarrow> ('n word \<Rightarrow> bool) \<Rightarrow> nat \<Rightarrow> 'n word scalar_codec" where
  "fixed_codec get err put dflt n =
     \<lparr>sc_type = get, sc_type_error = err, sc_encode_inner = (\<lambda>value buf. Inr (buf @ put value)),
      sc_default = dflt, sc_length = Fixed_length n\<rparr>"

definition int32_codec :: "wire_lib \<Rightarrow> i32 scalar_codec" where
  "int32_codec W = varint_codec W s32_get INT32_NON_INT32 int32_varint"

definition sint32_codec :: "wire_lib \<Rightarrow> i32 scalar_codec" where
  "sint32_codec W = varint_codec W s32_get SINT32_NON_SINT32 zigzag32"

definition sfixed32_codec :: "wire_lib \<Rightarrow> i32 scalar_codec" where
  "sfixed32_codec W = fixed_codec s32_get SFIXED32_NON_SFIXED32 (put_u32_le W) (\<lambda>value. value = 0) 4"

definition uint32_codec :: "wire_lib \<Rightarrow> u32 scalar_codec" where
  "uint32_codec W = varint_codec W u32_get UINT32_NON_UINT32 ucast"

definition fixed32_codec :: "wire_lib \<Rightarrow> u32 scalar_codec" where
  "fixed32_codec W = fixed_codec u32_get FIXED32_NON_FIXED32 (put_u32_le W) (\<lambda>value. value = 0) 4"

definition int64_codec :: "wire_lib \<Rightarrow> i64 scalar_codec" where
  "int64_codec W = varint_codec W s64_get INT64_NON_INT64 id"

definition sint64_codec :: "wire_lib \<Rightarrow> i64 scalar_codec" where
  "sint64_codec W = varint_codec W s64_get SINT64_NON_SINT64 zigzag64"

definition sfixed64_codec :: "wire_lib \<Rightarrow> i64 scalar_codec" where
  "sfixed64_codec W = fixed_codec s64_get SFIXED64_NON_SFIXED64 (put_u64_le W) (\<lambda>value. value = 0) 8"

definition uint64_codec :: "wire_lib \<Rightarrow> u64 scalar_codec" where
  "uint64_codec W = varint_codec W u64_get UINT64_NON_UINT64 id"

definition fixed64_codec :: "wire_lib \<Rightarrow> u64 scalar_codec" where
  "fixed64_codec W = fixed_codec u64_get FIXED64_NON_FIXED64 (put_u64_le W) (\<lambda>value. value = 0) 8"

text \<open>\<^verbatim>\<open>*value == 0.0\<close> holds of both zeros.\<close>

definition float_default :: "f32 \<Rightarrow> bool" where
  "float_default value \<longleftrightarrow> value = 0 \<or> value = 0x80000000"

definition float_codec :: "wire_lib \<Rightarrow> f32 scalar_codec" where
  "float_codec W = fixed_codec float32_get FLOAT_NON_FLOAT (put_u32_le W) float_default 4"

definition double_default :: "f64 \<Rightarrow> bool" where
  "double_default value \<longleftrightarrow> value = 0 \<or> value = 0x8000000000000000"

definition double_codec :: "wire_lib \<Rightarrow> f64 scalar_codec" where
  "double_codec W = fixed_codec float64_get DOUBLE_NON_DOUBLE (put_u64_le W) double_default 8"

section \<open>The dispatch table\<close>

text \<open>
  \<^verbatim>\<open>Encoder::scalar\<close> stores two function pointers and a tag. A pointer is the name of the function, the
  pair of a type and a presence; \<open>scalar_encode\<close> and \<open>scalar_length\<close> call through it.
\<close>

definition scalar_encode ::
    "wire_lib \<Rightarrow> scalar_kind \<Rightarrow> presence \<Rightarrow> u64 \<Rightarrow> val \<Rightarrow> lengths \<Rightarrow> bytes \<Rightarrow> encode_result" where
  "scalar_encode W k p =
     (case k of
        Bytes \<Rightarrow> scalar_encode_fns W (bytes_codec W) p
      | String_utf8 \<Rightarrow> scalar_encode_fns W (string_codec W) p
      | String_permissive \<Rightarrow> scalar_encode_fns W (string_codec W) p
      | Bool \<Rightarrow> scalar_encode_fns W bool_codec p
      | Int32 \<Rightarrow> scalar_encode_fns W (int32_codec W) p
      | Sint32 \<Rightarrow> scalar_encode_fns W (sint32_codec W) p
      | Sfixed32 \<Rightarrow> scalar_encode_fns W (sfixed32_codec W) p
      | Uint32 \<Rightarrow> scalar_encode_fns W (uint32_codec W) p
      | Fixed32 \<Rightarrow> scalar_encode_fns W (fixed32_codec W) p
      | Int64 \<Rightarrow> scalar_encode_fns W (int64_codec W) p
      | Sint64 \<Rightarrow> scalar_encode_fns W (sint64_codec W) p
      | Sfixed64 \<Rightarrow> scalar_encode_fns W (sfixed64_codec W) p
      | Uint64 \<Rightarrow> scalar_encode_fns W (uint64_codec W) p
      | Fixed64 \<Rightarrow> scalar_encode_fns W (fixed64_codec W) p
      | Float \<Rightarrow> scalar_encode_fns W (float_codec W) p
      | Double \<Rightarrow> scalar_encode_fns W (double_codec W) p)"

definition scalar_length ::
    "wire_lib \<Rightarrow> scalar_kind \<Rightarrow> presence \<Rightarrow> u64 \<Rightarrow> val \<Rightarrow> lengths \<Rightarrow> length_result" where
  "scalar_length W k p =
     (case k of
        Bytes \<Rightarrow> scalar_length_fns W (bytes_codec W) p
      | String_utf8 \<Rightarrow> scalar_length_fns W (string_codec W) p
      | String_permissive \<Rightarrow> scalar_length_fns W (string_codec W) p
      | Bool \<Rightarrow> scalar_length_fns W bool_codec p
      | Int32 \<Rightarrow> scalar_length_fns W (int32_codec W) p
      | Sint32 \<Rightarrow> scalar_length_fns W (sint32_codec W) p
      | Sfixed32 \<Rightarrow> scalar_length_fns W (sfixed32_codec W) p
      | Uint32 \<Rightarrow> scalar_length_fns W (uint32_codec W) p
      | Fixed32 \<Rightarrow> scalar_length_fns W (fixed32_codec W) p
      | Int64 \<Rightarrow> scalar_length_fns W (int64_codec W) p
      | Sint64 \<Rightarrow> scalar_length_fns W (sint64_codec W) p
      | Sfixed64 \<Rightarrow> scalar_length_fns W (sfixed64_codec W) p
      | Uint64 \<Rightarrow> scalar_length_fns W (uint64_codec W) p
      | Fixed64 \<Rightarrow> scalar_length_fns W (fixed64_codec W) p
      | Float \<Rightarrow> scalar_length_fns W (float_codec W) p
      | Double \<Rightarrow> scalar_length_fns W (double_codec W) p)"

fun kind_wire_type :: "scalar_kind \<Rightarrow> wire_type" where
  "kind_wire_type Bytes = LengthDelimited"
| "kind_wire_type String_utf8 = LengthDelimited"
| "kind_wire_type String_permissive = LengthDelimited"
| "kind_wire_type Bool = Varint"
| "kind_wire_type Int32 = Varint"
| "kind_wire_type Sint32 = Varint"
| "kind_wire_type Sfixed32 = ThirtyTwoBit"
| "kind_wire_type Uint32 = Varint"
| "kind_wire_type Fixed32 = ThirtyTwoBit"
| "kind_wire_type Int64 = Varint"
| "kind_wire_type Sint64 = Varint"
| "kind_wire_type Sfixed64 = SixtyFourBit"
| "kind_wire_type Uint64 = Varint"
| "kind_wire_type Fixed64 = SixtyFourBit"
| "kind_wire_type Float = ThirtyTwoBit"
| "kind_wire_type Double = SixtyFourBit"

definition scalar_wire_type :: "scalar_kind \<Rightarrow> presence \<Rightarrow> wire_type" where
  "scalar_wire_type k p = (if p = Packed then LengthDelimited else kind_wire_type k)"

end
