(* ===== verification/Scalar_Spec.thy ===== *)
theory Scalar_Spec
  imports Encode_Scalar
begin

text \<open>
  What a scalar field looks like on the wire, as a one-pass reference definition, and the proof that the
  two passes of the encoder (pre-computation of lengths, then encoding) produce it. The contract of one
  scalar type, what each invocation of the macros must supply, is the locale \<open>scalar_payload\<close>; the four
  presences are verified once inside it, and every type is an interpretation.
\<close>

section \<open>Reference\<close>

fun payload_ok :: "scalar_kind \<Rightarrow> val \<Rightarrow> bool" where
  "payload_ok Bytes v = (case v of Val_List vs \<Rightarrow> \<forall>b \<in> set vs. (case b of Val_U8 _ \<Rightarrow> True | _ \<Rightarrow> False) | _ \<Rightarrow> False)"
| "payload_ok String_utf8 v = (string_get v \<noteq> None)"
| "payload_ok String_permissive v = (string_get v \<noteq> None)"
| "payload_ok Bool v = (bool_get v \<noteq> None)"
| "payload_ok Int32 v = (s32_get v \<noteq> None)"
| "payload_ok Sint32 v = (s32_get v \<noteq> None)"
| "payload_ok Sfixed32 v = (s32_get v \<noteq> None)"
| "payload_ok Uint32 v = (u32_get v \<noteq> None)"
| "payload_ok Fixed32 v = (u32_get v \<noteq> None)"
| "payload_ok Int64 v = (s64_get v \<noteq> None)"
| "payload_ok Sint64 v = (s64_get v \<noteq> None)"
| "payload_ok Sfixed64 v = (s64_get v \<noteq> None)"
| "payload_ok Uint64 v = (u64_get v \<noteq> None)"
| "payload_ok Fixed64 v = (u64_get v \<noteq> None)"
| "payload_ok Float v = (float32_get v \<noteq> None)"
| "payload_ok Double v = (float64_get v \<noteq> None)"

definition delimited :: "wire_lib \<Rightarrow> bytes \<Rightarrow> bytes" where
  "delimited W b = encode_varint W (of_nat (length b)) @ b"

fun val_byte :: "val \<Rightarrow> u8" where
  "val_byte (Val_U8 b) = b"
| "val_byte _ = 0"

fun payload :: "wire_lib \<Rightarrow> scalar_kind \<Rightarrow> val \<Rightarrow> bytes" where
  "payload W Bytes v = delimited W (map val_byte (the (list_get v)))"
| "payload W String_utf8 v = delimited W (as_bytes (the (string_get v)))"
| "payload W String_permissive v = delimited W (as_bytes (the (string_get v)))"
| "payload W Bool v = [if the (bool_get v) then 1 else 0]"
| "payload W Int32 v = encode_varint W (int32_varint (the (s32_get v)))"
| "payload W Sint32 v = encode_varint W (zigzag32 (the (s32_get v)))"
| "payload W Sfixed32 v = put_u32_le W (the (s32_get v))"
| "payload W Uint32 v = encode_varint W (ucast (the (u32_get v)))"
| "payload W Fixed32 v = put_u32_le W (the (u32_get v))"
| "payload W Int64 v = encode_varint W (the (s64_get v))"
| "payload W Sint64 v = encode_varint W (zigzag64 (the (s64_get v)))"
| "payload W Sfixed64 v = put_u64_le W (the (s64_get v))"
| "payload W Uint64 v = encode_varint W (the (u64_get v))"
| "payload W Fixed64 v = put_u64_le W (the (u64_get v))"
| "payload W Float v = put_u32_le W (the (float32_get v))"
| "payload W Double v = put_u64_le W (the (float64_get v))"

text \<open>The values an implicit field does not write.\<close>

fun payload_default :: "scalar_kind \<Rightarrow> val \<Rightarrow> bool" where
  "payload_default Float v = float_default (the (float32_get v))"
| "payload_default Double v = double_default (the (float64_get v))"
| "payload_default k v = (v \<in> {Val_List [], Val_String [], Val_Bool False, Val_S32 0, Val_U32 0, Val_S64 0, Val_U64 0})"

fun present_ok :: "(val \<Rightarrow> bool) \<Rightarrow> presence \<Rightarrow> val \<Rightarrow> bool" where
  "present_ok okv Implicit v = okv v"
| "present_ok okv Explicit v = (case v of Val_Option None \<Rightarrow> True | Val_Option (Some x) \<Rightarrow> okv x | _ \<Rightarrow> False)"
| "present_ok okv Packed v = (case v of Val_List xs \<Rightarrow> \<forall>x \<in> set xs. okv x | _ \<Rightarrow> False)"
| "present_ok okv Expanded v = (case v of Val_List xs \<Rightarrow> \<forall>x \<in> set xs. okv x | _ \<Rightarrow> False)"

fun present_bytes ::
    "wire_lib \<Rightarrow> (val \<Rightarrow> bytes) \<Rightarrow> (val \<Rightarrow> bool) \<Rightarrow> presence \<Rightarrow> u64 \<Rightarrow> val \<Rightarrow> bytes" where
  "present_bytes W pay dflt Implicit t v = (if dflt v then [] else encode_varint W t @ pay v)"
| "present_bytes W pay dflt Explicit t v =
     (case v of Val_Option (Some x) \<Rightarrow> encode_varint W t @ pay x | _ \<Rightarrow> [])"
| "present_bytes W pay dflt Packed t v =
     (case v of Val_List (x # xs) \<Rightarrow> encode_varint W t @ delimited W (concat (map pay (x # xs))) | _ \<Rightarrow> [])"
| "present_bytes W pay dflt Expanded t v =
     (case v of Val_List xs \<Rightarrow> concat (map (\<lambda>x. encode_varint W t @ pay x) xs) | _ \<Rightarrow> [])"

text \<open>The lengths the first pass leaves for the second.\<close>

fun present_stack :: "(val \<Rightarrow> bytes) \<Rightarrow> presence \<Rightarrow> val \<Rightarrow> u32 list" where
  "present_stack pay Packed v =
     (case v of Val_List (x # xs) \<Rightarrow> [of_nat (length (concat (map pay (x # xs))))] | _ \<Rightarrow> [])"
| "present_stack pay p v = []"

lemma present_Packed:
  "present_bytes W pay dflt Packed t (Val_List xs) =
     (if xs = [] then [] else encode_varint W t @ delimited W (concat (map pay xs)))"
  "present_stack pay Packed (Val_List xs) = (if xs = [] then [] else [of_nat (length (concat (map pay xs)))])"
  by (cases xs; simp)+

section \<open>Arithmetic without saturation\<close>

lemma sat_of_nat: "a + b < 2 ^ 32 - 1 \<Longrightarrow> saturating_add (of_nat a) (of_nat b) = of_nat (a + b)"
  by (simp add: saturating_add_unat unat_of_nat take_bit_eq_mod)

lemma try_from_of_nat: "n < 2 ^ 32 - 1 \<Longrightarrow> u32_try_from_or_max n = of_nat n"
  by (simp add: u32_try_from_or_max_def)

lemma ucast_of_nat_u32: "n < 2 ^ 32 \<Longrightarrow> (ucast (of_nat n :: u32) :: u64) = of_nat n"
  by (simp add: unsigned_of_nat take_bit_eq_mod)

lemma getter_iff [simp]:
  "option_get v = Some o' \<longleftrightarrow> v = Val_Option o'"
  "list_get v = Some vs \<longleftrightarrow> v = Val_List vs"
  "string_get v = Some s \<longleftrightarrow> v = Val_String s"
  "bool_get v = Some b \<longleftrightarrow> v = Val_Bool b"
  "s32_get v = Some i \<longleftrightarrow> v = Val_S32 i"
  "u32_get v = Some i \<longleftrightarrow> v = Val_U32 i"
  "s64_get v = Some l \<longleftrightarrow> v = Val_S64 l"
  "u64_get v = Some l \<longleftrightarrow> v = Val_U64 l"
  "float32_get v = Some i \<longleftrightarrow> v = Val_Float32 i"
  "float64_get v = Some l \<longleftrightarrow> v = Val_Float64 l"
  by (cases v; simp)+

section \<open>One scalar type\<close>

definition length_agrees :: "'a scalar_codec \<Rightarrow> 'a \<Rightarrow> nat \<Rightarrow> bool" where
  "length_agrees c x m =
     (case sc_length c of
        Fixed_length n \<Rightarrow> m = n
      | Var_length f \<Rightarrow> m < 2 ^ 32 - 1 \<longrightarrow> f x = Inr (of_nat m))"

locale scalar_payload = wire W for W :: wire_lib +
  fixes c :: "'a scalar_codec" and okv :: "val \<Rightarrow> bool" and pay :: "val \<Rightarrow> bytes" and dflt :: "val \<Rightarrow> bool"
  assumes contract: "okv v \<Longrightarrow>
    \<exists>x. sc_type c v = Some x \<and> (\<forall>buf. sc_encode_inner c x buf = Inr (buf @ pay v))
      \<and> (sc_default c x \<longleftrightarrow> dflt v) \<and> length_agrees c x (length (pay v))"
begin

lemma packed_items:
  "\<forall>x \<in> set xs. okv x \<Longrightarrow> packed_items_encode c xs buf = Inr (buf @ concat (map pay xs))"
proof (induction xs arbitrary: buf)
  case (Cons x xs)
  then show ?case using contract [of x] by auto
qed simp

lemma expanded_items:
  "\<forall>x \<in> set xs. okv x \<Longrightarrow>
     expanded_items_encode W c t xs buf = Inr (buf @ concat (map (\<lambda>x. encode_varint W t @ pay x) xs))"
proof (induction xs arbitrary: buf)
  case (Cons x xs)
  then show ?case using contract [of x] by auto
qed simp

lemma encode_ok:
  assumes "present_ok okv p v" "length (present_bytes W pay dflt p t v) < 2 ^ 32 - 1"
  shows "scalar_encode_fns W c p t v (present_stack pay p v @ ls) buf = Inr (ls, buf @ present_bytes W pay dflt p t v)"
proof (cases p)
  case Implicit
  with assms contract [of v] show ?thesis by (auto simp: scalar_encode_fns_def implicit_encode_def)
next
  case Explicit
  with assms contract show ?thesis
    by (fastforce simp: scalar_encode_fns_def explicit_encode_def split: val.splits option.splits)
next
  case Packed
  with assms obtain xs where v: "v = Val_List xs" and ok: "\<forall>x \<in> set xs. okv x"
    by (auto split: val.splits)
  show ?thesis
  proof (cases xs)
    case (Cons y ys)
    with assms(2) Packed v have "length (concat (map pay xs)) < 2 ^ 32"
      by (simp add: delimited_def)
    with Packed v Cons packed_items [OF ok] show ?thesis
      by (simp add: scalar_encode_fns_def packed_encode_def delimited_def ucast_of_nat_u32 del: of_nat_add)
  qed (simp add: Packed v scalar_encode_fns_def packed_encode_def)
next
  case Expanded
  with assms expanded_items show ?thesis
    by (auto simp: scalar_encode_fns_def expanded_encode_def split: val.splits)
qed

lemma packed_items_len:
  assumes "sc_length c = Var_length f"
  shows "\<forall>x \<in> set xs. okv x \<Longrightarrow> n + length (concat (map pay xs)) < 2 ^ 32 - 1 \<Longrightarrow>
    packed_items_length c f xs (of_nat n) = Inr (of_nat (n + length (concat (map pay xs))))"
proof (induction xs arbitrary: n)
  case (Cons x xs)
  then obtain y where "sc_type c x = Some y" "f y = Inr (of_nat (length (pay x)))"
    using contract [of x] assms by (auto simp: length_agrees_def)
  moreover have "saturating_add (of_nat n) (of_nat (length (pay x))) = of_nat (n + length (pay x))"
    using Cons.prems(2) by (intro sat_of_nat) simp
  moreover have "packed_items_length c f xs (of_nat (n + length (pay x)))
      = Inr (of_nat (n + length (pay x) + length (concat (map pay xs))))"
    using Cons.prems by (intro Cons.IH) simp_all
  ultimately show ?case by (simp add: add.assoc)
qed simp

lemma expanded_items_len:
  assumes "sc_length c = Var_length f"
  shows "\<forall>x \<in> set xs. okv x \<Longrightarrow>
    n + length (concat (map (\<lambda>x. encode_varint W t @ pay x) xs)) < 2 ^ 32 - 1 \<Longrightarrow>
    expanded_items_length c f (of_nat (encoded_len_varint W t)) xs (of_nat n)
      = Inr (of_nat (n + length (concat (map (\<lambda>x. encode_varint W t @ pay x) xs))))"
proof (induction xs arbitrary: n)
  case (Cons x xs)
  let ?m = "length (pay x) + encoded_len_varint W t"
  obtain y where "sc_type c x = Some y" "f y = Inr (of_nat (length (pay x)))"
    using Cons.prems contract [of x] assms by (auto simp: length_agrees_def)
  moreover have "saturating_add (of_nat (length (pay x))) (of_nat (encoded_len_varint W t)) = of_nat ?m"
    using Cons.prems(2) by (intro sat_of_nat) (simp add: length_encode)
  moreover have "saturating_add (of_nat n) (of_nat ?m) = of_nat (n + ?m)"
    using Cons.prems(2) by (intro sat_of_nat) (simp add: length_encode)
  moreover have "expanded_items_length c f (of_nat (encoded_len_varint W t)) xs (of_nat (n + ?m))
      = Inr (of_nat (n + ?m + length (concat (map (\<lambda>x. encode_varint W t @ pay x) xs))))"
    using Cons.prems by (intro Cons.IH) (simp_all add: length_encode)
  ultimately show ?case by (simp add: length_encode ac_simps del: of_nat_add)
qed simp

lemma fixed_concat:
  assumes "sc_length c = Fixed_length n" "\<forall>x \<in> set xs. okv x"
  shows "length (concat (map pay xs)) = length xs * n"
    and "length (concat (map (\<lambda>x. encode_varint W t @ pay x) xs)) = (encoded_len_varint W t + n) * length xs"
  using assms(2)
proof (induction xs)
  case (Cons x xs)
  case 1
  with Cons show ?case using contract [of x] assms(1) by (auto simp: length_agrees_def)
next
  case (Cons x xs)
  case 2
  with Cons show ?case using contract [of x] assms(1) by (auto simp: length_agrees_def length_encode)
qed simp_all

lemma single_length_ok:
  assumes "okv v" "length (encode_varint W t @ pay v) < 2 ^ 32 - 1" "sc_type c v = Some x"
  shows "(case sc_length c of
            Fixed_length n \<Rightarrow> Inr (saturating_add (of_nat n) (of_nat (encoded_len_varint W t)), ls)
          | Var_length f \<Rightarrow> ebind (f x) (\<lambda>n. Inr (saturating_add n (of_nat (encoded_len_varint W t)), ls)))
      = Inr (of_nat (length (encode_varint W t @ pay v)), ls)"
proof -
  have "length_agrees c x (length (pay v))" using contract [OF assms(1)] assms(3) by auto
  moreover have "saturating_add (of_nat (length (pay v))) (of_nat (encoded_len_varint W t))
      = of_nat (length (encode_varint W t @ pay v))"
    using assms(2) sat_of_nat [of "length (pay v)" "encoded_len_varint W t"]
    by (simp add: length_encode add.commute del: of_nat_add)
  ultimately show ?thesis
    using assms(2) by (auto simp: length_agrees_def split: scalar_length.splits)
qed

lemma packed_total_ok:
  assumes "\<forall>x \<in> set xs. okv x" "length (concat (map pay xs)) < 2 ^ 32 - 1"
  shows "(case sc_length c of
            Fixed_length n \<Rightarrow> Inr (u32_try_from_or_max (length xs * n))
          | Var_length f \<Rightarrow> packed_items_length c f xs 0) = Inr (of_nat (length (concat (map pay xs))))"
  using assms fixed_concat(1) [OF _ assms(1)] packed_items_len [of _ xs 0]
  by (auto simp: try_from_of_nat split: scalar_length.splits)

lemma length_ok:
  assumes "present_ok okv p v" "length (present_bytes W pay dflt p t v) < 2 ^ 32 - 1"
  shows "scalar_length_fns W c p t v ls
      = Inr (of_nat (length (present_bytes W pay dflt p t v)), present_stack pay p v @ ls)"
proof (cases p)
  case Implicit
  with assms(1) have ok: "okv v" by simp
  from contract [OF ok] obtain x where x: "sc_type c v = Some x" "sc_default c x \<longleftrightarrow> dflt v" by blast
  show ?thesis
    using assms(2) Implicit x single_length_ok [OF ok _ x(1), of t ls]
    by (cases "dflt v") (simp_all add: scalar_length_fns_def implicit_length_def)
next
  case Explicit
  show ?thesis
  proof (cases "v = Val_Option None")
    case False
    with assms(1) Explicit obtain x where v: "v = Val_Option (Some x)" and ok: "okv x"
      by (auto split: val.splits option.splits)
    from contract [OF ok] obtain y where y: "sc_type c x = Some y" by blast
    show ?thesis
      using assms(2) Explicit v y single_length_ok [OF ok _ y, of t ls]
      by (auto simp: scalar_length_fns_def explicit_length_def split: scalar_length.splits)
  qed (simp add: Explicit scalar_length_fns_def explicit_length_def)
next
  case Packed
  with assms obtain xs where v: "v = Val_List xs" and ok: "\<forall>x \<in> set xs. okv x"
    by (auto split: val.splits)
  show ?thesis
  proof (cases "xs = []")
    case False
    let ?m = "length (concat (map pay xs))"
    have lt: "?m + (encoded_len_varint W t + encoded_len_varint W (of_nat ?m)) < 2 ^ 32 - 1"
      using assms(2) Packed v False by (simp add: present_Packed delimited_def length_encode del: present_bytes.simps)
    then have "(case sc_length c of
            Fixed_length n \<Rightarrow> Inr (u32_try_from_or_max (length xs * n))
          | Var_length f \<Rightarrow> packed_items_length c f xs 0) = Inr (of_nat ?m)"
      by (intro packed_total_ok [OF ok]) simp
    then show ?thesis
      using lt Packed v False sat_of_nat [OF lt]
      by (simp add: present_Packed scalar_length_fns_def packed_length_def delimited_def length_encode
          ucast_of_nat_u32 ac_simps del: of_nat_add present_bytes.simps present_stack.simps)
  qed (simp add: Packed v scalar_length_fns_def packed_length_def)
next
  case Expanded
  with assms obtain xs where v: "v = Val_List xs" and ok: "\<forall>x \<in> set xs. okv x"
    by (auto split: val.splits)
  show ?thesis
    using assms(2) Expanded v fixed_concat(2) [OF _ ok, of _ t] expanded_items_len [OF _ ok, of _ 0 t]
    by (auto simp: scalar_length_fns_def expanded_length_def try_from_of_nat split: scalar_length.splits
        simp del: of_nat_add of_nat_mult)
qed

end

section \<open>The sixteen scalar types\<close>

lemma bytes_items:
  "\<forall>b \<in> set vs. (case b of Val_U8 _ \<Rightarrow> True | _ \<Rightarrow> False) \<Longrightarrow>
     bytes_items_encode vs buf = Inr (buf @ map val_byte vs)"
  by (induction vs arbitrary: buf) (auto split: val.splits)

lemmas scalar_codec_defs =
  bytes_codec_def bytes_encode_inner_def bytes_length_inner_def bytes_default_def
  string_codec_def string_encode_inner_def string_length_inner_def string_default_def
  bool_codec_def bool_encode_inner_def bool_default_def varint_codec_def fixed_codec_def
  int32_codec_def sint32_codec_def sfixed32_codec_def uint32_codec_def fixed32_codec_def
  int64_codec_def sint64_codec_def sfixed64_codec_def uint64_codec_def fixed64_codec_def
  float_codec_def double_codec_def

context wire
begin

lemma varint_length_agrees: "length_agrees (varint_codec W get err f) x (length (encode_varint W (f x)))"
  by (simp add: length_agrees_def varint_codec_def length_encode)

lemma delimited_length_agrees:
  "length (delimited W b) < 2 ^ 32 - 1 \<Longrightarrow>
     saturating_add (of_nat (encoded_len_varint W (of_nat (length b)))) (u32_try_from_or_max (length b))
       = of_nat (length (delimited W b))"
  using sat_of_nat [of "encoded_len_varint W (of_nat (length b))" "length b"]
  by (simp add: delimited_def length_encode try_from_of_nat del: of_nat_add)

end

sublocale wire \<subseteq> bytes: scalar_payload W "bytes_codec W" "payload_ok Bytes" "payload W Bytes" "payload_default Bytes"
proof
  fix v
  assume "payload_ok Bytes v"
  then obtain vs where v: "v = Val_List vs" and ok: "\<forall>b \<in> set vs. (case b of Val_U8 _ \<Rightarrow> True | _ \<Rightarrow> False)"
    by (auto split: val.splits)
  have "length_agrees (bytes_codec W) vs (length (payload W Bytes v))"
    using delimited_length_agrees [of "map val_byte vs"] v
    by (simp add: length_agrees_def bytes_codec_def bytes_length_inner_def)
  with v bytes_items [OF ok] show "\<exists>x. sc_type (bytes_codec W) v = Some x
      \<and> (\<forall>buf. sc_encode_inner (bytes_codec W) x buf = Inr (buf @ payload W Bytes v))
      \<and> sc_default (bytes_codec W) x = payload_default Bytes v
      \<and> length_agrees (bytes_codec W) x (length (payload W Bytes v))"
    by (intro exI [of _ vs]) (simp add: bytes_codec_def bytes_encode_inner_def bytes_default_def delimited_def)
qed

context wire
begin

lemma string_contract:
  "sc_type (string_codec W) (Val_String s) = Some s
    \<and> (\<forall>buf. sc_encode_inner (string_codec W) s buf = Inr (buf @ delimited W (as_bytes s)))
    \<and> (sc_default (string_codec W) s \<longleftrightarrow> s = [])
    \<and> length_agrees (string_codec W) s (length (delimited W (as_bytes s)))"
  using delimited_length_agrees [of "as_bytes s"]
  by (auto simp: string_codec_def string_encode_inner_def string_default_def string_length_inner_def
      delimited_def length_agrees_def)

end

sublocale wire \<subseteq> string_utf8: scalar_payload W "string_codec W" "payload_ok String_utf8" "payload W String_utf8" "payload_default String_utf8"
  using string_contract by unfold_locales auto

sublocale wire \<subseteq> string_permissive: scalar_payload W "string_codec W" "payload_ok String_permissive" "payload W String_permissive" "payload_default String_permissive"
  using string_contract by unfold_locales auto

sublocale wire \<subseteq> bool: scalar_payload W bool_codec "payload_ok Bool" "payload W Bool" "payload_default Bool"
proof
  fix v
  assume "payload_ok Bool v"
  then obtain b where "v = Val_Bool b" by auto
  then show "\<exists>x. sc_type bool_codec v = Some x
      \<and> (\<forall>buf. sc_encode_inner bool_codec x buf = Inr (buf @ payload W Bool v))
      \<and> sc_default bool_codec x = payload_default Bool v \<and> length_agrees bool_codec x (length (payload W Bool v))"
    by (intro exI [of _ b]) (simp add: bool_codec_def bool_encode_inner_def bool_default_def length_agrees_def)
qed

sublocale wire \<subseteq> int32: scalar_payload W "int32_codec W" "payload_ok Int32" "payload W Int32" "payload_default Int32"
  by unfold_locales (auto simp: int32_codec_def varint_codec_def length_agrees_def length_encode)

sublocale wire \<subseteq> sint32: scalar_payload W "sint32_codec W" "payload_ok Sint32" "payload W Sint32" "payload_default Sint32"
  by unfold_locales (auto simp: sint32_codec_def varint_codec_def length_agrees_def length_encode)

sublocale wire \<subseteq> uint32: scalar_payload W "uint32_codec W" "payload_ok Uint32" "payload W Uint32" "payload_default Uint32"
  by unfold_locales (auto simp: uint32_codec_def varint_codec_def length_agrees_def length_encode)

sublocale wire \<subseteq> int64: scalar_payload W "int64_codec W" "payload_ok Int64" "payload W Int64" "payload_default Int64"
  by unfold_locales (auto simp: int64_codec_def varint_codec_def length_agrees_def length_encode)

sublocale wire \<subseteq> sint64: scalar_payload W "sint64_codec W" "payload_ok Sint64" "payload W Sint64" "payload_default Sint64"
  by unfold_locales (auto simp: sint64_codec_def varint_codec_def length_agrees_def length_encode)

sublocale wire \<subseteq> uint64: scalar_payload W "uint64_codec W" "payload_ok Uint64" "payload W Uint64" "payload_default Uint64"
  by unfold_locales (auto simp: uint64_codec_def varint_codec_def length_agrees_def length_encode)

sublocale wire \<subseteq> sfixed32: scalar_payload W "sfixed32_codec W" "payload_ok Sfixed32" "payload W Sfixed32" "payload_default Sfixed32"
  by unfold_locales (auto simp: sfixed32_codec_def fixed_codec_def length_agrees_def length_put_u32 length_put_u64)

sublocale wire \<subseteq> fixed32: scalar_payload W "fixed32_codec W" "payload_ok Fixed32" "payload W Fixed32" "payload_default Fixed32"
  by unfold_locales (auto simp: fixed32_codec_def fixed_codec_def length_agrees_def length_put_u32 length_put_u64)

sublocale wire \<subseteq> sfixed64: scalar_payload W "sfixed64_codec W" "payload_ok Sfixed64" "payload W Sfixed64" "payload_default Sfixed64"
  by unfold_locales (auto simp: sfixed64_codec_def fixed_codec_def length_agrees_def length_put_u32 length_put_u64)

sublocale wire \<subseteq> fixed64: scalar_payload W "fixed64_codec W" "payload_ok Fixed64" "payload W Fixed64" "payload_default Fixed64"
  by unfold_locales (auto simp: fixed64_codec_def fixed_codec_def length_agrees_def length_put_u32 length_put_u64)

sublocale wire \<subseteq> float: scalar_payload W "float_codec W" "payload_ok Float" "payload W Float" "payload_default Float"
  by unfold_locales (auto simp: float_codec_def fixed_codec_def length_agrees_def length_put_u32 length_put_u64)

sublocale wire \<subseteq> double: scalar_payload W "double_codec W" "payload_ok Double" "payload W Double" "payload_default Double"
  by unfold_locales (auto simp: double_codec_def fixed_codec_def length_agrees_def length_put_u32 length_put_u64)

context wire
begin

lemma scalar_length_ok:
  assumes "present_ok (payload_ok k) p v"
    and "length (present_bytes W (payload W k) (payload_default k) p t v) < 2 ^ 32 - 1"
  shows "scalar_length W k p t v ls
      = Inr (of_nat (length (present_bytes W (payload W k) (payload_default k) p t v)), present_stack (payload W k) p v @ ls)"
  using assms bytes.length_ok string_utf8.length_ok string_permissive.length_ok bool.length_ok
    int32.length_ok sint32.length_ok sfixed32.length_ok uint32.length_ok fixed32.length_ok
    int64.length_ok sint64.length_ok sfixed64.length_ok uint64.length_ok fixed64.length_ok
    float.length_ok double.length_ok
  by (cases k) (simp_all only: scalar_length_def scalar_kind.case)

lemma scalar_encode_ok:
  assumes "present_ok (payload_ok k) p v"
    and "length (present_bytes W (payload W k) (payload_default k) p t v) < 2 ^ 32 - 1"
  shows "scalar_encode W k p t v (present_stack (payload W k) p v @ ls) buf
      = Inr (ls, buf @ present_bytes W (payload W k) (payload_default k) p t v)"
  using assms bytes.encode_ok string_utf8.encode_ok string_permissive.encode_ok bool.encode_ok
    int32.encode_ok sint32.encode_ok sfixed32.encode_ok uint32.encode_ok fixed32.encode_ok
    int64.encode_ok sint64.encode_ok sfixed64.encode_ok uint64.encode_ok fixed64.encode_ok
    float.encode_ok double.encode_ok
  by (cases k) (simp_all only: scalar_encode_def scalar_kind.case)

end

end
