(* ===== verification/Encode_Compound.thy ===== *)
theory Encode_Compound
  imports Encode_Scalar
begin

text \<open>
  Encoders for messages, oneofs and enumerations (\<^verbatim>\<open>runtime/encode/compound.rs\<close>) and the top-level
  \<^verbatim>\<open>ResponseEncoder\<close> (\<^verbatim>\<open>runtime/encode/lib.rs\<close>).

  An \<open>encoder\<close> is the record of the source; its two function pointers are names of functions
  (\<open>codec_fn\<close>), which \<open>encode_call\<close> and \<open>length_call\<close> call. The union \<^verbatim>\<open>CompoundEncoder\<close> is a datatype;
  reading a member that was not the one written would be undefined behaviour, and
  \<open>encoder_wf\<close>, which every compiled encoder satisfies, says that it never happens. A hash map is an
  association list: insertion is \<^const>\<open>Cons\<close>, lookup is \<^const>\<open>map_of\<close>. The component name that the source
  passes along is never used and is left out.
\<close>

section \<open>Encoders\<close>

datatype codec_fn =
    Fn_scalar scalar_kind presence
  | Fn_message_inner | Fn_message_outer | Fn_message_repeated | Fn_oneof
  | Fn_enum_implicit | Fn_enum_packed | Fn_enum_explicit | Fn_enum_expanded

datatype encoder = Encoder
  (enc_encode: codec_fn) (enc_length: codec_fn) (enc_tag: u64) (enc_compound: compound_encoder)
and compound_encoder =
    Subfields "(string \<times> encoder) list"
  | Variants "(string \<times> u32) list"
  | Scalar_placeholder

fun subfields :: "compound_encoder \<Rightarrow> (string \<times> encoder) list" where
  "subfields (Subfields m) = m"
| "subfields _ = []"

fun variants :: "compound_encoder \<Rightarrow> (string \<times> u32) list" where
  "variants (Variants m) = m"
| "variants _ = []"

definition Encoder_scalar :: "scalar_coding \<Rightarrow> u32 \<Rightarrow> encoder" where
  "Encoder_scalar c number =
     (case c of ScalarCoding k p \<Rightarrow>
        Encoder (Fn_scalar k p) (Fn_scalar k p) (tag number (scalar_wire_type k p)) Scalar_placeholder)"

definition Encoder_message_inner :: "field \<Rightarrow> (string \<times> encoder) list \<Rightarrow> encoder" where
  "Encoder_message_inner message m =
     Encoder Fn_message_inner Fn_message_inner (tag (field_number message) LengthDelimited) (Subfields m)"

definition Encoder_message_outer :: "field \<Rightarrow> (string \<times> encoder) list \<Rightarrow> encoder" where
  "Encoder_message_outer message m =
     Encoder Fn_message_outer Fn_message_outer (tag (field_number message) LengthDelimited) (Subfields m)"

definition Encoder_message_repeated :: "field \<Rightarrow> (string \<times> encoder) list \<Rightarrow> encoder" where
  "Encoder_message_repeated message m =
     Encoder Fn_message_repeated Fn_message_repeated (tag (field_number message) LengthDelimited) (Subfields m)"

definition Encoder_oneof :: "(string \<times> encoder) list \<Rightarrow> encoder" where
  "Encoder_oneof m = Encoder Fn_oneof Fn_oneof 0 (Subfields m)"

fun compile_enum_loop :: "field list \<Rightarrow> (string \<times> u32) list \<Rightarrow> (string \<times> u32) list" where
  "compile_enum_loop [] m = m"
| "compile_enum_loop (s # ss) m = compile_enum_loop ss ((field_name s, field_number s) # m)"

definition compile_enum_variants :: "field \<Rightarrow> (string \<times> u32) list" where
  "compile_enum_variants enumeration = compile_enum_loop (field_subfields enumeration) []"

definition Encoder_enum_implicit :: "field \<Rightarrow> encoder" where
  "Encoder_enum_implicit enumeration =
     Encoder Fn_enum_implicit Fn_enum_implicit (tag (field_number enumeration) Varint)
       (Variants (compile_enum_variants enumeration))"

definition Encoder_enum_packed :: "field \<Rightarrow> encoder" where
  "Encoder_enum_packed enumeration =
     Encoder Fn_enum_packed Fn_enum_packed (tag (field_number enumeration) LengthDelimited)
       (Variants (compile_enum_variants enumeration))"

definition Encoder_enum_explicit :: "field \<Rightarrow> encoder" where
  "Encoder_enum_explicit enumeration =
     Encoder Fn_enum_explicit Fn_enum_explicit (tag (field_number enumeration) Varint)
       (Variants (compile_enum_variants enumeration))"

definition Encoder_enum_expanded :: "field \<Rightarrow> encoder" where
  "Encoder_enum_expanded enumeration =
     Encoder Fn_enum_expanded Fn_enum_expanded (tag (field_number enumeration) Varint)
       (Variants (compile_enum_variants enumeration))"

datatype compile_error =
    Missing_coding u32
  | Variant_explicit_scalar u32 int
  | Invalid_scalar_coding u32 int
  | Variant_explicit_compound u32 int
  | Invalid_compound_coding u32 int
  | Context_message u32 compile_error
  | Context_repeated_message u32 compile_error
  | Context_oneof compile_error
  | Context_response compile_error

fun compile_compound :: "field \<Rightarrow> bool \<Rightarrow> compile_error + (string \<times> encoder) list"
  and compile_loop :: "bool \<Rightarrow> field list \<Rightarrow> (string \<times> encoder) list \<Rightarrow> compile_error + (string \<times> encoder) list"
  and compile_subfield :: "bool \<Rightarrow> field \<Rightarrow> compile_error + encoder" where
  "compile_compound (Field number name subs coding) is_oneof = compile_loop is_oneof subs []"
| "compile_loop is_oneof [] m = Inr m"
| "compile_loop is_oneof (subfield # rest) m =
     ebind (compile_subfield is_oneof subfield) (\<lambda>e. compile_loop is_oneof rest ((field_name subfield, e) # m))"
| "compile_subfield is_oneof subfield =
     (case field_coding subfield of
        None \<Rightarrow> Inl (Missing_coding (field_number subfield))
      | Some (Scalar_coding c) \<Rightarrow>
          if is_oneof \<and> \<not> explicit_scalar c
          then Inl (Variant_explicit_scalar (field_number subfield) c)
          else (case scalar_coding_try_from c of
                  None \<Rightarrow> Inl (Invalid_scalar_coding (field_number subfield) c)
                | Some sc \<Rightarrow> Inr (Encoder_scalar sc (field_number subfield)))
      | Some (Compound_coding c) \<Rightarrow>
          if is_oneof \<and> c \<noteq> 6 \<and> c \<noteq> 2
          then Inl (Variant_explicit_compound (field_number subfield) c)
          else (case compound_coding_try_from c of
                  None \<Rightarrow> Inl (Invalid_compound_coding (field_number subfield) c)
                | Some EnumImplicit \<Rightarrow> Inr (Encoder_enum_implicit subfield)
                | Some EnumPacked \<Rightarrow> Inr (Encoder_enum_packed subfield)
                | Some EnumExplicit \<Rightarrow> Inr (Encoder_enum_explicit subfield)
                | Some EnumExpanded \<Rightarrow> Inr (Encoder_enum_expanded subfield)
                | Some Message \<Rightarrow>
                    emap_err (Context_message (field_number subfield))
                      (ebind (compile_compound subfield False) (\<lambda>m. Inr (Encoder_message_outer subfield m)))
                | Some MessageExpanded \<Rightarrow>
                    emap_err (Context_repeated_message (field_number subfield))
                      (ebind (compile_compound subfield False) (\<lambda>m. Inr (Encoder_message_repeated subfield m)))
                | Some Oneof \<Rightarrow>
                    emap_err Context_oneof
                      (ebind (compile_compound subfield True) (\<lambda>m. Inr (Encoder_oneof m)))))"

definition ResponseEncoder_new :: "field \<Rightarrow> compile_error + encoder" where
  "ResponseEncoder_new response =
     emap_err Context_response
       (ebind (compile_compound response False) (\<lambda>m. Inr (Encoder_message_inner response m)))"

section \<open>Enumerations\<close>

definition enum_explicit_encode :: "wire_lib \<Rightarrow> encoder \<Rightarrow> val \<Rightarrow> lengths \<Rightarrow> bytes \<Rightarrow> encode_result" where
  "enum_explicit_encode W encoder value lengths buf =
     (case value of
        Val_Enum name \<Rightarrow>
          (case map_of (variants (enc_compound encoder)) name of
             Some number \<Rightarrow> Inr (lengths, buf @ encode_varint W (enc_tag encoder) @ encode_varint W (ucast number))
           | None \<Rightarrow> Inl (EncodeError_new ENUM_VARIANT_UNRECOGNIZED))
      | _ \<Rightarrow> Inl (EncodeError_new ENUM_NON_ENUM))"

definition enum_explicit_length :: "wire_lib \<Rightarrow> encoder \<Rightarrow> val \<Rightarrow> lengths \<Rightarrow> length_result" where
  "enum_explicit_length W encoder value lengths =
     (case value of
        Val_Enum name \<Rightarrow>
          (case map_of (variants (enc_compound encoder)) name of
             Some number \<Rightarrow>
               Inr (of_nat (encoded_len_varint W (enc_tag encoder) + encoded_len_varint W (ucast number)), lengths)
           | None \<Rightarrow> Inl (EncodeError_new ENUM_VARIANT_UNRECOGNIZED))
      | _ \<Rightarrow> Inl (EncodeError_new ENUM_NON_ENUM))"

definition enum_implicit_encode :: "wire_lib \<Rightarrow> encoder \<Rightarrow> val \<Rightarrow> lengths \<Rightarrow> bytes \<Rightarrow> encode_result" where
  "enum_implicit_encode W encoder value lengths buf =
     (case value of
        Val_Enum name \<Rightarrow>
          (case map_of (variants (enc_compound encoder)) name of
             Some number \<Rightarrow>
               Inr (lengths, if number \<noteq> 0
                 then buf @ encode_varint W (enc_tag encoder) @ encode_varint W (ucast number) else buf)
           | None \<Rightarrow> Inl (EncodeError_new ENUM_VARIANT_UNRECOGNIZED))
      | _ \<Rightarrow> Inl (EncodeError_new ENUM_NON_ENUM))"

definition enum_implicit_length :: "wire_lib \<Rightarrow> encoder \<Rightarrow> val \<Rightarrow> lengths \<Rightarrow> length_result" where
  "enum_implicit_length W encoder value lengths =
     (case value of
        Val_Enum name \<Rightarrow>
          (case map_of (variants (enc_compound encoder)) name of
             Some number \<Rightarrow>
               Inr (if number \<noteq> 0
                 then of_nat (encoded_len_varint W (enc_tag encoder) + encoded_len_varint W (ucast number)) else 0,
                 lengths)
           | None \<Rightarrow> Inl (EncodeError_new ENUM_VARIANT_UNRECOGNIZED))
      | _ \<Rightarrow> Inl (EncodeError_new ENUM_NON_ENUM))"

fun enum_packed_items_encode :: "wire_lib \<Rightarrow> encoder \<Rightarrow> nat \<Rightarrow> val list \<Rightarrow> bytes \<Rightarrow> encode_error + bytes" where
  "enum_packed_items_encode W encoder index [] buf = Inr buf"
| "enum_packed_items_encode W encoder index (value # items) buf =
     (case value of
        Val_Enum name \<Rightarrow>
          (case map_of (variants (enc_compound encoder)) name of
             Some number \<Rightarrow>
               enum_packed_items_encode W encoder (index + 1) items (buf @ encode_varint W (ucast number))
           | None \<Rightarrow> Inl (EncodeError_with_index index (EncodeError_new ENUM_VARIANT_UNRECOGNIZED)))
      | _ \<Rightarrow> Inl (EncodeError_with_index index (EncodeError_new ENUM_NON_ENUM)))"

definition enum_packed_encode :: "wire_lib \<Rightarrow> encoder \<Rightarrow> val \<Rightarrow> lengths \<Rightarrow> bytes \<Rightarrow> encode_result" where
  "enum_packed_encode W encoder value lengths buf =
     (case list_get value of
        None \<Rightarrow> Inl (EncodeError_new REPEATED_NON_LIST)
      | Some items \<Rightarrow>
          if length items > 0
          then (case lengths of
                  len # lengths \<Rightarrow>
                    ebind (enum_packed_items_encode W encoder 0 items
                        (buf @ encode_varint W (enc_tag encoder) @ encode_varint W (ucast len)))
                      (\<lambda>buf. Inr (lengths, buf))
                | [] \<Rightarrow> Inl (EncodeError_new LENGTH_INCONSISTENCY))
          else Inr (lengths, buf))"

text \<open>The sums of \<open>enum_packed_length\<close> are plain \<^verbatim>\<open>u32\<close> additions.\<close>

fun enum_packed_items_length :: "wire_lib \<Rightarrow> encoder \<Rightarrow> nat \<Rightarrow> val list \<Rightarrow> u32 \<Rightarrow> encode_error + u32" where
  "enum_packed_items_length W encoder index [] tot = Inr tot"
| "enum_packed_items_length W encoder index (value # items) tot =
     (case value of
        Val_Enum name \<Rightarrow>
          (case map_of (variants (enc_compound encoder)) name of
             Some number \<Rightarrow>
               enum_packed_items_length W encoder (index + 1) items
                 (tot + of_nat (encoded_len_varint W (ucast number)))
           | None \<Rightarrow> Inl (EncodeError_with_index index (EncodeError_new ENUM_VARIANT_UNRECOGNIZED)))
      | _ \<Rightarrow> Inl (EncodeError_with_index index (EncodeError_new ENUM_NON_ENUM)))"

definition enum_packed_length :: "wire_lib \<Rightarrow> encoder \<Rightarrow> val \<Rightarrow> lengths \<Rightarrow> length_result" where
  "enum_packed_length W encoder value lengths =
     (case list_get value of
        None \<Rightarrow> Inl (EncodeError_new REPEATED_NON_LIST)
      | Some items \<Rightarrow>
          if length items > 0
          then ebind (enum_packed_items_length W encoder 0 items 0)
                 (\<lambda>tot. Inr (tot + of_nat (encoded_len_varint W (enc_tag encoder) + encoded_len_varint W (ucast tot)),
                    tot # lengths))
          else Inr (0, lengths))"

fun enum_expanded_items_encode :: "wire_lib \<Rightarrow> encoder \<Rightarrow> nat \<Rightarrow> val list \<Rightarrow> bytes \<Rightarrow> encode_error + bytes" where
  "enum_expanded_items_encode W encoder index [] buf = Inr buf"
| "enum_expanded_items_encode W encoder index (value # items) buf =
     (case value of
        Val_Enum name \<Rightarrow>
          (case map_of (variants (enc_compound encoder)) name of
             Some number \<Rightarrow>
               enum_expanded_items_encode W encoder (index + 1) items
                 (buf @ encode_varint W (enc_tag encoder) @ encode_varint W (ucast number))
           | None \<Rightarrow> Inl (EncodeError_with_index index (EncodeError_new ENUM_VARIANT_UNRECOGNIZED)))
      | _ \<Rightarrow> Inl (EncodeError_with_index index (EncodeError_new ENUM_NON_ENUM)))"

definition enum_expanded_encode :: "wire_lib \<Rightarrow> encoder \<Rightarrow> val \<Rightarrow> lengths \<Rightarrow> bytes \<Rightarrow> encode_result" where
  "enum_expanded_encode W encoder value lengths buf =
     (case list_get value of
        None \<Rightarrow> Inl (EncodeError_new REPEATED_NON_LIST)
      | Some items \<Rightarrow> ebind (enum_expanded_items_encode W encoder 0 items buf) (\<lambda>buf. Inr (lengths, buf)))"

fun enum_expanded_items_length :: "wire_lib \<Rightarrow> encoder \<Rightarrow> nat \<Rightarrow> val list \<Rightarrow> u32 \<Rightarrow> encode_error + u32" where
  "enum_expanded_items_length W encoder index [] tot = Inr tot"
| "enum_expanded_items_length W encoder index (value # items) tot =
     (case value of
        Val_Enum name \<Rightarrow>
          (case map_of (variants (enc_compound encoder)) name of
             Some number \<Rightarrow>
               enum_expanded_items_length W encoder (index + 1) items
                 (saturating_add tot (of_nat (encoded_len_varint W (enc_tag encoder))
                    + of_nat (encoded_len_varint W (ucast number))))
           | None \<Rightarrow> Inl (EncodeError_with_index index (EncodeError_new ENUM_VARIANT_UNRECOGNIZED)))
      | _ \<Rightarrow> Inl (EncodeError_with_index index (EncodeError_new ENUM_NON_ENUM)))"

definition enum_expanded_length :: "wire_lib \<Rightarrow> encoder \<Rightarrow> val \<Rightarrow> lengths \<Rightarrow> length_result" where
  "enum_expanded_length W encoder value lengths =
     (case list_get value of
        None \<Rightarrow> Inl (EncodeError_new REPEATED_NON_LIST)
      | Some items \<Rightarrow> ebind (enum_expanded_items_length W encoder 0 items 0) (\<lambda>tot. Inr (tot, lengths)))"

section \<open>Messages and oneofs\<close>

function (sequential) encode_call :: "wire_lib \<Rightarrow> encoder \<Rightarrow> val \<Rightarrow> lengths \<Rightarrow> bytes \<Rightarrow> encode_result"
  and message_inner_encode :: "wire_lib \<Rightarrow> encoder \<Rightarrow> val \<Rightarrow> lengths \<Rightarrow> bytes \<Rightarrow> encode_result"
  and message_fields_encode ::
    "wire_lib \<Rightarrow> encoder \<Rightarrow> (string \<times> val) list \<Rightarrow> lengths \<Rightarrow> bytes \<Rightarrow> encode_result"
  and message_outer_encode :: "wire_lib \<Rightarrow> encoder \<Rightarrow> val \<Rightarrow> lengths \<Rightarrow> bytes \<Rightarrow> encode_result"
  and message_repeated_encode :: "wire_lib \<Rightarrow> encoder \<Rightarrow> val \<Rightarrow> lengths \<Rightarrow> bytes \<Rightarrow> encode_result"
  and message_items_encode :: "wire_lib \<Rightarrow> encoder \<Rightarrow> nat \<Rightarrow> val list \<Rightarrow> lengths \<Rightarrow> bytes \<Rightarrow> encode_result"
  and oneof_encode :: "wire_lib \<Rightarrow> encoder \<Rightarrow> val \<Rightarrow> lengths \<Rightarrow> bytes \<Rightarrow> encode_result" where
  "encode_call W encoder value lengths buf =
     (case enc_encode encoder of
        Fn_scalar k p \<Rightarrow> scalar_encode W k p (enc_tag encoder) value lengths buf
      | Fn_message_inner \<Rightarrow> message_inner_encode W encoder value lengths buf
      | Fn_message_outer \<Rightarrow> message_outer_encode W encoder value lengths buf
      | Fn_message_repeated \<Rightarrow> message_repeated_encode W encoder value lengths buf
      | Fn_oneof \<Rightarrow> oneof_encode W encoder value lengths buf
      | Fn_enum_implicit \<Rightarrow> enum_implicit_encode W encoder value lengths buf
      | Fn_enum_packed \<Rightarrow> enum_packed_encode W encoder value lengths buf
      | Fn_enum_explicit \<Rightarrow> enum_explicit_encode W encoder value lengths buf
      | Fn_enum_expanded \<Rightarrow> enum_expanded_encode W encoder value lengths buf)"
| "message_inner_encode W encoder value lengths buf =
     (case value of
        Val_Record flds \<Rightarrow> message_fields_encode W encoder flds lengths buf
      | _ \<Rightarrow> Inl (EncodeError_new MESSAGE_NON_RECORD))"
| "message_fields_encode W encoder [] lengths buf = Inr (lengths, buf)"
| "message_fields_encode W encoder ((name, value) # flds) lengths buf =
     (case map_of (subfields (enc_compound encoder)) name of
        Some sub \<Rightarrow>
          ebind (emap_err (EncodeError_with_field name) (encode_call W sub value lengths buf))
            (\<lambda>(lengths, buf). message_fields_encode W encoder flds lengths buf)
      | None \<Rightarrow> Inl (EncodeError_with_field name (EncodeError_new NO_ENCODER_FOR_FIELD)))"
| "message_outer_encode W encoder value lengths buf =
     (case value of
        Val_Option (Some value) \<Rightarrow>
          (case lengths of
             len # lengths \<Rightarrow>
               message_inner_encode W encoder value lengths
                 (buf @ encode_varint W (enc_tag encoder) @ encode_varint W (ucast len))
           | [] \<Rightarrow> Inl (EncodeError_new LENGTH_INCONSISTENCY))
      | Val_Option None \<Rightarrow> Inr (lengths, buf)
      | _ \<Rightarrow> Inl (EncodeError_new MESSAGE_NON_OPTIONAL))"
| "message_repeated_encode W encoder value lengths buf =
     (case value of
        Val_List items \<Rightarrow> message_items_encode W encoder 0 items lengths buf
      | _ \<Rightarrow> Inl (EncodeError_new REPEATED_NON_LIST))"
| "message_items_encode W encoder index [] lengths buf = Inr (lengths, buf)"
| "message_items_encode W encoder index (value # items) lengths buf =
     (case lengths of
        len # lengths \<Rightarrow>
          ebind (emap_err (EncodeError_with_index index)
              (message_inner_encode W encoder value lengths
                 (buf @ encode_varint W (enc_tag encoder) @ encode_varint W (ucast len))))
            (\<lambda>(lengths, buf). message_items_encode W encoder (index + 1) items lengths buf)
      | [] \<Rightarrow> Inl (EncodeError_with_index index (EncodeError_new LENGTH_INCONSISTENCY)))"
| "oneof_encode W encoder value lengths buf =
     (case value of
        Val_Option (Some (Val_Variant name payload)) \<Rightarrow>
          (case map_of (subfields (enc_compound encoder)) name of
             Some sub \<Rightarrow>
               (case payload of
                  Some value \<Rightarrow>
                    emap_err (EncodeError_with_field name)
                      (encode_call W sub (Val_Option (Some value)) lengths buf)
                | None \<Rightarrow> Inl (EncodeError_with_field name (EncodeError_new ONEOF_VARIANT_NO_PAYLOAD)))
           | None \<Rightarrow> Inl (EncodeError_with_field name (EncodeError_new ONEOF_VARIANT_UNRECOGNIZED)))
      | Val_Option (Some _) \<Rightarrow> Inl (EncodeError_new ONEOF_NON_VARIANT)
      | Val_Option None \<Rightarrow> Inr (lengths, buf)
      | _ \<Rightarrow> Inl (EncodeError_new ONEOF_NON_OPTIONAL))"

  by pat_completeness auto
termination
  by (relation "measure (\<lambda>x. case x of
        Inl (Inl (W, e, v, ls, buf)) \<Rightarrow> 2 * size v + 1
      | Inl (Inr (Inl (W, e, v, ls, buf))) \<Rightarrow> 2 * size v
      | Inl (Inr (Inr (W, e, fl, ls, buf))) \<Rightarrow> 2 * size (Val_Record fl) - 1
      | Inr (Inl (Inl (W, e, v, ls, buf))) \<Rightarrow> 2 * size v
      | Inr (Inl (Inr (W, e, v, ls, buf))) \<Rightarrow> 2 * size v
      | Inr (Inr (Inl (W, e, i, vs, ls, buf))) \<Rightarrow> 2 * size (Val_List vs) - 1
      | Inr (Inr (Inr (W, e, v, ls, buf))) \<Rightarrow> 2 * size v)") auto

declare encode_call.simps [simp del] message_inner_encode.simps [simp del] message_outer_encode.simps [simp del]
  message_repeated_encode.simps [simp del] oneof_encode.simps [simp del]

lemma size_list_rev [simp]: "size_list f (rev xs) = size_list f xs"
  by (induction xs) simp_all

text \<open>
  The length functions walk the fields of a record backwards, so that lengths are pushed in the opposite
  order of how the encoding functions pop them.
\<close>

function (sequential) length_call :: "wire_lib \<Rightarrow> encoder \<Rightarrow> val \<Rightarrow> lengths \<Rightarrow> length_result"
  and message_inner_length :: "wire_lib \<Rightarrow> encoder \<Rightarrow> val \<Rightarrow> lengths \<Rightarrow> length_result"
  and message_fields_length ::
    "wire_lib \<Rightarrow> encoder \<Rightarrow> (string \<times> val) list \<Rightarrow> u32 \<Rightarrow> lengths \<Rightarrow> length_result"
  and message_outer_length :: "wire_lib \<Rightarrow> encoder \<Rightarrow> val \<Rightarrow> lengths \<Rightarrow> length_result"
  and message_repeated_length :: "wire_lib \<Rightarrow> encoder \<Rightarrow> val \<Rightarrow> lengths \<Rightarrow> length_result"
  and message_items_length :: "wire_lib \<Rightarrow> encoder \<Rightarrow> nat \<Rightarrow> val list \<Rightarrow> u32 \<Rightarrow> lengths \<Rightarrow> length_result"
  and oneof_length :: "wire_lib \<Rightarrow> encoder \<Rightarrow> val \<Rightarrow> lengths \<Rightarrow> length_result" where
  "length_call W encoder value lengths =
     (case enc_length encoder of
        Fn_scalar k p \<Rightarrow> scalar_length W k p (enc_tag encoder) value lengths
      | Fn_message_inner \<Rightarrow> message_inner_length W encoder value lengths
      | Fn_message_outer \<Rightarrow> message_outer_length W encoder value lengths
      | Fn_message_repeated \<Rightarrow> message_repeated_length W encoder value lengths
      | Fn_oneof \<Rightarrow> oneof_length W encoder value lengths
      | Fn_enum_implicit \<Rightarrow> enum_implicit_length W encoder value lengths
      | Fn_enum_packed \<Rightarrow> enum_packed_length W encoder value lengths
      | Fn_enum_explicit \<Rightarrow> enum_explicit_length W encoder value lengths
      | Fn_enum_expanded \<Rightarrow> enum_expanded_length W encoder value lengths)"
| "message_inner_length W encoder value lengths =
     (case value of
        Val_Record flds \<Rightarrow> message_fields_length W encoder (rev flds) 0 lengths
      | _ \<Rightarrow> Inl (EncodeError_new MESSAGE_NON_RECORD))"
| "message_fields_length W encoder [] tot lengths = Inr (tot, lengths)"
| "message_fields_length W encoder ((name, value) # flds) tot lengths =
     (case map_of (subfields (enc_compound encoder)) name of
        Some sub \<Rightarrow>
          ebind (emap_err (EncodeError_with_field name) (length_call W sub value lengths))
            (\<lambda>(sublength, lengths). message_fields_length W encoder flds (saturating_add tot sublength) lengths)
      | None \<Rightarrow> Inl (EncodeError_with_field name (EncodeError_new NO_ENCODER_FOR_FIELD)))"
| "message_outer_length W encoder value lengths =
     (case value of
        Val_Option (Some value) \<Rightarrow>
          ebind (message_inner_length W encoder value lengths)
            (\<lambda>(len, lengths). Inr (saturating_add len
               (of_nat (encoded_len_varint W (enc_tag encoder) + encoded_len_varint W (ucast len))), len # lengths))
      | Val_Option None \<Rightarrow> Inr (0, lengths)
      | _ \<Rightarrow> Inl (EncodeError_new MESSAGE_NON_OPTIONAL))"
| "message_repeated_length W encoder value lengths =
     (case value of
        Val_List items \<Rightarrow> message_items_length W encoder 0 items 0 lengths
      | _ \<Rightarrow> Inl (EncodeError_new REPEATED_NON_LIST))"
| "message_items_length W encoder index [] tot lengths = Inr (tot, lengths)"
| "message_items_length W encoder index (value # items) tot lengths =
     ebind (emap_err (EncodeError_with_index index) (message_inner_length W encoder value lengths))
       (\<lambda>(sublength, lengths).
          message_items_length W encoder (index + 1) items
            (saturating_add tot (saturating_add sublength
               (of_nat (encoded_len_varint W (enc_tag encoder) + encoded_len_varint W (ucast sublength))))) lengths)"
| "oneof_length W encoder value lengths =
     (case value of
        Val_Option (Some (Val_Variant name payload)) \<Rightarrow>
          (case map_of (subfields (enc_compound encoder)) name of
             Some sub \<Rightarrow>
               (case payload of
                  Some value \<Rightarrow>
                    emap_err (EncodeError_with_field name) (length_call W sub (Val_Option (Some value)) lengths)
                | None \<Rightarrow> Inl (EncodeError_with_field name (EncodeError_new ONEOF_VARIANT_NO_PAYLOAD)))
           | None \<Rightarrow> Inl (EncodeError_with_field name (EncodeError_new ONEOF_VARIANT_UNRECOGNIZED)))
      | Val_Option (Some _) \<Rightarrow> Inl (EncodeError_new ONEOF_NON_VARIANT)
      | Val_Option None \<Rightarrow> Inr (0, lengths)
      | _ \<Rightarrow> Inl (EncodeError_new ONEOF_NON_OPTIONAL))"
  by pat_completeness auto
termination
  by (relation "measure (\<lambda>x. case x of
        Inl (Inl (W, e, v, ls)) \<Rightarrow> 2 * size v + 1
      | Inl (Inr (Inl (W, e, v, ls))) \<Rightarrow> 2 * size v
      | Inl (Inr (Inr (W, e, fl, tot, ls))) \<Rightarrow> 2 * size (Val_Record fl) - 1
      | Inr (Inl (Inl (W, e, v, ls))) \<Rightarrow> 2 * size v
      | Inr (Inl (Inr (W, e, v, ls))) \<Rightarrow> 2 * size v
      | Inr (Inr (Inl (W, e, i, vs, tot, ls))) \<Rightarrow> 2 * size (Val_List vs) - 1
      | Inr (Inr (Inr (W, e, v, ls))) \<Rightarrow> 2 * size v)") auto

declare length_call.simps [simp del] message_inner_length.simps [simp del] message_outer_length.simps [simp del]
  message_repeated_length.simps [simp del] oneof_length.simps [simp del]

section \<open>The response encoder\<close>

text \<open>
  The two passes over a response. The first component of the result is what is left of the pre-computed
  lengths, which debug builds assert to be empty; the second is what was written to \<^verbatim>\<open>dst\<close>.
\<close>

definition ResponseEncoder_encode :: "wire_lib \<Rightarrow> encoder \<Rightarrow> val \<Rightarrow> encode_result" where
  "ResponseEncoder_encode W inner item =
     ebind (length_call W inner item []) (\<lambda>(len, lengths). encode_call W inner item lengths [])"

end
