(* ===== verification/Encode_Spec.thy ===== *)
theory Encode_Spec
  imports Scalar_Spec Encode_Compound
begin

text \<open>
  The Protobuf wire format of a component value as a one-pass reference function \<open>wire_bytes\<close>, and the
  relation of the two-pass encoder to it: compiled encoders are well-formed (the union is always read
  through the member that was written), the encoder produces exactly the reference bytes of every
  supported value and uses up the pre-computed lengths, and no value that contains an item of a repeated
  message or an explicit enumeration is ever encoded.
\<close>

section \<open>Compiled encoders\<close>

fun fn_member :: "codec_fn \<Rightarrow> compound_encoder \<Rightarrow> bool" where
  "fn_member (Fn_scalar k p) c = (c = Scalar_placeholder)"
| "fn_member Fn_message_inner c = (\<exists>m. c = Subfields m)"
| "fn_member Fn_message_outer c = (\<exists>m. c = Subfields m)"
| "fn_member Fn_message_repeated c = (\<exists>m. c = Subfields m)"
| "fn_member Fn_oneof c = (\<exists>m. c = Subfields m)"
| "fn_member Fn_enum_implicit c = (\<exists>m. c = Variants m)"
| "fn_member Fn_enum_packed c = (\<exists>m. c = Variants m)"
| "fn_member Fn_enum_explicit c = (\<exists>m. c = Variants m)"
| "fn_member Fn_enum_expanded c = (\<exists>m. c = Variants m)"

definition explicit_fn :: "codec_fn \<Rightarrow> bool" where
  "explicit_fn f \<longleftrightarrow> (\<exists>k. f = Fn_scalar k Explicit) \<or> f = Fn_message_outer \<or> f = Fn_enum_explicit"

text \<open>
  Both pointers name functions of the same type, the union holds the member these functions read, the
  variants of a oneof use explicit presence, and all of this holds of every encoder below.
\<close>

fun encoder_wf :: "encoder \<Rightarrow> bool" and compound_wf :: "compound_encoder \<Rightarrow> bool" where
  "encoder_wf (Encoder f g t c) \<longleftrightarrow>
     f = g \<and> fn_member f c \<and> compound_wf c
     \<and> (f = Fn_oneof \<longrightarrow> (\<forall>p \<in> set (subfields c). explicit_fn (enc_encode (snd p))))"
| "compound_wf (Subfields m) \<longleftrightarrow> (\<forall>p \<in> set m. encoder_wf (snd p))"
| "compound_wf (Variants m) \<longleftrightarrow> True"
| "compound_wf Scalar_placeholder \<longleftrightarrow> True"

lemma encoder_wf_subfield:
  "encoder_wf e \<Longrightarrow> map_of (subfields (enc_compound e)) n = Some s \<Longrightarrow> encoder_wf s"
  by (cases e; cases "enc_compound e") (auto dest!: map_of_SomeD)

lemma encoder_wf_fns: "encoder_wf e \<Longrightarrow> enc_length e = enc_encode e"
  by (cases e) simp

lemma Encoder_scalar_wf:
  "encoder_wf (Encoder_scalar sc n)" "enc_encode (Encoder_scalar (ScalarCoding k p) n) = Fn_scalar k p"
  by (cases sc) (simp_all add: Encoder_scalar_def)

lemmas Encoder_defs = Encoder_message_inner_def Encoder_message_outer_def Encoder_message_repeated_def
  Encoder_oneof_def Encoder_enum_implicit_def Encoder_enum_packed_def Encoder_enum_explicit_def
  Encoder_enum_expanded_def

lemma compile_wf_induct:
  "compile_compound f b = Inr m \<Longrightarrow> \<forall>p \<in> set m. encoder_wf (snd p) \<and> (b \<longrightarrow> explicit_fn (enc_encode (snd p)))"
  "compile_loop b fs acc = Inr m \<Longrightarrow>
     \<forall>p \<in> set acc. encoder_wf (snd p) \<and> (b \<longrightarrow> explicit_fn (enc_encode (snd p))) \<Longrightarrow>
     \<forall>p \<in> set m. encoder_wf (snd p) \<and> (b \<longrightarrow> explicit_fn (enc_encode (snd p)))"
  "compile_subfield b s = Inr e \<Longrightarrow> encoder_wf e \<and> (b \<longrightarrow> explicit_fn (enc_encode e))"
proof (induction f b and b fs acc and b s arbitrary: m and m and e
    rule: compile_compound_compile_loop_compile_subfield.induct)
  case (1 number name subs coding is_oneof)
  then show ?case by simp
next
  case (2 is_oneof acc)
  then show ?case by simp
next
  case (3 is_oneof subfield rest acc)
  then show ?case by (fastforce simp: ebind_Inr_iff)
next
  case (4 b s)
  show ?case
  proof (cases "field_coding s")
    case None
    with 4 show ?thesis by simp
  next
    case (Some c)
    show ?thesis
    proof (cases c)
      case (Scalar_coding n)
      with 4 Some obtain sc where sc: "scalar_coding_try_from n = Some sc" "b \<longrightarrow> explicit_scalar n"
          "e = Encoder_scalar sc (field_number s)"
        by (auto split: if_splits option.splits)
      then show ?thesis using explicit_scalar_iff [of n]
        by (cases sc) (auto simp: Encoder_scalar_wf explicit_fn_def)
    next
      case (Compound_coding n)
      with Some "4.prems" obtain cc where cc: "compound_coding_try_from n = Some cc"
        by (auto split: if_splits option.splits)
      then have b: "b \<Longrightarrow> cc = Message \<or> cc = EnumExplicit"
        using Some Compound_coding "4.prems" by (auto simp: compound_coding_try_from_def split: if_splits)
      have n: "\<not> (b \<and> n \<noteq> 6 \<and> n \<noteq> 2)" using Some Compound_coding "4.prems" by (auto split: if_splits)
      note IH = "4.IH" [OF Some Compound_coding n cc]
      show ?thesis
        using Some Compound_coding cc n b "4.prems" IH
        by (cases cc) (auto simp: ebind_Inr_iff Encoder_defs explicit_fn_def)
    qed
  qed
qed

section \<open>The wire format\<close>

fun enum_ok :: "encoder \<Rightarrow> val \<Rightarrow> bool" where
  "enum_ok e v = (case v of Val_Enum n \<Rightarrow> map_of (variants (enc_compound e)) n \<noteq> None | _ \<Rightarrow> False)"

fun enum_number :: "encoder \<Rightarrow> val \<Rightarrow> u32" where
  "enum_number e (Val_Enum n) = the (map_of (variants (enc_compound e)) n)"
| "enum_number e _ = 0"

definition enum_payload :: "wire_lib \<Rightarrow> encoder \<Rightarrow> val \<Rightarrow> bytes" where
  "enum_payload W e v = encode_varint W (ucast (enum_number e v))"

definition enum_default :: "encoder \<Rightarrow> val \<Rightarrow> bool" where
  "enum_default e v \<longleftrightarrow> enum_number e v = 0"

definition opt_append :: "bytes option \<Rightarrow> bytes option \<Rightarrow> bytes option" where
  "opt_append a b = (case a of None \<Rightarrow> None | Some x \<Rightarrow> map_option (append x) b)"

lemma opt_append_Some: "opt_append a b = Some z \<longleftrightarrow> (\<exists>x y. a = Some x \<and> b = Some y \<and> z = x @ y)"
  by (auto simp: opt_append_def split: option.splits)

definition present_opt ::
    "wire_lib \<Rightarrow> (val \<Rightarrow> bool) \<Rightarrow> (val \<Rightarrow> bytes) \<Rightarrow> (val \<Rightarrow> bool) \<Rightarrow> presence \<Rightarrow> u64 \<Rightarrow> val \<Rightarrow> bytes option" where
  "present_opt W okv pay dflt p t v =
     (if present_ok okv p v then Some (present_bytes W pay dflt p t v) else None)"

text \<open>
  \<open>wire_bytes W e v\<close> is the field \<open>e\<close> with value \<open>v\<close>, or \<^const>\<open>None\<close> when \<open>v\<close> does not have the type that \<open>e\<close>
  encodes; \<open>wire_message\<close> is the contents of a message, \<open>wire_items\<close> the items of a repeated message.
\<close>

function (sequential) wire_bytes :: "wire_lib \<Rightarrow> encoder \<Rightarrow> val \<Rightarrow> bytes option"
  and wire_message :: "wire_lib \<Rightarrow> encoder \<Rightarrow> val \<Rightarrow> bytes option"
  and wire_fields :: "wire_lib \<Rightarrow> encoder \<Rightarrow> (string \<times> val) list \<Rightarrow> bytes option"
  and wire_items :: "wire_lib \<Rightarrow> encoder \<Rightarrow> val list \<Rightarrow> bytes option" where
  "wire_bytes W e v =
     (case enc_encode e of
        Fn_scalar k p \<Rightarrow> present_opt W (payload_ok k) (payload W k) (payload_default k) p (enc_tag e) v
      | Fn_enum_implicit \<Rightarrow> present_opt W (enum_ok e) (enum_payload W e) (enum_default e) Implicit (enc_tag e) v
      | Fn_enum_packed \<Rightarrow> present_opt W (enum_ok e) (enum_payload W e) (enum_default e) Packed (enc_tag e) v
      | Fn_enum_explicit \<Rightarrow> present_opt W (enum_ok e) (enum_payload W e) (enum_default e) Explicit (enc_tag e) v
      | Fn_enum_expanded \<Rightarrow> present_opt W (enum_ok e) (enum_payload W e) (enum_default e) Expanded (enc_tag e) v
      | Fn_message_inner \<Rightarrow> wire_message W e v
      | Fn_message_outer \<Rightarrow>
          (case v of
             Val_Option None \<Rightarrow> Some []
           | Val_Option (Some x) \<Rightarrow>
               map_option (\<lambda>b. encode_varint W (enc_tag e) @ delimited W b) (wire_message W e x)
           | _ \<Rightarrow> None)
      | Fn_message_repeated \<Rightarrow> (case v of Val_List xs \<Rightarrow> wire_items W e xs | _ \<Rightarrow> None)
      | Fn_oneof \<Rightarrow>
          (case v of
             Val_Option None \<Rightarrow> Some []
           | Val_Option (Some (Val_Variant n (Some x))) \<Rightarrow>
               (case map_of (subfields (enc_compound e)) n of
                  None \<Rightarrow> None
                | Some s \<Rightarrow> wire_bytes W s (Val_Option (Some x)))
           | _ \<Rightarrow> None))"
| "wire_message W e v = (case v of Val_Record fl \<Rightarrow> wire_fields W e fl | _ \<Rightarrow> None)"
| "wire_fields W e [] = Some []"
| "wire_fields W e ((n, v) # fl) =
     (case map_of (subfields (enc_compound e)) n of
        None \<Rightarrow> None
      | Some s \<Rightarrow> opt_append (wire_bytes W s v) (wire_fields W e fl))"
| "wire_items W e [] = Some []"
| "wire_items W e (x # xs) =
     opt_append (map_option (\<lambda>b. encode_varint W (enc_tag e) @ delimited W b) (wire_message W e x))
       (wire_items W e xs)"
  by pat_completeness auto
termination
  by (relation "measure (\<lambda>x. case x of
        Inl (Inl (W, e, v)) \<Rightarrow> 2 * size v + 1
      | Inl (Inr (W, e, v)) \<Rightarrow> 2 * size v
      | Inr (Inl (W, e, fl)) \<Rightarrow> 2 * size (Val_Record fl) - 1
      | Inr (Inr (W, e, xs)) \<Rightarrow> 2 * size (Val_List xs) - 1)") auto

declare wire_bytes.simps [simp del] wire_message.simps [simp del]

text \<open>
  How many items of repeated messages and optional values at explicit enumerations the encoder meets in a
  value. A value is supported when there are none.
\<close>

function (sequential) unsupported :: "encoder \<Rightarrow> val \<Rightarrow> nat"
  and unsupported_message :: "encoder \<Rightarrow> val \<Rightarrow> nat"
  and unsupported_fields :: "encoder \<Rightarrow> (string \<times> val) list \<Rightarrow> nat"
  and unsupported_items :: "encoder \<Rightarrow> val list \<Rightarrow> nat" where
  "unsupported e v =
     (case enc_encode e of
        Fn_message_inner \<Rightarrow> unsupported_message e v
      | Fn_message_outer \<Rightarrow> (case v of Val_Option (Some x) \<Rightarrow> unsupported_message e x | _ \<Rightarrow> 0)
      | Fn_message_repeated \<Rightarrow> (case v of Val_List xs \<Rightarrow> length xs + unsupported_items e xs | _ \<Rightarrow> 0)
      | Fn_oneof \<Rightarrow>
          (case v of
             Val_Option (Some (Val_Variant n (Some x))) \<Rightarrow>
               (case map_of (subfields (enc_compound e)) n of
                  None \<Rightarrow> 0
                | Some s \<Rightarrow> unsupported s (Val_Option (Some x)))
           | _ \<Rightarrow> 0)
      | Fn_enum_explicit \<Rightarrow> (case v of Val_Option _ \<Rightarrow> 1 | _ \<Rightarrow> 0)
      | _ \<Rightarrow> 0)"
| "unsupported_message e v = (case v of Val_Record fl \<Rightarrow> unsupported_fields e fl | _ \<Rightarrow> 0)"
| "unsupported_fields e [] = 0"
| "unsupported_fields e ((n, v) # fl) =
     (case map_of (subfields (enc_compound e)) n of None \<Rightarrow> 0 | Some s \<Rightarrow> unsupported s v) + unsupported_fields e fl"
| "unsupported_items e [] = 0"
| "unsupported_items e (x # xs) = unsupported_message e x + unsupported_items e xs"
  by pat_completeness auto
termination
  by (relation "measure (\<lambda>x. case x of
        Inl (Inl (e, v)) \<Rightarrow> 2 * size v + 1
      | Inl (Inr (e, v)) \<Rightarrow> 2 * size v
      | Inr (Inl (e, fl)) \<Rightarrow> 2 * size (Val_Record fl) - 1
      | Inr (Inr (e, xs)) \<Rightarrow> 2 * size (Val_List xs) - 1)") auto

declare unsupported.simps [simp del] unsupported_message.simps [simp del]

text \<open>The lengths that the first pass leaves for the second, in the order they are popped.\<close>

function (sequential) stack :: "wire_lib \<Rightarrow> encoder \<Rightarrow> val \<Rightarrow> u32 list"
  and stack_message :: "wire_lib \<Rightarrow> encoder \<Rightarrow> val \<Rightarrow> u32 list"
  and stack_fields :: "wire_lib \<Rightarrow> encoder \<Rightarrow> (string \<times> val) list \<Rightarrow> u32 list" where
  "stack W e v =
     (case enc_encode e of
        Fn_scalar k p \<Rightarrow> present_stack (payload W k) p v
      | Fn_enum_packed \<Rightarrow> present_stack (enum_payload W e) Packed v
      | Fn_message_inner \<Rightarrow> stack_message W e v
      | Fn_message_outer \<Rightarrow>
          (case v of
             Val_Option (Some x) \<Rightarrow> of_nat (length (the (wire_message W e x))) # stack_message W e x
           | _ \<Rightarrow> [])
      | Fn_oneof \<Rightarrow>
          (case v of
             Val_Option (Some (Val_Variant n (Some x))) \<Rightarrow>
               (case map_of (subfields (enc_compound e)) n of
                  None \<Rightarrow> []
                | Some s \<Rightarrow> stack W s (Val_Option (Some x)))
           | _ \<Rightarrow> [])
      | _ \<Rightarrow> [])"
| "stack_message W e v = (case v of Val_Record fl \<Rightarrow> stack_fields W e fl | _ \<Rightarrow> [])"
| "stack_fields W e [] = []"
| "stack_fields W e ((n, v) # fl) =
     (case map_of (subfields (enc_compound e)) n of None \<Rightarrow> [] | Some s \<Rightarrow> stack W s v) @ stack_fields W e fl"
  by pat_completeness auto
termination
  by (relation "measure (\<lambda>x. case x of
        Inl (W, e, v) \<Rightarrow> 2 * size v + 1
      | Inr (Inl (W, e, v)) \<Rightarrow> 2 * size v
      | Inr (Inr (W, e, fl)) \<Rightarrow> 2 * size (Val_Record fl) - 1)") auto

declare stack.simps [simp del] stack_message.simps [simp del]

section \<open>Enumerations\<close>

lemma enum_okE: "enum_ok e v \<Longrightarrow> (\<And>n k. v = Val_Enum n \<Longrightarrow> map_of (variants (enc_compound e)) n = Some k \<Longrightarrow> thesis) \<Longrightarrow> thesis"
  by (cases v) auto

context wire
begin

lemma enum_packed_items_ok:
  "\<forall>x \<in> set xs. enum_ok e x \<Longrightarrow>
     enum_packed_items_encode W e i xs buf = Inr (buf @ concat (map (enum_payload W e) xs))"
  by (induction xs arbitrary: i buf) (auto elim!: enum_okE simp: enum_payload_def simp del: enum_ok.simps)

lemma enum_expanded_items_ok:
  "\<forall>x \<in> set xs. enum_ok e x \<Longrightarrow>
     enum_expanded_items_encode W e i xs buf
       = Inr (buf @ concat (map (\<lambda>x. encode_varint W (enc_tag e) @ enum_payload W e x) xs))"
  by (induction xs arbitrary: i buf) (auto elim!: enum_okE simp: enum_payload_def simp del: enum_ok.simps)

lemma enum_packed_items_len:
  "\<forall>x \<in> set xs. enum_ok e x \<Longrightarrow>
     enum_packed_items_length W e i xs (of_nat n) = Inr (of_nat (n + length (concat (map (enum_payload W e) xs))))"
proof (induction xs arbitrary: i n)
  case (Cons x xs)
  then obtain s k where x: "x = Val_Enum s" "map_of (variants (enc_compound e)) s = Some k"
    by (auto elim!: enum_okE simp del: enum_ok.simps)
  show ?case
    using Cons.IH [of "i + 1" "n + encoded_len_varint W (ucast k)"] Cons.prems x
    by (simp add: enum_payload_def length_encode add.assoc)
qed simp

lemma enum_expanded_items_len:
  "\<forall>x \<in> set xs. enum_ok e x \<Longrightarrow>
     n + length (concat (map (\<lambda>x. encode_varint W (enc_tag e) @ enum_payload W e x) xs)) < 2 ^ 32 - 1 \<Longrightarrow>
     enum_expanded_items_length W e i xs (of_nat n)
       = Inr (of_nat (n + length (concat (map (\<lambda>x. encode_varint W (enc_tag e) @ enum_payload W e x) xs))))"
proof (induction xs arbitrary: i n)
  case (Cons x xs)
  then obtain s k where x: "x = Val_Enum s" "map_of (variants (enc_compound e)) s = Some k"
    by (auto elim!: enum_okE simp del: enum_ok.simps)
  let ?m = "encoded_len_varint W (enc_tag e) + encoded_len_varint W (ucast k)"
  have "saturating_add (of_nat n) (of_nat ?m) = of_nat (n + ?m)"
    using Cons.prems(2) x by (intro sat_of_nat) (simp add: enum_payload_def length_encode)
  moreover have "enum_expanded_items_length W e (i + 1) xs (of_nat (n + ?m))
      = Inr (of_nat (n + ?m + length (concat (map (\<lambda>x. encode_varint W (enc_tag e) @ enum_payload W e x) xs))))"
    using Cons.prems x by (intro Cons.IH) (simp_all add: enum_payload_def length_encode)
  ultimately show ?case
    using x by (simp add: enum_payload_def length_encode ac_simps)
qed simp

lemma enum_implicit_ok:
  assumes "present_opt W (enum_ok e) (enum_payload W e) (enum_default e) Implicit (enc_tag e) v = Some bs"
    and "length bs < 2 ^ 32 - 1"
  shows "enum_implicit_length W e v ls = Inr (of_nat (length bs), ls)"
    "enum_implicit_encode W e v ls buf = Inr (ls, buf @ bs)"
  using assms
  by (auto elim!: enum_okE simp: present_opt_def enum_implicit_length_def enum_implicit_encode_def enum_payload_def
      enum_default_def length_encode simp del: enum_ok.simps split: if_splits)

lemma enum_expanded_ok:
  assumes "present_opt W (enum_ok e) (enum_payload W e) (enum_default e) Expanded (enc_tag e) v = Some bs"
    and "length bs < 2 ^ 32 - 1"
  shows "enum_expanded_length W e v ls = Inr (of_nat (length bs), ls)"
    "enum_expanded_encode W e v ls buf = Inr (ls, buf @ bs)"
  using assms enum_expanded_items_len [of _ e 0] enum_expanded_items_ok [of _ e]
  by (auto simp: present_opt_def enum_expanded_length_def enum_expanded_encode_def
      simp del: enum_ok.simps split: if_splits val.splits)

lemma enum_packed_ok:
  assumes "present_opt W (enum_ok e) (enum_payload W e) (enum_default e) Packed (enc_tag e) v = Some bs"
    and "length bs < 2 ^ 32 - 1"
  shows "enum_packed_length W e v ls = Inr (of_nat (length bs), present_stack (enum_payload W e) Packed v @ ls)"
    "enum_packed_encode W e v (present_stack (enum_payload W e) Packed v @ ls) buf = Inr (ls, buf @ bs)"
proof -
  from assms obtain xs where v: "v = Val_List xs" and ok: "\<forall>x \<in> set xs. enum_ok e x"
    and bs: "bs = present_bytes W (enum_payload W e) (enum_default e) Packed (enc_tag e) (Val_List xs)"
    by (auto simp: present_opt_def simp del: enum_ok.simps split: if_splits val.splits)
  let ?b = "concat (map (enum_payload W e) xs)"
  have u: "xs \<noteq> [] \<Longrightarrow> (ucast (of_nat (length ?b) :: u32) :: u64) = of_nat (length ?b)"
    using assms(2) unfolding bs present_Packed by (intro ucast_of_nat_u32) (simp add: delimited_def)
  have t: "enum_packed_items_length W e 0 xs 0 = Inr (of_nat (length ?b))"
    using enum_packed_items_len [OF ok, of 0 0] by simp
  show "enum_packed_length W e v ls = Inr (of_nat (length bs), present_stack (enum_payload W e) Packed v @ ls)"
    unfolding v bs present_Packed
    by (cases "xs = []") (simp_all only: enum_packed_length_def getter_iff list_get.simps option.case t ebind.simps u
        simp_thms if_True if_False length_append delimited_def length_encode, simp_all add: ac_simps)
  show "enum_packed_encode W e v (present_stack (enum_payload W e) Packed v @ ls) buf = Inr (ls, buf @ bs)"
    unfolding v bs present_Packed using u enum_packed_items_ok [OF ok, of 0]
    by (cases "xs = []") (simp_all add: enum_packed_encode_def delimited_def)
qed

end

section \<open>The encoder produces the wire format\<close>

lemma message_fields_length_append:
  "message_fields_length W e (a @ b) t ls =
     ebind (message_fields_length W e a t ls) (\<lambda>(t, ls). message_fields_length W e b t ls)"
proof (induction a arbitrary: t ls)
  case (Cons p a)
  obtain n v where p: "p = (n, v)" by fastforce
  show ?case
  proof (cases "map_of (subfields (enc_compound e)) n")
    case (Some s)
    then show ?thesis
      using Cons by (cases "length_call W s v ls") (auto simp: p)
  qed (simp add: p)
qed simp

definition encodes_as :: "wire_lib \<Rightarrow> encoder \<Rightarrow> val \<Rightarrow> bytes \<Rightarrow> bool" where
  "encodes_as W e v bs \<longleftrightarrow>
     (\<forall>ls. length_call W e v ls = Inr (of_nat (length bs), stack W e v @ ls))
     \<and> (\<forall>ls buf. encode_call W e v (stack W e v @ ls) buf = Inr (ls, buf @ bs))"

definition message_encodes_as :: "wire_lib \<Rightarrow> encoder \<Rightarrow> val \<Rightarrow> bytes \<Rightarrow> bool" where
  "message_encodes_as W e v bs \<longleftrightarrow>
     (\<forall>ls. message_inner_length W e v ls = Inr (of_nat (length bs), stack_message W e v @ ls))
     \<and> (\<forall>ls buf. message_inner_encode W e v (stack_message W e v @ ls) buf = Inr (ls, buf @ bs))"

definition fields_encode_as :: "wire_lib \<Rightarrow> encoder \<Rightarrow> (string \<times> val) list \<Rightarrow> bytes \<Rightarrow> bool" where
  "fields_encode_as W e fl bs \<longleftrightarrow>
     (\<forall>n ls. n + length bs < 2 ^ 32 - 1 \<longrightarrow>
        message_fields_length W e (rev fl) (of_nat n) ls = Inr (of_nat (n + length bs), stack_fields W e fl @ ls))
     \<and> (\<forall>ls buf. message_fields_encode W e fl (stack_fields W e fl @ ls) buf = Inr (ls, buf @ bs))"

context wire
begin

lemma outer_encodes_as:
  assumes "message_encodes_as W e x b" "wire_message W e x = Some b" "enc_encode e = Fn_message_outer" "encoder_wf e"
    and "length (encode_varint W (enc_tag e) @ delimited W b) < 2 ^ 32 - 1"
  shows "encodes_as W e (Val_Option (Some x)) (encode_varint W (enc_tag e) @ delimited W b)"
proof -
  let ?t = "enc_tag e" and ?m = "of_nat (length b) :: u64"
  have lt: "length b + (encoded_len_varint W ?t + encoded_len_varint W ?m) < 2 ^ 32 - 1"
    using assms(5) by (simp add: delimited_def length_encode)
  have u: "(ucast (of_nat (length b) :: u32) :: u64) = ?m"
    using lt by (intro ucast_of_nat_u32) simp
  show ?thesis
    using assms(1-4) sat_of_nat [OF lt] encoder_wf_fns [OF assms(4)]
    by (simp add: encodes_as_def message_encodes_as_def length_call.simps [of W e] encode_call.simps [of W e]
        message_outer_length.simps message_outer_encode.simps stack.simps [of W e] u delimited_def length_encode
        ac_simps del: of_nat_add)
qed

lemma fields_encode_as_Cons:
  assumes "encodes_as W s v b" "fields_encode_as W e fl bs" "map_of (subfields (enc_compound e)) n = Some s"
  shows "fields_encode_as W e ((n, v) # fl) (b @ bs)"
proof -
  have "saturating_add (of_nat (k + length bs)) (of_nat (length b)) = of_nat (k + length (b @ bs))"
    if "k + length (b @ bs) < 2 ^ 32 - 1" for k
    using that sat_of_nat [of "k + length bs" "length b"] by (simp add: ac_simps)
  then show ?thesis
    using assms by (auto simp: fields_encode_as_def encodes_as_def message_fields_length_append simp del: of_nat_add)
qed

lemma leaf_encodes_as:
  assumes "wire_bytes W e v = Some bs" "length bs < 2 ^ 32 - 1" "encoder_wf e" "unsupported e v = 0"
    and "(\<exists>k p. enc_encode e = Fn_scalar k p)
      \<or> enc_encode e \<in> {Fn_enum_implicit, Fn_enum_packed, Fn_enum_explicit, Fn_enum_expanded}"
  shows "encodes_as W e v bs"
proof -
  note calls = encodes_as_def length_call.simps [of W e] encode_call.simps [of W e] stack.simps [of W e]
    encoder_wf_fns [OF assms(3)] wire_bytes.simps [of W e]
  consider k p where "enc_encode e = Fn_scalar k p" | "enc_encode e = Fn_enum_implicit"
    | "enc_encode e = Fn_enum_packed" | "enc_encode e = Fn_enum_explicit" | "enc_encode e = Fn_enum_expanded"
    using assms(5) by blast
  then show ?thesis
  proof cases
    case (1 k p)
    with assms scalar_length_ok [of k p v] scalar_encode_ok [of k p v] show ?thesis
      by (auto simp: calls present_opt_def split: if_splits)
  next
    case 2
    with assms show ?thesis by (simp add: calls enum_implicit_ok)
  next
    case 3
    with assms show ?thesis by (simp add: calls enum_packed_ok del: present_stack.simps)
  next
    case 4
    with assms show ?thesis
      by (auto simp: calls present_opt_def unsupported.simps split: if_splits val.splits)
  next
    case 5
    with assms show ?thesis by (simp add: calls enum_expanded_ok)
  qed
qed

lemma empty_encodes_as:
  assumes "encoder_wf e"
    and "enc_encode e \<in> {Fn_message_outer, Fn_oneof} \<and> v = Val_Option None \<or> enc_encode e = Fn_message_repeated \<and> v = Val_List []"
  shows "encodes_as W e v []"
  using assms encoder_wf_fns [OF assms(1)]
  by (auto simp: encodes_as_def length_call.simps encode_call.simps stack.simps message_outer_length.simps
      message_outer_encode.simps message_repeated_length.simps message_repeated_encode.simps oneof_length.simps
      oneof_encode.simps)

lemma inner_encodes_as:
  assumes "message_encodes_as W e v bs" "enc_encode e = Fn_message_inner" "encoder_wf e"
  shows "encodes_as W e v bs"
  using assms encoder_wf_fns [OF assms(3)]
  by (simp add: encodes_as_def message_encodes_as_def length_call.simps encode_call.simps stack.simps)

lemma oneof_encodes_as:
  assumes "encodes_as W s (Val_Option (Some x)) bs" "enc_encode e = Fn_oneof" "encoder_wf e"
    and "map_of (subfields (enc_compound e)) n = Some s"
  shows "encodes_as W e (Val_Option (Some (Val_Variant n (Some x)))) bs"
  using assms encoder_wf_fns [OF assms(3)]
  by (simp add: encodes_as_def length_call.simps [of W e] encode_call.simps [of W e] stack.simps [of W e]
      oneof_length.simps oneof_encode.simps)

end

lemma wire_bytes_encodes_as:
  shows "wire W \<Longrightarrow> encoder_wf e \<Longrightarrow> unsupported e v = 0 \<Longrightarrow> wire_bytes W e v = Some bs \<Longrightarrow>
      length bs < 2 ^ 32 - 1 \<Longrightarrow> encodes_as W e v bs"
    and "wire W \<Longrightarrow> encoder_wf e \<Longrightarrow> unsupported_message e v = 0 \<Longrightarrow> wire_message W e v = Some bs \<Longrightarrow>
      length bs < 2 ^ 32 - 1 \<Longrightarrow> message_encodes_as W e v bs"
    and "wire W \<Longrightarrow> encoder_wf e \<Longrightarrow> unsupported_fields e fl = 0 \<Longrightarrow> wire_fields W e fl = Some bs \<Longrightarrow>
      length bs < 2 ^ 32 - 1 \<Longrightarrow> fields_encode_as W e fl bs"
    and "wire_items W e xs = wire_items W e xs"
proof (induction W e v and W e v and W e fl and W e xs arbitrary: bs and bs and bs
    rule: wire_bytes_wire_message_wire_fields_wire_items.induct)
  case (1 W e v)
  note w = "1.prems"(1)
  show ?case
  proof (cases "enc_encode e")
    case Fn_message_inner
    with 1 have "message_encodes_as W e v bs" by (simp add: wire_bytes.simps unsupported.simps)
    then show ?thesis using Fn_message_inner "1.prems"(2) by (intro wire.inner_encodes_as [OF w])
  next
    case Fn_message_outer
    show ?thesis
    proof (cases "v = Val_Option None")
      case True
      with Fn_message_outer 1 show ?thesis by (auto simp: wire_bytes.simps intro: wire.empty_encodes_as)
    next
      case False
      with Fn_message_outer "1.prems"(4) obtain x b where v: "v = Val_Option (Some x)"
        and b: "wire_message W e x = Some b" and bs: "bs = encode_varint W (enc_tag e) @ delimited W b"
        by (auto simp: wire_bytes.simps split: val.splits option.splits)
      have "message_encodes_as W e x b"
        using 1 Fn_message_outer v b bs by (simp add: unsupported.simps delimited_def)
      then show ?thesis
        unfolding v bs using b Fn_message_outer "1.prems"(2,5) bs by (intro wire.outer_encodes_as [OF w]) simp_all
    qed
  next
    case Fn_message_repeated
    with "1.prems" show ?thesis
      by (auto simp: wire_bytes.simps unsupported.simps split: val.splits intro!: wire.empty_encodes_as)
  next
    case Fn_oneof
    show ?thesis
    proof (cases "v = Val_Option None")
      case True
      with Fn_oneof 1 show ?thesis by (auto simp: wire_bytes.simps intro: wire.empty_encodes_as)
    next
      case False
      with Fn_oneof "1.prems"(4) obtain n x s where v: "v = Val_Option (Some (Val_Variant n (Some x)))"
        and s: "map_of (subfields (enc_compound e)) n = Some s" and b: "wire_bytes W s (Val_Option (Some x)) = Some bs"
        by (auto simp: wire_bytes.simps [of W e] split: val.splits option.splits)
      have "encodes_as W s (Val_Option (Some x)) bs"
        using 1 Fn_oneof v s b encoder_wf_subfield by (fastforce simp: unsupported.simps [of e])
      then show ?thesis unfolding v using Fn_oneof "1.prems"(2) s by (intro wire.oneof_encodes_as [OF w])
    qed
  qed (use "1.prems" wire.leaf_encodes_as in blast)+
next
  case (2 W e v)
  then obtain fl where v: "v = Val_Record fl" and fl: "wire_fields W e fl = Some bs"
    by (auto simp: wire_message.simps split: val.splits)
  with 2 have "fields_encode_as W e fl bs" by (simp add: unsupported_message.simps)
  then show ?case
    using v "2.prems"(5)
    by (fastforce simp: fields_encode_as_def message_encodes_as_def message_inner_length.simps message_inner_encode.simps
        stack_message.simps dest: spec [where x = 0])
next
  case (3 W e)
  then show ?case by (simp add: fields_encode_as_def)
next
  case (4 W e n v fl)
  from "4.prems"(4) obtain s b b' where s: "map_of (subfields (enc_compound e)) n = Some s"
    and b: "wire_bytes W s v = Some b" "wire_fields W e fl = Some b'" "bs = b @ b'"
    by (auto simp: opt_append_Some split: option.splits)
  have "encodes_as W s v b"
    using 4 s b by (intro "4.IH"(1)) (auto dest: encoder_wf_subfield)
  moreover have "fields_encode_as W e fl b'"
    using 4 s b by (intro "4.IH"(2)) auto
  ultimately show ?case
    unfolding b(3) using s by (intro wire.fields_encode_as_Cons [OF "4.prems"(1)])
qed simp_all

section \<open>Pushes and pops\<close>

text \<open>
  Whatever the value, the second pass pops one length more than the first pass pushed for every item of
  a repeated message.
\<close>

lemma scalar_fns_balance:
  "scalar_length_fns W c p t v ls = Inr (n, ls1) \<Longrightarrow> scalar_encode_fns W c p t v ls2 buf = Inr (ls3, buf') \<Longrightarrow>
     length ls1 + length ls3 = length ls + length ls2"
  by (cases p)
    (auto simp: scalar_length_fns_def scalar_encode_fns_def implicit_length_def implicit_encode_def
      explicit_length_def explicit_encode_def packed_length_def packed_encode_def expanded_length_def
      expanded_encode_def ebind_Inr_iff
      split: if_splits option.splits list.splits scalar_length.splits)

lemma scalar_balance:
  "scalar_length W k p t v ls = Inr (n, ls1) \<Longrightarrow> scalar_encode W k p t v ls2 buf = Inr (ls3, buf') \<Longrightarrow>
     length ls1 + length ls3 = length ls + length ls2"
  unfolding scalar_length_def scalar_encode_def
  by (cases k) (simp_all only: scalar_kind.case scalar_fns_balance)

lemma enum_balance:
  "enum_implicit_length W e v ls = Inr (n, ls1) \<Longrightarrow> enum_implicit_encode W e v ls2 buf = Inr (ls3, buf') \<Longrightarrow>
     length ls1 + length ls3 = length ls + length ls2"
  "enum_expanded_length W e v ls = Inr (n, ls1) \<Longrightarrow> enum_expanded_encode W e v ls2 buf = Inr (ls3, buf') \<Longrightarrow>
     length ls1 + length ls3 = length ls + length ls2"
  "enum_packed_length W e v ls = Inr (n, ls1) \<Longrightarrow> enum_packed_encode W e v ls2 buf = Inr (ls3, buf') \<Longrightarrow>
     length ls1 + length ls3 = length ls + length ls2"
  "enum_explicit_length W e v ls = Inr (n, ls1) \<Longrightarrow> enum_explicit_encode W e v ls2 buf = Inr (ls3, buf') \<Longrightarrow>
     length ls1 + length ls3 + (case v of Val_Option _ \<Rightarrow> 1 | _ \<Rightarrow> 0) = length ls + length ls2"
  by (auto simp: enum_implicit_length_def enum_implicit_encode_def enum_expanded_length_def enum_expanded_encode_def
      enum_packed_length_def enum_packed_encode_def enum_explicit_length_def enum_explicit_encode_def ebind_Inr_iff
      split: val.splits option.splits if_splits list.splits)

lemma balance:
  shows "encoder_wf e \<Longrightarrow> length_call W e v ls = Inr (n, ls1) \<Longrightarrow> encode_call W e v ls2 buf = Inr (ls3, buf') \<Longrightarrow>
      length ls1 + length ls3 + unsupported e v = length ls + length ls2"
    and "encoder_wf e \<Longrightarrow> message_inner_length W e v ls = Inr (n, ls1) \<Longrightarrow>
      message_inner_encode W e v ls2 buf = Inr (ls3, buf') \<Longrightarrow>
      length ls1 + length ls3 + unsupported_message e v = length ls + length ls2"
    and "encoder_wf e \<Longrightarrow> message_fields_length W e (rev fl) t ls = Inr (n, ls1) \<Longrightarrow>
      message_fields_encode W e fl ls2 buf = Inr (ls3, buf') \<Longrightarrow>
      length ls1 + length ls3 + unsupported_fields e fl = length ls + length ls2"
    and "encoder_wf e \<Longrightarrow> message_items_length W e i xs t ls = Inr (n, ls1) \<Longrightarrow>
      message_items_encode W e j xs ls2 buf = Inr (ls3, buf') \<Longrightarrow>
      length ls1 + length ls3 + (length xs + unsupported_items e xs) = length ls + length ls2"
proof (induction e v and e v and e fl and e xs
    arbitrary: ls n ls1 ls2 buf ls3 buf' and ls n ls1 ls2 buf ls3 buf' and t ls n ls1 ls2 buf ls3 buf'
      and i t ls n ls1 j ls2 buf ls3 buf'
    rule: unsupported_unsupported_message_unsupported_fields_unsupported_items.induct)
  case (1 e v)
  note calls = length_call.simps [of W e] encode_call.simps [of W e] unsupported.simps [of e] encoder_wf_fns [OF "1.prems"(1)]
  show ?case
  proof (cases "enc_encode e")
    case (Fn_scalar k p)
    with "1.prems" show ?thesis by (auto simp: calls dest: scalar_balance)
  next
    case Fn_message_inner
    with 1 show ?thesis by (simp add: calls)
  next
    case Fn_message_outer
    with 1 show ?thesis
      by (fastforce simp: calls message_outer_length.simps message_outer_encode.simps ebind_Inr_iff
          split: val.splits option.splits list.splits)
  next
    case Fn_message_repeated
    with 1 show ?thesis
      by (auto simp: calls message_repeated_length.simps message_repeated_encode.simps split: val.splits)
  next
    case Fn_oneof
    with "1.prems" consider "v = Val_Option None"
      | m x s where "v = Val_Option (Some (Val_Variant m (Some x)))" "map_of (subfields (enc_compound e)) m = Some s"
      by (auto simp: calls oneof_length.simps split: val.splits option.splits)
    then show ?thesis
    proof cases
      case 1
      with "1.prems" Fn_oneof show ?thesis by (simp add: calls oneof_length.simps oneof_encode.simps)
    next
      case (2 m x s)
      with 1 Fn_oneof encoder_wf_subfield show ?thesis
        by (fastforce simp: calls oneof_length.simps oneof_encode.simps)
    qed
  qed (use "1.prems" enum_balance in \<open>auto simp: calls\<close>)
next
  case (2 e v)
  then show ?case
    by (auto simp: message_inner_length.simps message_inner_encode.simps unsupported_message.simps split: val.splits)
next
  case (3 e)
  then show ?case by simp
next
  case (4 e m v fl)
  from "4.prems"(2) obtain s where s: "map_of (subfields (enc_compound e)) m = Some s"
    by (auto simp: message_fields_length_append ebind_Inr_iff split: option.splits)
  from "4.prems"(2) s obtain t' la k where
    "message_fields_length W e (rev fl) t ls = Inr (t', la)" "length_call W s v la = Inr (k, ls1)"
    by (auto simp: message_fields_length_append ebind_Inr_iff)
  moreover from "4.prems"(3) s obtain lb bb where
    "encode_call W s v ls2 buf = Inr (lb, bb)" "message_fields_encode W e fl lb bb = Inr (ls3, buf')"
    by (auto simp: ebind_Inr_iff)
  ultimately show ?case
    using "4.IH"(1) [OF s encoder_wf_subfield [OF "4.prems"(1) s]] "4.IH"(2) [OF "4.prems"(1)] s by fastforce
next
  case (5 e)
  then show ?case by simp
next
  case (6 e x xs)
  from "6.prems"(2) obtain k la where
    a: "message_inner_length W e x ls = Inr (k, la)"
      "message_items_length W e (i + 1) xs (saturating_add t (saturating_add k
         (of_nat (encoded_len_varint W (enc_tag e) + encoded_len_varint W (ucast k))))) la = Inr (n, ls1)"
    by (auto simp: ebind_Inr_iff)
  from "6.prems"(3) obtain l l2 lb bb where
    b: "ls2 = l # l2"
      "message_inner_encode W e x l2 (buf @ encode_varint W (enc_tag e) @ encode_varint W (ucast l)) = Inr (lb, bb)"
      "message_items_encode W e (j + 1) xs lb bb = Inr (ls3, buf')"
    by (auto simp: ebind_Inr_iff split: list.splits)
  from "6.IH"(1) [OF "6.prems"(1) a(1) b(2)] "6.IH"(2) [OF "6.prems"(1) a(2) b(3)] b(1)
  show ?case by simp
qed

section \<open>Properties\<close>

lemma ResponseEncoder_new_wf: "ResponseEncoder_new f = Inr e \<Longrightarrow> encoder_wf e"
  using compile_wf_induct(1) [of f False]
  by (auto simp: ResponseEncoder_new_def ebind_Inr_iff Encoder_message_inner_def)

lemma ResponseEncoder_encode_ok:
  assumes "wire W" "ResponseEncoder_new response = Inr e" "wire_bytes W e v = Some bs"
    and "unsupported e v = 0" "length bs < 2 ^ 32 - 1"
  shows "ResponseEncoder_encode W e v = Inr ([], bs)"
proof -
  have "encodes_as W e v bs"
    using assms by (intro wire_bytes_encodes_as(1)) (auto intro: ResponseEncoder_new_wf)
  then have "length_call W e v [] = Inr (of_nat (length bs), stack W e v @ [])"
    and "encode_call W e v (stack W e v @ []) [] = Inr ([], [] @ bs)"
    unfolding encodes_as_def by blast+
  then show ?thesis by (simp add: ResponseEncoder_encode_def)
qed

definition sample_response :: field where
  "sample_response = Field 0 ''response''
     [Field 1 ''name'' [] (Some (Scalar_coding 4)),
      Field 2 ''tags'' [] (Some (Scalar_coding 21)),
      Field 3 ''child'' [Field 1 ''flag'' [] (Some (Scalar_coding 14))] (Some (Compound_coding 6)),
      Field 0 ''choice''
        [Field 4 ''num'' [] (Some (Scalar_coding 50)), Field 5 ''txt'' [] (Some (Scalar_coding 6))]
        (Some (Compound_coding 8)),
      Field 6 ''color'' [Field 0 ''red'' [] None, Field 1 ''green'' [] None] (Some (Compound_coding 0)),
      Field 7 ''kids'' [Field 1 ''age'' [] (Some (Scalar_coding 28))] (Some (Compound_coding 7))] None"

definition sample_value :: "val list \<Rightarrow> val" where
  "sample_value kids = Val_Record
     [(''name'', Val_String ''vimana''), (''tags'', Val_List [Val_S32 1, Val_S32 (- 2)]),
      (''child'', Val_Option (Some (Val_Record [(''flag'', Val_Option (Some (Val_Bool True)))]))),
      (''choice'', Val_Option (Some (Val_Variant ''num'' (Some (Val_U64 300))))),
      (''color'', Val_Enum ''green''), (''kids'', Val_List kids)]"

definition sample_encoder :: encoder where
  "sample_encoder = (case ResponseEncoder_new sample_response of Inr e \<Rightarrow> e | Inl _ \<Rightarrow> Encoder_oneof [])"

lemma sample_encoder_new: "ResponseEncoder_new sample_response = Inr sample_encoder"
  by code_simp

lemma sample_bytes:
  "wire_bytes leb_lib sample_encoder (sample_value [])
     = Some [10, 6, 118, 105, 109, 97, 110, 97, 18, 2, 2, 3, 26, 2, 8, 1, 32, 172, 2, 48, 1]"
  by code_simp

lemma sample_supported: "unsupported sample_encoder (sample_value []) = 0"
  "unsupported sample_encoder (sample_value [Val_Record [(''age'', Val_U32 7)]]) = 1"
  by code_simp+

lemmas sample_encode =
  ResponseEncoder_encode_ok [OF leb.wire_axioms sample_encoder_new sample_bytes sample_supported(1), simplified]



text \<open>
  A value with an item of a repeated message, or with an explicit enumeration represented as an
  option, is never encoded, whatever else it contains: the first pass pushes no length for the items that
  the second pass pops one for, and explicit enumerations are matched without their option.
\<close>

theorem unsupported_never_encoded:
  assumes "ResponseEncoder_new response = Inr e" "unsupported e v \<noteq> 0"
  shows "\<exists>error. ResponseEncoder_encode W e v = Inl error"
proof (cases "ResponseEncoder_encode W e v")
  case (Inr r)
  then obtain n ls1 ls3 buf where "length_call W e v [] = Inr (n, ls1)" "encode_call W e v ls1 [] = Inr (ls3, buf)"
    by (cases r) (auto simp: ResponseEncoder_encode_def ebind_Inr_iff)
  from balance(1) [OF ResponseEncoder_new_wf [OF assms(1)] this] assms(2) show ?thesis by simp
qed simp

theorem unsupported_never_encoded_witness:
  "\<exists>error. ResponseEncoder_encode leb_lib sample_encoder (sample_value [Val_Record [(''age'', Val_U32 7)]]) = Inl error"
  using unsupported_never_encoded [OF sample_encoder_new] sample_supported(2) by simp

text \<open>
  Whenever encoding succeeds, no pre-computed length is left over (the \<^verbatim>\<open>debug_assert!\<close> of
  \<open>ResponseEncoder_encode\<close> cannot fail after a success).
\<close>

theorem encode_uses_all_lengths:
  assumes "ResponseEncoder_new response = Inr e" "ResponseEncoder_encode W e v = Inr (lengths, bs)"
  shows "lengths = []"
proof -
  from assms(2) obtain n ls1 where "length_call W e v [] = Inr (n, ls1)" "encode_call W e v ls1 [] = Inr (lengths, bs)"
    by (auto simp: ResponseEncoder_encode_def ebind_Inr_iff)
  from balance(1) [OF ResponseEncoder_new_wf [OF assms(1)] this] show ?thesis by simp
qed

theorem encode_uses_all_lengths_witness:
  "\<exists>lengths bs. ResponseEncoder_encode leb_lib sample_encoder (sample_value []) = Inr (lengths, bs) \<and> lengths = []"
  using encode_uses_all_lengths [OF sample_encoder_new sample_encode] sample_encode by blast

end
