(* ===== verification/Decode_Scalar.thy ===== *)
theory Decode_Scalar
  imports Wire
begin

text \<open>
  Decoding of scalar fields (\<^verbatim>\<open>runtime/decode/scalar.rs\<close>) and the shared reading routines, errors and
  skipping of unknown fields of \<^verbatim>\<open>runtime/decode/lib.rs\<close>.

  The mutable \<^verbatim>\<open>limit\<close> and \<^verbatim>\<open>src\<close> are threaded through every function. Buffer reads that would panic
  do so in the model (\<^const>\<open>Panic\<close>). A \<^verbatim>\<open>while length > 0\<close> loop runs on fuel equal to the length, which is
  enough because every iteration consumes at least one byte of it.
\<close>

unbundle bit_operations_syntax

section \<open>Errors\<close>

datatype decode_message =
    BUFFER_UNDERFLOW | BUFFER_OVERFLOW | INVALID_TAG_VARINT | INVALID_LENGTH_VARINT | INVALID_VARINT
  | INVALID_FIELD_NUMBER | INVALID_WIRE_TYPE | WIRETYPE_NON_VARINT | WIRETYPE_NON_LENGTH_DELIMITED
  | WIRETYPE_NON_32BIT | WIRETYPE_NON_64BIT | OVERFLOW_32BIT | INVALID_UTF8 | INVALID_PERMISSIVE_STRING
  | INVALID_BOOL | ENUM_NO_DEFAULT | NON_EXPLICIT_ONEOF_VARIANT | DECODE_MESSAGE_NON_RECORD
  | FIELD_INDEX_OUT_OF_BOUNDS | DECODE_REPEATED_NON_LIST

fun decode_message_text :: "decode_message \<Rightarrow> string" where
  "decode_message_text BUFFER_UNDERFLOW = ''Buffer underflow''"
| "decode_message_text BUFFER_OVERFLOW = ''Buffer overflow''"
| "decode_message_text INVALID_TAG_VARINT = ''Invalid varint for tag''"
| "decode_message_text INVALID_LENGTH_VARINT = ''Invalid varint for length''"
| "decode_message_text INVALID_VARINT = ''Invalid varint''"
| "decode_message_text INVALID_FIELD_NUMBER = ''Invalid field number''"
| "decode_message_text INVALID_WIRE_TYPE = ''Invalid wire type''"
| "decode_message_text WIRETYPE_NON_VARINT = ''Wire type should be varint''"
| "decode_message_text WIRETYPE_NON_LENGTH_DELIMITED = ''Wire type should be length-delimited''"
| "decode_message_text WIRETYPE_NON_32BIT = ''Wire type should be 32-bit''"
| "decode_message_text WIRETYPE_NON_64BIT = ''Wire type should be 64-bit''"
| "decode_message_text OVERFLOW_32BIT = ''Overflowed 32 bits''"
| "decode_message_text INVALID_UTF8 = ''Invalid UTF-8''"
| "decode_message_text INVALID_PERMISSIVE_STRING = ''Invalid permissive string''"
| "decode_message_text INVALID_BOOL = ''Invalid boolean value''"
| "decode_message_text ENUM_NO_DEFAULT = ''Enum has no default value''"
| "decode_message_text NON_EXPLICIT_ONEOF_VARIANT = ''Oneof variant is not explicitly presence-tracked''"
| "decode_message_text DECODE_MESSAGE_NON_RECORD = ''Message is not a record''"
| "decode_message_text FIELD_INDEX_OUT_OF_BOUNDS = ''Field index out of bounds''"
| "decode_message_text DECODE_REPEATED_NON_LIST = ''Repeated value is not a list''"

datatype decode_level = DecodeLevel_Field u32 | DecodeLevel_Index nat

record decode_error =
  de_message :: decode_message
  de_traceback :: "decode_level list"

definition DecodeError_new :: "decode_message \<Rightarrow> decode_error" where
  "DecodeError_new message = \<lparr>de_message = message, de_traceback = []\<rparr>"

definition DecodeError_with_field :: "u32 \<Rightarrow> decode_error \<Rightarrow> decode_error" where
  "DecodeError_with_field number e = e\<lparr>de_traceback := de_traceback e @ [DecodeLevel_Field number]\<rparr>"

definition DecodeError_with_index :: "nat \<Rightarrow> decode_error \<Rightarrow> decode_error" where
  "DecodeError_with_index i e = e\<lparr>de_traceback := de_traceback e @ [DecodeLevel_Index i]\<rparr>"

fun decode_level_text :: "decode_level \<Rightarrow> string" where
  "decode_level_text (DecodeLevel_Field number) = CHR ''.'' # nat_decimal (unat number)"
| "decode_level_text (DecodeLevel_Index index) = CHR ''['' # nat_decimal index @ '']''"

definition format_decode_error_trace :: "decode_error \<Rightarrow> string" where
  "format_decode_error_trace e = concat (map decode_level_text (rev (de_traceback e)))"

definition DecodeError_display :: "decode_error \<Rightarrow> string" where
  "DecodeError_display e =
     ''Malformed request ('' @ format_decode_error_trace e @ ''): '' @ decode_message_text (de_message e)"

section \<open>Reading\<close>

definition read_varint ::
    "wire_lib \<Rightarrow> u32 \<Rightarrow> bytes \<Rightarrow> decode_message \<Rightarrow> (u64 \<times> u32 \<times> bytes, decode_error) outcome" where
  "read_varint W limit src error =
     (case decode_varint W src of
        None \<Rightarrow> Err (DecodeError_new error)
      | Some (varint, src) \<Rightarrow>
          let bytes_read = of_nat (encoded_len_varint W varint) in
          if bytes_read > limit then Err (DecodeError_new BUFFER_OVERFLOW)
          else Ok (varint, limit - bytes_read, src))"

text \<open>\<^verbatim>\<open>u32::try_from\<close> and \<^verbatim>\<open>i32::try_from\<close> of a \<^verbatim>\<open>u64\<close>.\<close>

definition u32_try_from :: "u64 \<Rightarrow> u32 option" where
  "u32_try_from n = (if uint n < 2 ^ 32 then Some (ucast n) else None)"

definition i32_try_from :: "u64 \<Rightarrow> i32 option" where
  "i32_try_from n = (if uint n < 2 ^ 31 then Some (ucast n) else None)"

definition decode_tag ::
    "wire_lib \<Rightarrow> u32 \<Rightarrow> bytes \<Rightarrow> (u32 \<times> wire_type \<times> u32 \<times> bytes, decode_error) outcome" where
  "decode_tag W limit src =
     obind (read_varint W limit src INVALID_TAG_VARINT) (\<lambda>(t, limit, src).
       case u32_try_from (drop_bit 3 t) of
         None \<Rightarrow> Err (DecodeError_new INVALID_FIELD_NUMBER)
       | Some number \<Rightarrow>
           let wire_type = (ucast t :: u8) AND 7 in
           if wire_type \<ge> 6
           then Err (DecodeError_with_field number (DecodeError_new INVALID_WIRE_TYPE))
           else Ok (number, wire_transmute wire_type, limit, src))"

definition read_length_check_overflow ::
    "wire_lib \<Rightarrow> u32 \<Rightarrow> bytes \<Rightarrow> (u32 \<times> u32 \<times> bytes, decode_error) outcome" where
  "read_length_check_overflow W limit src =
     obind (read_varint W limit src INVALID_LENGTH_VARINT) (\<lambda>(len, limit, src).
       case u32_try_from len of
         None \<Rightarrow> Err (DecodeError_new INVALID_LENGTH_VARINT)
       | Some len \<Rightarrow>
           if len > limit then Err (DecodeError_new BUFFER_OVERFLOW)
           else Ok (len, limit - len, src))"

definition advance_or_panic :: "wire_lib \<Rightarrow> nat \<Rightarrow> u32 \<Rightarrow> bytes \<Rightarrow> (u32 \<times> bytes, decode_error) outcome" where
  "advance_or_panic W n limit src = (case advance W n src of None \<Rightarrow> Panic | Some src \<Rightarrow> Ok (limit, src))"

definition skip :: "wire_lib \<Rightarrow> wire_type \<Rightarrow> u32 \<Rightarrow> bytes \<Rightarrow> (u32 \<times> bytes, decode_error) outcome" where
  "skip W wire_type limit src =
     (case wire_type of
        Varint \<Rightarrow> obind (read_varint W limit src INVALID_VARINT) (\<lambda>(_, limit, src). Ok (limit, src))
      | SixtyFourBit \<Rightarrow>
          if 8 > limit then Err (DecodeError_new BUFFER_OVERFLOW) else advance_or_panic W 8 (limit - 8) src
      | LengthDelimited \<Rightarrow>
          obind (read_length_check_overflow W limit src)
            (\<lambda>(len, limit, src). advance_or_panic W (unat len) limit src)
      | ThirtyTwoBit \<Rightarrow>
          if 4 > limit then Err (DecodeError_new BUFFER_OVERFLOW) else advance_or_panic W 4 (limit - 4) src
      | StartGroup \<Rightarrow> Ok (limit, src)
      | EndGroup \<Rightarrow> Ok (limit, src))"

section \<open>Inner decoders\<close>

type_synonym inner_result = "(val \<times> u32 \<times> bytes, decode_error) outcome"

fun read_bytes :: "wire_lib \<Rightarrow> nat \<Rightarrow> bytes \<Rightarrow> val list \<Rightarrow> (val list \<times> bytes, decode_error) outcome" where
  "read_bytes W 0 src acc = Ok (acc, src)"
| "read_bytes W (Suc n) src acc =
     (case get_u8 W src of None \<Rightarrow> Panic | Some (b, src) \<Rightarrow> read_bytes W n src (acc @ [Val_U8 b]))"

definition bytes_decode_inner :: "wire_lib \<Rightarrow> u32 \<Rightarrow> bytes \<Rightarrow> inner_result" where
  "bytes_decode_inner W limit src =
     obind (read_length_check_overflow W limit src) (\<lambda>(len, limit, src).
       obind (read_bytes W (unat len) src []) (\<lambda>(bs, src). Ok (Val_List bs, limit, src)))"

definition string_utf8_decode_inner :: "wire_lib \<Rightarrow> u32 \<Rightarrow> bytes \<Rightarrow> inner_result" where
  "string_utf8_decode_inner W limit src =
     obind (read_length_check_overflow W limit src) (\<lambda>(len, limit, src).
       let (s, src) = take_read W (unat len) src in
       if utf8_valid s then Ok (Val_String (from_bytes s), limit, src)
       else Err (DecodeError_new INVALID_UTF8))"

definition string_permissive_decode_inner :: "wire_lib \<Rightarrow> u32 \<Rightarrow> bytes \<Rightarrow> inner_result" where
  "string_permissive_decode_inner W limit src =
     obind (read_length_check_overflow W limit src) (\<lambda>(len, limit, src).
       let (s, src) = take_read W (unat len) src in Ok (Val_String (from_bytes s), limit, src))"

definition bool_decode_inner :: "wire_lib \<Rightarrow> u32 \<Rightarrow> bytes \<Rightarrow> inner_result" where
  "bool_decode_inner W limit src =
     (if limit \<ge> 1 then
        (case get_u8 W src of
           None \<Rightarrow> Panic
         | Some (byte, src) \<Rightarrow>
             if byte \<le> 1 then Ok (Val_Bool (byte \<noteq> 0), limit - 1, src)
             else Err (DecodeError_new INVALID_BOOL))
      else Err (DecodeError_new BUFFER_OVERFLOW))"

definition int32_decode_inner :: "wire_lib \<Rightarrow> u32 \<Rightarrow> bytes \<Rightarrow> inner_result" where
  "int32_decode_inner W limit src =
     obind (read_varint W limit src INVALID_VARINT) (\<lambda>(varint, limit, src).
       case i32_try_from varint of
         None \<Rightarrow> Err (DecodeError_new OVERFLOW_32BIT)
       | Some value \<Rightarrow> Ok (Val_S32 value, limit, src))"

definition sint32_decode_inner :: "wire_lib \<Rightarrow> u32 \<Rightarrow> bytes \<Rightarrow> inner_result" where
  "sint32_decode_inner W limit src =
     obind (read_varint W limit src INVALID_VARINT) (\<lambda>(varint, limit, src).
       case u32_try_from varint of
         None \<Rightarrow> Err (DecodeError_new OVERFLOW_32BIT)
       | Some value \<Rightarrow> Ok (Val_S32 (drop_bit 1 value XOR (- (value AND 1))), limit, src))"

definition uint32_decode_inner :: "wire_lib \<Rightarrow> u32 \<Rightarrow> bytes \<Rightarrow> inner_result" where
  "uint32_decode_inner W limit src =
     obind (read_varint W limit src INVALID_VARINT) (\<lambda>(varint, limit, src).
       case u32_try_from varint of
         None \<Rightarrow> Err (DecodeError_new OVERFLOW_32BIT)
       | Some value \<Rightarrow> Ok (Val_U32 value, limit, src))"

definition int64_decode_inner :: "wire_lib \<Rightarrow> u32 \<Rightarrow> bytes \<Rightarrow> inner_result" where
  "int64_decode_inner W limit src =
     obind (read_varint W limit src INVALID_VARINT) (\<lambda>(varint, limit, src). Ok (Val_S64 varint, limit, src))"

text \<open>Here \<^verbatim>\<open>value\<close> is an \<^verbatim>\<open>i64\<close>, so \<^verbatim>\<open>>> 1\<close> is an arithmetic shift.\<close>

definition sint64_decode_inner :: "wire_lib \<Rightarrow> u32 \<Rightarrow> bytes \<Rightarrow> inner_result" where
  "sint64_decode_inner W limit src =
     obind (read_varint W limit src INVALID_VARINT) (\<lambda>(value, limit, src).
       Ok (Val_S64 (signed_drop_bit 1 value XOR (- (value AND 1))), limit, src))"

definition uint64_decode_inner :: "wire_lib \<Rightarrow> u32 \<Rightarrow> bytes \<Rightarrow> inner_result" where
  "uint64_decode_inner W limit src =
     obind (read_varint W limit src INVALID_VARINT) (\<lambda>(value, limit, src). Ok (Val_U64 value, limit, src))"

text \<open>The four 32-bit and the four 64-bit fixed-width decoders differ in the constructor only.\<close>

definition fixed32_bits_decode :: "wire_lib \<Rightarrow> (u32 \<Rightarrow> val) \<Rightarrow> u32 \<Rightarrow> bytes \<Rightarrow> inner_result" where
  "fixed32_bits_decode W con limit src =
     (if limit \<ge> 4 then
        (case get_u32_le W src of None \<Rightarrow> Panic | Some (n, src) \<Rightarrow> Ok (con n, limit - 4, src))
      else Err (DecodeError_new BUFFER_UNDERFLOW))"

definition fixed64_bits_decode :: "wire_lib \<Rightarrow> (u64 \<Rightarrow> val) \<Rightarrow> u32 \<Rightarrow> bytes \<Rightarrow> inner_result" where
  "fixed64_bits_decode W con limit src =
     (if limit \<ge> 8 then
        (case get_u64_le W src of None \<Rightarrow> Panic | Some (n, src) \<Rightarrow> Ok (con n, limit - 8, src))
      else Err (DecodeError_new BUFFER_UNDERFLOW))"

definition sfixed32_decode_inner :: "wire_lib \<Rightarrow> u32 \<Rightarrow> bytes \<Rightarrow> inner_result" where
  "sfixed32_decode_inner W = fixed32_bits_decode W Val_S32"

definition fixed32_decode_inner :: "wire_lib \<Rightarrow> u32 \<Rightarrow> bytes \<Rightarrow> inner_result" where
  "fixed32_decode_inner W = fixed32_bits_decode W Val_U32"

definition sfixed64_decode_inner :: "wire_lib \<Rightarrow> u32 \<Rightarrow> bytes \<Rightarrow> inner_result" where
  "sfixed64_decode_inner W = fixed64_bits_decode W Val_S64"

definition fixed64_decode_inner :: "wire_lib \<Rightarrow> u32 \<Rightarrow> bytes \<Rightarrow> inner_result" where
  "fixed64_decode_inner W = fixed64_bits_decode W Val_U64"

definition float_decode_inner :: "wire_lib \<Rightarrow> u32 \<Rightarrow> bytes \<Rightarrow> inner_result" where
  "float_decode_inner W = fixed32_bits_decode W Val_Float32"

definition double_decode_inner :: "wire_lib \<Rightarrow> u32 \<Rightarrow> bytes \<Rightarrow> inner_result" where
  "double_decode_inner W = fixed64_bits_decode W Val_Float64"

fun decode_inner :: "wire_lib \<Rightarrow> scalar_kind \<Rightarrow> u32 \<Rightarrow> bytes \<Rightarrow> inner_result" where
  "decode_inner W Bytes = bytes_decode_inner W"
| "decode_inner W String_utf8 = string_utf8_decode_inner W"
| "decode_inner W String_permissive = string_permissive_decode_inner W"
| "decode_inner W Bool = bool_decode_inner W"
| "decode_inner W Int32 = int32_decode_inner W"
| "decode_inner W Sint32 = sint32_decode_inner W"
| "decode_inner W Sfixed32 = sfixed32_decode_inner W"
| "decode_inner W Uint32 = uint32_decode_inner W"
| "decode_inner W Fixed32 = fixed32_decode_inner W"
| "decode_inner W Int64 = int64_decode_inner W"
| "decode_inner W Sint64 = sint64_decode_inner W"
| "decode_inner W Sfixed64 = sfixed64_decode_inner W"
| "decode_inner W Uint64 = uint64_decode_inner W"
| "decode_inner W Fixed64 = fixed64_decode_inner W"
| "decode_inner W Float = float_decode_inner W"
| "decode_inner W Double = double_decode_inner W"

section \<open>Merge functions\<close>

text \<open>
  The arguments of \<^verbatim>\<open>stringy_mergers!\<close> and \<^verbatim>\<open>numeric_mergers!\<close>: the wire type and the error for others.
\<close>

fun stringy :: "scalar_kind \<Rightarrow> bool" where
  "stringy Bytes = True"
| "stringy String_utf8 = True"
| "stringy String_permissive = True"
| "stringy _ = False"

fun merger_wire_type :: "scalar_kind \<Rightarrow> wire_type \<times> decode_message" where
  "merger_wire_type Bytes = (LengthDelimited, WIRETYPE_NON_LENGTH_DELIMITED)"
| "merger_wire_type String_utf8 = (LengthDelimited, WIRETYPE_NON_LENGTH_DELIMITED)"
| "merger_wire_type String_permissive = (LengthDelimited, WIRETYPE_NON_LENGTH_DELIMITED)"
| "merger_wire_type Bool = (Varint, WIRETYPE_NON_VARINT)"
| "merger_wire_type Int32 = (Varint, WIRETYPE_NON_VARINT)"
| "merger_wire_type Sint32 = (Varint, WIRETYPE_NON_VARINT)"
| "merger_wire_type Sfixed32 = (ThirtyTwoBit, WIRETYPE_NON_32BIT)"
| "merger_wire_type Uint32 = (Varint, WIRETYPE_NON_VARINT)"
| "merger_wire_type Fixed32 = (ThirtyTwoBit, WIRETYPE_NON_32BIT)"
| "merger_wire_type Int64 = (Varint, WIRETYPE_NON_VARINT)"
| "merger_wire_type Sint64 = (Varint, WIRETYPE_NON_VARINT)"
| "merger_wire_type Sfixed64 = (SixtyFourBit, WIRETYPE_NON_64BIT)"
| "merger_wire_type Uint64 = (Varint, WIRETYPE_NON_VARINT)"
| "merger_wire_type Fixed64 = (SixtyFourBit, WIRETYPE_NON_64BIT)"
| "merger_wire_type Float = (ThirtyTwoBit, WIRETYPE_NON_32BIT)"
| "merger_wire_type Double = (SixtyFourBit, WIRETYPE_NON_64BIT)"

type_synonym merge_result = "(u32 \<times> bytes \<times> val, decode_error) outcome"

definition explicit_merge ::
    "(u32 \<Rightarrow> bytes \<Rightarrow> inner_result) \<Rightarrow> wire_type \<times> decode_message \<Rightarrow> wire_type \<Rightarrow> u32 \<Rightarrow> bytes \<Rightarrow> val \<Rightarrow> merge_result" where
  "explicit_merge inner wt wire_type limit src dst =
     (if wire_type = fst wt
      then obind (inner limit src) (\<lambda>(v, limit, src). Ok (limit, src, Val_Option (Some v)))
      else Err (DecodeError_new (snd wt)))"

definition implicit_merge ::
    "(u32 \<Rightarrow> bytes \<Rightarrow> inner_result) \<Rightarrow> wire_type \<times> decode_message \<Rightarrow> wire_type \<Rightarrow> u32 \<Rightarrow> bytes \<Rightarrow> val \<Rightarrow> merge_result" where
  "implicit_merge inner wt wire_type limit src dst =
     (if wire_type = fst wt
      then obind (inner limit src) (\<lambda>(v, limit, src). Ok (limit, src, v))
      else Err (DecodeError_new (snd wt)))"

definition stringy_repeated_merge ::
    "(u32 \<Rightarrow> bytes \<Rightarrow> inner_result) \<Rightarrow> wire_type \<Rightarrow> u32 \<Rightarrow> bytes \<Rightarrow> val \<Rightarrow> merge_result" where
  "stringy_repeated_merge inner wire_type limit src dst =
     (case dst of
        Val_List items \<Rightarrow>
          if wire_type = LengthDelimited
          then obind (omap_err (DecodeError_with_index (length items)) (inner limit src))
                 (\<lambda>(v, limit, src). Ok (limit, src, Val_List (items @ [v])))
          else Err (DecodeError_new WIRETYPE_NON_LENGTH_DELIMITED)
      | _ \<Rightarrow> Err (DecodeError_new DECODE_REPEATED_NON_LIST))"

fun packed_loop ::
    "(u32 \<Rightarrow> bytes \<Rightarrow> inner_result) \<Rightarrow> nat \<Rightarrow> u32 \<Rightarrow> bytes \<Rightarrow> val list \<Rightarrow> (val list \<times> bytes, decode_error) outcome" where
  "packed_loop inner 0 len src items = (if len > 0 then Out_of_fuel else Ok (items, src))"
| "packed_loop inner (Suc fuel) len src items =
     (if len > 0
      then obind (omap_err (DecodeError_with_index (length items)) (inner len src))
             (\<lambda>(v, len, src). packed_loop inner fuel len src (items @ [v]))
      else Ok (items, src))"

definition numeric_repeated_merge ::
    "wire_lib \<Rightarrow> (u32 \<Rightarrow> bytes \<Rightarrow> inner_result) \<Rightarrow> wire_type \<times> decode_message \<Rightarrow> wire_type \<Rightarrow> u32 \<Rightarrow> bytes \<Rightarrow> val \<Rightarrow> merge_result" where
  "numeric_repeated_merge W inner wt wire_type limit src dst =
     (case dst of
        Val_List items \<Rightarrow>
          if wire_type = LengthDelimited
          then obind (read_length_check_overflow W limit src) (\<lambda>(len, limit, src).
                 obind (packed_loop inner (unat len) len src items) (\<lambda>(items, src). Ok (limit, src, Val_List items)))
          else if wire_type = fst wt
          then obind (omap_err (DecodeError_with_index (length items)) (inner limit src))
                 (\<lambda>(v, limit, src). Ok (limit, src, Val_List (items @ [v])))
          else Err (DecodeError_new (snd wt))
      | _ \<Rightarrow> Err (DecodeError_new DECODE_REPEATED_NON_LIST))"

section \<open>The dispatch table\<close>

text \<open>Packed and expanded fields share one merge function, which accepts both.\<close>

datatype merge_shape = Merge_implicit | Merge_explicit | Merge_repeated

fun scalar_merge ::
    "wire_lib \<Rightarrow> scalar_kind \<Rightarrow> merge_shape \<Rightarrow> wire_type \<Rightarrow> u32 \<Rightarrow> bytes \<Rightarrow> val \<Rightarrow> merge_result" where
  "scalar_merge W k Merge_implicit = implicit_merge (decode_inner W k) (merger_wire_type k)"
| "scalar_merge W k Merge_explicit = explicit_merge (decode_inner W k) (merger_wire_type k)"
| "scalar_merge W k Merge_repeated =
     (if stringy k then stringy_repeated_merge (decode_inner W k)
      else numeric_repeated_merge W (decode_inner W k) (merger_wire_type k))"

fun implicit_default :: "scalar_kind \<Rightarrow> val" where
  "implicit_default Bytes = Val_List []"
| "implicit_default String_utf8 = Val_String []"
| "implicit_default String_permissive = Val_String []"
| "implicit_default Bool = Val_Bool False"
| "implicit_default Int32 = Val_S32 0"
| "implicit_default Sint32 = Val_S32 0"
| "implicit_default Sfixed32 = Val_S32 0"
| "implicit_default Uint32 = Val_U32 0"
| "implicit_default Fixed32 = Val_U32 0"
| "implicit_default Int64 = Val_S64 0"
| "implicit_default Sint64 = Val_S64 0"
| "implicit_default Sfixed64 = Val_S64 0"
| "implicit_default Uint64 = Val_U64 0"
| "implicit_default Fixed64 = Val_U64 0"
| "implicit_default Float = Val_Float32 0"
| "implicit_default Double = Val_Float64 0"

fun scalar_shape :: "presence \<Rightarrow> merge_shape" where
  "scalar_shape Implicit = Merge_implicit"
| "scalar_shape Packed = Merge_repeated"
| "scalar_shape Explicit = Merge_explicit"
| "scalar_shape Expanded = Merge_repeated"

fun scalar_default :: "scalar_kind \<Rightarrow> presence \<Rightarrow> val" where
  "scalar_default k Implicit = implicit_default k"
| "scalar_default k Packed = Val_List []"
| "scalar_default k Explicit = Val_Option None"
| "scalar_default k Expanded = Val_List []"

end
