(* ===== verification/Decode_Compound.thy ===== *)
theory Decode_Compound
  imports Decode_Scalar
begin

text \<open>
  Mergers for messages, oneofs and enumerations (\<^verbatim>\<open>runtime/decode/compound.rs\<close>) and the top-level
  \<^verbatim>\<open>RequestDecoder\<close> (\<^verbatim>\<open>runtime/decode/lib.rs\<close>).

  A \<open>merger\<close> is the record of the source with the merge function pointer as a name; \<open>merge_call\<close> calls it.
  The loop of \<open>message_inner_merge\<close> runs on fuel equal to its limit. Reading the union through the oneof
  member when another one was written (undefined behaviour) is modelled as a panic.
\<close>

section \<open>Mergers\<close>

datatype merge_fn =
    Merge_scalar scalar_kind merge_shape
  | Merge_message_inner | Merge_message_outer | Merge_message_repeated | Merge_oneof_variant
  | Merge_enum_explicit | Merge_enum_implicit | Merge_enum_repeated

datatype merger = Merger
  (mg_merge: merge_fn) (mg_defaults: "(string \<times> val) list") (mg_compound: compound_merger)
and compound_merger =
    Merger_subfields "(u32 \<times> u32 \<times> merger) list"
  | Merger_enum_variants "(u32 \<times> string) list"
  | Merger_oneof_variant string merger
  | Merger_scalar_placeholder

fun merger_subfields :: "compound_merger \<Rightarrow> (u32 \<times> u32 \<times> merger) list" where
  "merger_subfields (Merger_subfields m) = m"
| "merger_subfields _ = []"

fun enum_variants :: "compound_merger \<Rightarrow> (u32 \<times> string) list" where
  "enum_variants (Merger_enum_variants m) = m"
| "enum_variants _ = []"

fun oneof_variant :: "compound_merger \<Rightarrow> (string \<times> merger) option" where
  "oneof_variant (Merger_oneof_variant n m) = Some (n, m)"
| "oneof_variant _ = None"

definition Merger_scalar :: "scalar_coding \<Rightarrow> merger \<times> val" where
  "Merger_scalar c =
     (case c of ScalarCoding k p \<Rightarrow>
        (Merger (Merge_scalar k (scalar_shape p)) [] Merger_scalar_placeholder, scalar_default k p))"

fun merger_enum_loop :: "field list \<Rightarrow> (u32 \<times> string) list \<Rightarrow> (u32 \<times> string) list" where
  "merger_enum_loop [] m = m"
| "merger_enum_loop (s # ss) m = merger_enum_loop ss ((field_number s, field_name s) # m)"

definition merger_enum_variants :: "field \<Rightarrow> merge_fn \<Rightarrow> merger" where
  "merger_enum_variants enumeration f =
     Merger f [] (Merger_enum_variants (merger_enum_loop (field_subfields enumeration) []))"

datatype merger_error =
    Merger_missing_coding u32
  | Merger_invalid_scalar_coding u32 int
  | Merger_invalid_compound_coding u32 int
  | Merger_implicit_enum_default u32
  | Merger_variant_missing_coding
  | Merger_variant_explicit
  | Merger_variant_invalid_scalar int
  | Merger_variant_invalid_compound int
  | Context_invalid_message u32 merger_error
  | Context_expanded_message u32 merger_error
  | Context_oneof_variant u32 u32 merger_error
  | Context_request merger_error

text \<open>
  \<open>compile_message_field\<close> is the \<^verbatim>\<open>match\<close> on the coding of one subfield. For a oneof it returns \<^const>\<open>None\<close>: the
  loop then maps every variant's number to the index of the oneof and goes on with the next subfield.
\<close>

lemma size_field_subfields: "size_list size (field_subfields s) < size s"
  by (cases s) simp

function (sequential)
  compile_message :: "field \<Rightarrow> merge_fn \<Rightarrow> merger_error + merger"
  and compile_message_loop ::
    "nat \<Rightarrow> field list \<Rightarrow> (u32 \<times> u32 \<times> merger) list \<Rightarrow> (string \<times> val) list
      \<Rightarrow> merger_error + ((u32 \<times> u32 \<times> merger) list \<times> (string \<times> val) list)"
  and compile_message_field :: "field \<Rightarrow> merger_error + (merger \<times> val) option"
  and compile_oneof_loop ::
    "u32 \<Rightarrow> nat \<Rightarrow> field list \<Rightarrow> (u32 \<times> u32 \<times> merger) list \<Rightarrow> merger_error + (u32 \<times> u32 \<times> merger) list"
  and compile_oneof_variant :: "field \<Rightarrow> merger_error + merger" where
  "compile_message (Field number name subs coding) f =
     ebind (compile_message_loop 0 subs [] []) (\<lambda>(m, defaults). Inr (Merger f defaults (Merger_subfields m)))"
| "compile_message_loop index [] m defaults = Inr (m, defaults)"
| "compile_message_loop index (subfield # rest) m defaults =
     ebind (compile_message_field subfield) (\<lambda>r.
       case r of
         None \<Rightarrow>
           ebind (compile_oneof_loop (field_number subfield) index (field_subfields subfield) m) (\<lambda>m.
             compile_message_loop (index + 1) rest m (defaults @ [(field_name subfield, Val_Option None)]))
       | Some (merger, default_value) \<Rightarrow>
           compile_message_loop (index + 1) rest ((field_number subfield, of_nat index, merger) # m)
             (defaults @ [(field_name subfield, default_value)]))"
| "compile_message_field subfield =
     (case field_coding subfield of
        None \<Rightarrow> Inl (Merger_missing_coding (field_number subfield))
      | Some (Scalar_coding c) \<Rightarrow>
          (case scalar_coding_try_from c of
             None \<Rightarrow> Inl (Merger_invalid_scalar_coding (field_number subfield) c)
           | Some sc \<Rightarrow> Inr (Some (Merger_scalar sc)))
      | Some (Compound_coding c) \<Rightarrow>
          (case compound_coding_try_from c of
             None \<Rightarrow> Inl (Merger_invalid_compound_coding (field_number subfield) c)
           | Some EnumImplicit \<Rightarrow>
               let merger = merger_enum_variants subfield Merge_enum_implicit in
               (case map_of (enum_variants (mg_compound merger)) 0 of
                  Some name \<Rightarrow> Inr (Some (merger, Val_Enum name))
                | None \<Rightarrow> Inl (Merger_implicit_enum_default (field_number subfield)))
           | Some EnumPacked \<Rightarrow> Inr (Some (merger_enum_variants subfield Merge_enum_repeated, Val_List []))
           | Some EnumExplicit \<Rightarrow> Inr (Some (merger_enum_variants subfield Merge_enum_explicit, Val_Option None))
           | Some EnumExpanded \<Rightarrow> Inr (Some (merger_enum_variants subfield Merge_enum_repeated, Val_List []))
           | Some Message \<Rightarrow>
               emap_err (Context_invalid_message (field_number subfield))
                 (ebind (compile_message subfield Merge_message_outer) (\<lambda>merger. Inr (Some (merger, Val_Option None))))
           | Some MessageExpanded \<Rightarrow>
               emap_err (Context_expanded_message (field_number subfield))
                 (ebind (compile_message subfield Merge_message_repeated) (\<lambda>merger. Inr (Some (merger, Val_List []))))
           | Some Oneof \<Rightarrow> Inr None))"
| "compile_oneof_loop number index [] m = Inr m"
| "compile_oneof_loop number index (variant # rest) m =
     ebind (emap_err (Context_oneof_variant (field_number variant) number) (compile_oneof_variant variant))
       (\<lambda>merger. compile_oneof_loop number index rest ((field_number variant, of_nat index, merger) # m))"
| "compile_oneof_variant variant =
     ebind
       (case field_coding variant of
          None \<Rightarrow> Inl Merger_variant_missing_coding
        | Some (Scalar_coding c) \<Rightarrow>
            if explicit_scalar c
            then (case scalar_coding_try_from c of
                    None \<Rightarrow> Inl (Merger_variant_invalid_scalar c)
                  | Some sc \<Rightarrow> Inr (fst (Merger_scalar sc)))
            else Inl Merger_variant_explicit
        | Some (Compound_coding c) \<Rightarrow>
            (case compound_coding_try_from c of
               None \<Rightarrow> Inl (Merger_variant_invalid_compound c)
             | Some EnumExplicit \<Rightarrow> Inr (merger_enum_variants variant Merge_enum_explicit)
             | Some Message \<Rightarrow> compile_message variant Merge_message_outer
             | Some _ \<Rightarrow> Inl Merger_variant_explicit))
       (\<lambda>merger. Inr (Merger Merge_oneof_variant [] (Merger_oneof_variant (field_name variant) merger)))"
  by pat_completeness auto
termination
  by (relation "measure (\<lambda>x. case x of
        Inl (Inl (f, g)) \<Rightarrow> 2 * size f
      | Inl (Inr (i, ss, m, d)) \<Rightarrow> 2 * size_list size ss
      | Inr (Inl s) \<Rightarrow> 2 * size s + 1
      | Inr (Inr (Inl (n, i, ss, m))) \<Rightarrow> 2 * size_list size ss
      | Inr (Inr (Inr s)) \<Rightarrow> 2 * size s + 1)")
    (use size_field_subfields in \<open>auto intro: less_trans simp: less_Suc_eq_le trans_le_add1 less_imp_le\<close>)

definition RequestDecoder_new :: "field \<Rightarrow> merger_error + merger" where
  "RequestDecoder_new request = emap_err Context_request (compile_message request Merge_message_inner)"

section \<open>Enumerations\<close>

definition enum_inner :: "wire_lib \<Rightarrow> merger \<Rightarrow> u32 \<Rightarrow> bytes \<Rightarrow> inner_result" where
  "enum_inner W merger limit src =
     obind (read_varint W limit src INVALID_VARINT) (\<lambda>(varint, limit, src).
       case u32_try_from varint of
         None \<Rightarrow> Err (DecodeError_new OVERFLOW_32BIT)
       | Some value \<Rightarrow>
           (case map_of (enum_variants (mg_compound merger)) value of
              Some name \<Rightarrow> Ok (Val_Enum name, limit, src)
            | None \<Rightarrow>
                (case map_of (enum_variants (mg_compound merger)) 0 of
                   Some name \<Rightarrow> Ok (Val_Enum name, limit, src)
                 | None \<Rightarrow> Err (DecodeError_new ENUM_NO_DEFAULT))))"

definition enum_explicit_merge :: "wire_lib \<Rightarrow> merger \<Rightarrow> wire_type \<Rightarrow> u32 \<Rightarrow> bytes \<Rightarrow> val \<Rightarrow> merge_result" where
  "enum_explicit_merge W merger wire_type limit src dst =
     (if wire_type = Varint
      then obind (enum_inner W merger limit src) (\<lambda>(v, limit, src). Ok (limit, src, Val_Option (Some v)))
      else Err (DecodeError_new WIRETYPE_NON_VARINT))"

definition enum_implicit_merge :: "wire_lib \<Rightarrow> merger \<Rightarrow> wire_type \<Rightarrow> u32 \<Rightarrow> bytes \<Rightarrow> val \<Rightarrow> merge_result" where
  "enum_implicit_merge W merger wire_type limit src dst =
     (if wire_type = Varint
      then obind (enum_inner W merger limit src) (\<lambda>(v, limit, src). Ok (limit, src, v))
      else Err (DecodeError_new WIRETYPE_NON_VARINT))"

definition enum_repeated_merge :: "wire_lib \<Rightarrow> merger \<Rightarrow> wire_type \<Rightarrow> u32 \<Rightarrow> bytes \<Rightarrow> val \<Rightarrow> merge_result" where
  "enum_repeated_merge W merger wire_type limit src dst =
     (case dst of
        Val_List items \<Rightarrow>
          if wire_type = LengthDelimited
          then obind (read_length_check_overflow W limit src) (\<lambda>(len, limit, src).
                 obind (packed_loop (enum_inner W merger) (unat len) len src items)
                   (\<lambda>(items, src). Ok (limit, src, Val_List items)))
          else if wire_type = Varint
          then obind (omap_err (DecodeError_with_index (length items)) (enum_inner W merger limit src))
                 (\<lambda>(v, limit, src). Ok (limit, src, Val_List (items @ [v])))
          else Err (DecodeError_new WIRETYPE_NON_VARINT)
      | _ \<Rightarrow> Err (DecodeError_new DECODE_REPEATED_NON_LIST))"

section \<open>Messages and oneofs\<close>

lemma size_merger_subfield:
  "map_of (merger_subfields (mg_compound m)) n = Some (i, sub) \<Longrightarrow> size sub < size m"
proof -
  assume a: "map_of (merger_subfields (mg_compound m)) n = Some (i, sub)"
  then obtain l where l: "mg_compound m = Merger_subfields l" and sub: "(n, i, sub) \<in> set l"
    by (cases "mg_compound m") (auto dest: map_of_SomeD)
  from sub have "size sub < size (Merger_subfields l)"
    by (induction l) auto
  then show ?thesis using l by (cases m) simp
qed

lemma size_merger_variant: "oneof_variant (mg_compound m) = Some (n, sub) \<Longrightarrow> size sub < size m"
  by (cases m; cases "mg_compound m") auto

function (sequential) merge_call ::
    "wire_lib \<Rightarrow> merger \<Rightarrow> wire_type \<Rightarrow> u32 \<Rightarrow> bytes \<Rightarrow> val \<Rightarrow> merge_result"
  and message_inner_merge :: "wire_lib \<Rightarrow> merger \<Rightarrow> u32 \<Rightarrow> bytes \<Rightarrow> val \<Rightarrow> merge_result"
  and message_loop ::
    "wire_lib \<Rightarrow> merger \<Rightarrow> nat \<Rightarrow> u32 \<Rightarrow> bytes \<Rightarrow> (string \<times> val) list
      \<Rightarrow> (u32 \<times> bytes \<times> (string \<times> val) list, decode_error) outcome" where
  "merge_call W merger wire_type limit src dst =
     (case mg_merge merger of
        Merge_scalar k shape \<Rightarrow> scalar_merge W k shape wire_type limit src dst
      | Merge_message_inner \<Rightarrow> message_inner_merge W merger limit src dst
      | Merge_message_outer \<Rightarrow>
          if wire_type = LengthDelimited
          then obind (read_length_check_overflow W limit src) (\<lambda>(len, limit, src).
                 obind (message_inner_merge W merger len src (Val_Record (mg_defaults merger)))
                   (\<lambda>(len, src, value). Ok (limit, src, Val_Option (Some value))))
          else Err (DecodeError_new WIRETYPE_NON_LENGTH_DELIMITED)
      | Merge_message_repeated \<Rightarrow>
          (case dst of
             Val_List items \<Rightarrow>
               if wire_type = LengthDelimited
               then obind (omap_err (DecodeError_with_index (length items)) (read_length_check_overflow W limit src))
                      (\<lambda>(len, limit, src).
                        obind (omap_err (DecodeError_with_index (length items))
                            (message_inner_merge W merger len src (Val_Record (mg_defaults merger))))
                          (\<lambda>(len, src, value). Ok (limit, src, Val_List (items @ [value]))))
               else Err (DecodeError_new WIRETYPE_NON_LENGTH_DELIMITED)
           | _ \<Rightarrow> Err (DecodeError_new DECODE_REPEATED_NON_LIST))
      | Merge_oneof_variant \<Rightarrow>
          (case oneof_variant (mg_compound merger) of
             None \<Rightarrow> Panic
           | Some (variant_name, variant_merger) \<Rightarrow>
               obind (merge_call W variant_merger wire_type limit src (Val_Option None))
                 (\<lambda>(limit, src, value).
                    case value of
                      Val_Option value \<Rightarrow> Ok (limit, src, Val_Option (Some (Val_Variant variant_name value)))
                    | _ \<Rightarrow> Err (DecodeError_new NON_EXPLICIT_ONEOF_VARIANT)))
      | Merge_enum_explicit \<Rightarrow> enum_explicit_merge W merger wire_type limit src dst
      | Merge_enum_implicit \<Rightarrow> enum_implicit_merge W merger wire_type limit src dst
      | Merge_enum_repeated \<Rightarrow> enum_repeated_merge W merger wire_type limit src dst)"
| "message_inner_merge W merger limit src dst =
     (case dst of
        Val_Record flds \<Rightarrow>
          obind (message_loop W merger (unat limit) limit src flds)
            (\<lambda>(limit, src, flds). Ok (limit, src, Val_Record flds))
      | _ \<Rightarrow> Err (DecodeError_new DECODE_MESSAGE_NON_RECORD))"
| "message_loop W merger fuel limit src flds =
     (if limit > 0
      then (case fuel of
              0 \<Rightarrow> Out_of_fuel
            | Suc fuel \<Rightarrow>
                obind (decode_tag W limit src) (\<lambda>(number, wire_type, limit, src).
                  case map_of (merger_subfields (mg_compound merger)) number of
                    Some (index, sub) \<Rightarrow>
                      if unat index < length flds
                      then obind (omap_err (DecodeError_with_field number)
                               (merge_call W sub wire_type limit src (snd (flds ! unat index))))
                             (\<lambda>(limit, src, v).
                                message_loop W merger fuel limit src
                                  (flds[unat index := (fst (flds ! unat index), v)]))
                      else Err (DecodeError_with_field number (DecodeError_new FIELD_INDEX_OUT_OF_BOUNDS))
                  | None \<Rightarrow>
                      obind (omap_err (DecodeError_with_field number) (skip W wire_type limit src))
                        (\<lambda>(limit, src). message_loop W merger fuel limit src flds)))
      else Ok (limit, src, flds))"
  by pat_completeness auto
termination
  by (relation "inv_image (less_than <*lex*> less_than <*lex*> less_than) (\<lambda>x. case x of
        Inl (W, m, w, l, s, d) \<Rightarrow> (size m, 2, 0)
      | Inr (Inl (W, m, l, s, d)) \<Rightarrow> (size m, 1, 0)
      | Inr (Inr (W, m, fuel, l, s, fl)) \<Rightarrow> (size m, 0, fuel))")
    (auto simp: size_merger_subfield size_merger_variant)

declare merge_call.simps [simp del] message_inner_merge.simps [simp del] message_loop.simps [simp del]

section \<open>The request decoder\<close>

datatype decode_status = Request_too_big | Malformed_request string

definition RequestDecoder_decode :: "wire_lib \<Rightarrow> merger \<Rightarrow> bytes \<Rightarrow> (val option, decode_status) outcome" where
  "RequestDecoder_decode W inner src =
     (if int (length src) < 2 ^ 32
      then (case merge_call W inner LengthDelimited (of_nat (length src)) src (Val_Record (mg_defaults inner)) of
              Ok (limit, src, value) \<Rightarrow> Ok (Some value)
            | Err e \<Rightarrow> Err (Malformed_request (DecodeError_display e))
            | Panic \<Rightarrow> Panic
            | Out_of_fuel \<Rightarrow> Out_of_fuel)
      else Err Request_too_big)"

end
