(* ===== verification/Decode_Spec.thy ===== *)
theory Decode_Spec
  imports Decode_Compound
begin

text \<open>
  Properties of the decoder that hold on every input: each inner decoder consumes part of its limit
  (the contract \<open>inner_decoder\<close>, of which every scalar type and enumeration is an instance), so no loop
  runs out of fuel and decoding terminates; limits never grow.
\<close>

section \<open>Reading consumes the limit\<close>

context wire
begin

lemma of_nat_len: "unat (of_nat (encoded_len_varint W v) :: u32) = encoded_len_varint W v"
proof -
  have "encoded_len_varint W v < 2 ^ 32" using encoded_len_bounds(2) [of v] by simp
  then show ?thesis by (simp add: unat_of_nat take_bit_eq_mod)
qed

lemma read_varint_fuel [simp]: "read_varint W l s err \<noteq> Out_of_fuel"
  by (simp add: read_varint_def Let_def split: option.splits)

lemma read_varint_less: "read_varint W l s err = Ok (v, l', s') \<Longrightarrow> l' < l"
proof -
  assume "read_varint W l s err = Ok (v, l', s')"
  then have l': "l' = l - of_nat (encoded_len_varint W v)" and le: "of_nat (encoded_len_varint W v) \<le> l"
    by (auto simp: read_varint_def Let_def not_less split: option.splits if_splits)
  have "unat l' = unat l - encoded_len_varint W v"
    using le by (simp add: l' unat_sub of_nat_len)
  moreover have "encoded_len_varint W v \<le> unat l"
    using le by (simp add: word_le_nat_alt of_nat_len)
  ultimately show ?thesis
    using encoded_len_bounds(1) [of v] by (simp add: word_less_nat_alt)
qed

lemma read_length_fuel [simp]: "read_length_check_overflow W l s \<noteq> Out_of_fuel"
  by (auto simp: read_length_check_overflow_def obind_fuel split: option.splits if_splits)

lemma read_length_less: "read_length_check_overflow W l s = Ok (n, l', s') \<Longrightarrow> l' < l"
proof -
  assume "read_length_check_overflow W l s = Ok (n, l', s')"
  then obtain v l1 where v: "read_varint W l s INVALID_LENGTH_VARINT = Ok (v, l1, s')" and "n \<le> l1" "l' = l1 - n"
    by (auto simp: read_length_check_overflow_def obind_Ok_iff split: option.split_asm if_split_asm)
  then have "l' \<le> l1" by (simp add: word_sub_le)
  with read_varint_less [OF v] show ?thesis by simp
qed

lemma decode_tag_fuel [simp]: "decode_tag W l s \<noteq> Out_of_fuel"
  by (auto simp: decode_tag_def Let_def obind_fuel split: option.splits if_splits)

lemma decode_tag_less: "decode_tag W l s = Ok (n, w, l', s') \<Longrightarrow> l' < l"
  by (auto simp: decode_tag_def Let_def obind_Ok_iff split: option.splits if_splits dest!: read_varint_less)

lemma skip_fuel [simp]: "skip W w l s \<noteq> Out_of_fuel"
  by (auto simp: skip_def advance_or_panic_def obind_fuel split: wire_type.splits option.splits)

lemma skip_le: "skip W w l s = Ok (l', s') \<Longrightarrow> l' \<le> l"
  by (auto simp: skip_def advance_or_panic_def obind_Ok_iff not_less word_sub_le
      split: wire_type.splits option.splits if_splits dest!: read_varint_less read_length_less)

end

section \<open>Inner decoders\<close>

locale inner_decoder =
  fixes inner :: "u32 \<Rightarrow> bytes \<Rightarrow> inner_result"
  assumes inner_fuel: "inner l s \<noteq> Out_of_fuel"
    and inner_less: "inner l s = Ok (v, l', s') \<Longrightarrow> l' < l"
begin

lemma packed_loop_fuel: "unat l \<le> fuel \<Longrightarrow> packed_loop inner fuel l s items \<noteq> Out_of_fuel"
proof (induction fuel arbitrary: l s items)
  case 0
  then show ?case by (simp add: word_less_nat_alt)
next
  case (Suc fuel)
  have "packed_loop inner fuel l' s' (items @ [v]) \<noteq> Out_of_fuel" if "inner l s = Ok (v, l', s')" for v l' s'
    using Suc inner_less [OF that] by (intro Suc.IH) (simp add: word_less_nat_alt)
  then show ?case by (auto simp: obind_fuel inner_fuel)
qed

lemma merges_fuel:
  "explicit_merge inner wt w l s d \<noteq> Out_of_fuel"
  "implicit_merge inner wt w l s d \<noteq> Out_of_fuel"
  "stringy_repeated_merge inner w l s d \<noteq> Out_of_fuel"
  by (auto simp: explicit_merge_def implicit_merge_def stringy_repeated_merge_def obind_fuel inner_fuel
      split: val.splits)

lemma merges_less:
  "explicit_merge inner wt w l s d = Ok (l', s', v) \<Longrightarrow> l' < l"
  "implicit_merge inner wt w l s d = Ok (l', s', v) \<Longrightarrow> l' < l"
  "stringy_repeated_merge inner w l s d = Ok (l', s', v) \<Longrightarrow> l' < l"
  by (auto simp: explicit_merge_def implicit_merge_def stringy_repeated_merge_def obind_Ok_iff
      split: val.splits if_splits dest: inner_less)

end

context wire
begin

lemma read_bytes_fuel [simp]: "read_bytes W n s acc \<noteq> Out_of_fuel"
  by (induction n arbitrary: s acc) (auto split: option.splits)

lemma sub_less: "(k :: u32) \<le> l \<Longrightarrow> 0 < k \<Longrightarrow> l - k < l"
  by (simp add: word_less_nat_alt word_le_nat_alt unat_sub)

lemma decode_inner_fuel: "decode_inner W k l s \<noteq> Out_of_fuel"
  by (cases k)
    (auto simp: bytes_decode_inner_def string_utf8_decode_inner_def string_permissive_decode_inner_def
      bool_decode_inner_def int32_decode_inner_def sint32_decode_inner_def uint32_decode_inner_def
      int64_decode_inner_def sint64_decode_inner_def uint64_decode_inner_def sfixed32_decode_inner_def
      fixed32_decode_inner_def sfixed64_decode_inner_def fixed64_decode_inner_def float_decode_inner_def
      double_decode_inner_def fixed32_bits_decode_def fixed64_bits_decode_def obind_fuel Let_def
      split: option.splits prod.splits)

lemma decode_inner_less: "decode_inner W k l s = Ok (v, l', s') \<Longrightarrow> l' < l"
  by (cases k)
    (auto simp: bytes_decode_inner_def string_utf8_decode_inner_def string_permissive_decode_inner_def
      bool_decode_inner_def int32_decode_inner_def sint32_decode_inner_def uint32_decode_inner_def
      int64_decode_inner_def sint64_decode_inner_def uint64_decode_inner_def sfixed32_decode_inner_def
      fixed32_decode_inner_def sfixed64_decode_inner_def fixed64_decode_inner_def float_decode_inner_def
      double_decode_inner_def fixed32_bits_decode_def fixed64_bits_decode_def obind_Ok_iff Let_def sub_less take_read_law
      split: option.split_asm prod.split_asm if_split_asm dest!: read_varint_less read_length_less)

lemma enum_inner_fuel: "enum_inner W m l s \<noteq> Out_of_fuel"
  by (auto simp: enum_inner_def obind_fuel split: option.splits)

lemma enum_inner_less: "enum_inner W m l s = Ok (v, l', s') \<Longrightarrow> l' < l"
  by (auto simp: enum_inner_def obind_Ok_iff split: option.splits dest!: read_varint_less)

end

sublocale wire \<subseteq> scalar_inner: inner_decoder "decode_inner W k" for k
  by unfold_locales (fact decode_inner_fuel, fact decode_inner_less)

sublocale wire \<subseteq> enum_inner: inner_decoder "enum_inner W m" for m
  by unfold_locales (fact enum_inner_fuel, fact enum_inner_less)

context wire
begin

lemma scalar_merge_fuel: "scalar_merge W k shape w l s d \<noteq> Out_of_fuel"
  by (cases shape)
    (auto simp: scalar_inner.merges_fuel numeric_repeated_merge_def obind_fuel decode_inner_fuel
      scalar_inner.packed_loop_fuel split: val.splits)

lemma scalar_merge_less: "scalar_merge W k shape w l s d = Ok (l', s', v) \<Longrightarrow> l' < l"
  by (cases shape)
    (auto simp: numeric_repeated_merge_def obind_Ok_iff split: val.splits if_splits
      dest!: scalar_inner.merges_less read_length_less decode_inner_less)

lemma enum_merge_fuel:
  "enum_explicit_merge W m w l s d \<noteq> Out_of_fuel" "enum_implicit_merge W m w l s d \<noteq> Out_of_fuel"
  "enum_repeated_merge W m w l s d \<noteq> Out_of_fuel"
  by (auto simp: enum_explicit_merge_def enum_implicit_merge_def enum_repeated_merge_def obind_fuel enum_inner_fuel
      enum_inner.packed_loop_fuel split: val.splits)

lemma enum_merge_less:
  "enum_explicit_merge W m w l s d = Ok (l', s', v) \<Longrightarrow> l' < l"
  "enum_implicit_merge W m w l s d = Ok (l', s', v) \<Longrightarrow> l' < l"
  "enum_repeated_merge W m w l s d = Ok (l', s', v) \<Longrightarrow> l' < l"
  by (auto simp: enum_explicit_merge_def enum_implicit_merge_def enum_repeated_merge_def obind_Ok_iff
      split: val.splits if_splits dest!: enum_inner_less read_length_less)

end

section \<open>Termination\<close>

definition settles :: "u32 \<Rightarrow> (u32 \<times> bytes \<times> 'a, decode_error) outcome \<Rightarrow> bool" where
  "settles l r \<longleftrightarrow> r \<noteq> Out_of_fuel \<and> (\<forall>l' s' v. r = Ok (l', s', v) \<longrightarrow> l' \<le> l)"

text \<open>One field of a message: \<open>call\<close> merges it and \<open>loop\<close> continues with the rest.\<close>

lemma field_settles:
  assumes "wire W" "l1 < l"
    and unknown: "\<And>l2 s2. map_of fs n = None \<Longrightarrow> skip W wt l1 s1 = Ok (l2, s2) \<Longrightarrow> settles l2 (loop l2 s2 fl)"
    and known: "\<And>i sub. map_of fs n = Some (i, sub) \<Longrightarrow> unat i < length fl \<Longrightarrow> settles l1 (call sub (snd (fl ! unat i)))"
    and rest: "\<And>i sub l2 s2 v. map_of fs n = Some (i, sub) \<Longrightarrow> unat i < length fl \<Longrightarrow> call sub (snd (fl ! unat i)) = Ok (l2, s2, v)
      \<Longrightarrow> settles l2 (loop l2 s2 (fl[unat i := (fst (fl ! unat i), v)]))"
  shows "settles l (case map_of fs n of
      Some (i, sub) \<Rightarrow>
        if unat i < length fl
        then obind (omap_err (DecodeError_with_field n) (call sub (snd (fl ! unat i))))
          (\<lambda>(l, s, v). loop l s (fl[unat i := (fst (fl ! unat i), v)]))
        else Err (DecodeError_with_field n (DecodeError_new FIELD_INDEX_OUT_OF_BOUNDS))
    | None \<Rightarrow> obind (omap_err (DecodeError_with_field n) (skip W wt l1 s1)) (\<lambda>(l, s). loop l s fl))"
proof (cases "map_of fs n")
  case None
  with unknown assms(2) wire.skip_le [OF assms(1), of wt l1 s1] show ?thesis
    by (fastforce simp: settles_def obind_fuel obind_Ok_iff wire.skip_fuel [OF assms(1)])
next
  case (Some p)
  obtain i sub where p: "p = (i, sub)" by fastforce
  with Some known rest assms(2) show ?thesis by (fastforce simp: settles_def obind_fuel obind_Ok_iff)
qed

lemma merge_settles:
  shows "wire W \<Longrightarrow> settles l (merge_call W m w l s d)"
    and "wire W \<Longrightarrow> settles l (message_inner_merge W m l s d)"
    and "wire W \<Longrightarrow> unat l \<le> fuel \<Longrightarrow> settles l (message_loop W m fuel l s fl)"
proof (induction W m w l s d and W m l s d and W m fuel l s fl rule: merge_call_message_inner_merge_message_loop.induct)
  case (1 W m w l s d)
  note laws = wire.scalar_merge_fuel [OF "1.prems"] wire.enum_merge_fuel [OF "1.prems"]
    wire.read_length_fuel [OF "1.prems"]
  note less = wire.scalar_merge_less [OF "1.prems"] wire.enum_merge_less [OF "1.prems"]
    wire.read_length_less [OF "1.prems"]
  show ?case
  proof (cases "mg_merge m")
    case Merge_message_outer
    have "settles len (message_inner_merge W m len s' (Val_Record (mg_defaults m)))"
      if "read_length_check_overflow W l s = Ok (len, l', s')" "w = LengthDelimited" for len l' s'
      using "1.IH"(2) [OF Merge_message_outer that(2,1) refl refl "1.prems"] .
    then show ?thesis
      using Merge_message_outer laws
      by (auto simp: settles_def merge_call.simps obind_fuel obind_Ok_iff dest!: less)
  next
    case Merge_message_repeated
    have "settles len (message_inner_merge W m len s' (Val_Record (mg_defaults m)))"
      if "read_length_check_overflow W l s = Ok (len, l', s')" "w = LengthDelimited" "d = Val_List items"
      for len l' s' items
      using "1.IH"(3) [OF Merge_message_repeated that(3,2) _ refl refl "1.prems"] that(1) by simp
    then show ?thesis
      using Merge_message_repeated laws
      by (auto simp: settles_def merge_call.simps obind_fuel obind_Ok_iff split: val.splits dest!: less)
  next
    case Merge_oneof_variant
    have "settles l (merge_call W sub w l s (Val_Option None))"
      if "oneof_variant (mg_compound m) = Some (n, sub)" for n sub
      using "1.IH"(4) [OF Merge_oneof_variant that refl "1.prems"] .
    then show ?thesis
      using Merge_oneof_variant
      by (auto simp: settles_def merge_call.simps [of W m] obind_fuel obind_Ok_iff
          split: option.splits val.split_asm)
  qed (use 1 in \<open>auto simp: settles_def merge_call.simps laws dest: less less_imp_le\<close>)
next
  case (2 W m l s d)
  then show ?case
    by (auto simp: settles_def message_inner_merge.simps obind_fuel obind_Ok_iff split: val.splits)
next
  case (3 W m fuel l s fl)
  note w = "3.prems"(1)
  show ?case
  proof (cases "l > 0")
    case True
    with "3.prems"(2) obtain f where f: "fuel = Suc f" by (cases fuel) (simp_all add: word_less_nat_alt)
    have "settles l (case map_of (merger_subfields (mg_compound m)) n of
          Some (i, sub) \<Rightarrow>
            if unat i < length fl
            then obind (omap_err (DecodeError_with_field n) (merge_call W sub wt l1 s1 (snd (fl ! unat i))))
              (\<lambda>(l, s, v). message_loop W m f l s (fl[unat i := (fst (fl ! unat i), v)]))
            else Err (DecodeError_with_field n (DecodeError_new FIELD_INDEX_OUT_OF_BOUNDS))
        | None \<Rightarrow> obind (omap_err (DecodeError_with_field n) (skip W wt l1 s1)) (\<lambda>(l, s). message_loop W m f l s fl))"
      if t: "decode_tag W l s = Ok (n, wt, l1, s1)" for n wt l1 s1
    proof (rule field_settles [OF w wire.decode_tag_less [OF w t]])
      note ih = "3.IH" [OF True f t refl refl refl]
      have le: "unat l2 \<le> f" if "l2 \<le> l1" for l2
        using that wire.decode_tag_less [OF w t] "3.prems"(2) f by (simp add: word_less_nat_alt word_le_nat_alt)
      show "settles l2 (message_loop W m f l2 s2 fl)"
        if "map_of (merger_subfields (mg_compound m)) n = None" "skip W wt l1 s1 = Ok (l2, s2)" for l2 s2
        using ih(1) [OF that(1) _ refl w] that(2) le wire.skip_le [OF w that(2)] by simp
      fix i sub
      assume sub: "map_of (merger_subfields (mg_compound m)) n = Some (i, sub)" "unat i < length fl"
      show call: "settles l1 (merge_call W sub wt l1 s1 (snd (fl ! unat i)))" using ih(2) [OF sub(1) refl sub(2) w] .
      show "settles l2 (message_loop W m f l2 s2 (fl[unat i := (fst (fl ! unat i), v)]))"
        if "merge_call W sub wt l1 s1 (snd (fl ! unat i)) = Ok (l2, s2, v)" for l2 s2 v
        using ih(3) [OF sub(1) refl sub(2) _ refl refl w] that le call by (simp add: settles_def)
    qed
    then show ?thesis
      using True f wire.decode_tag_fuel [OF w, of l s]
      by (cases "decode_tag W l s") (auto simp: settles_def message_loop.simps)
  next
    case False
    then show ?thesis by (simp add: settles_def message_loop.simps)
  qed
qed

section \<open>Properties\<close>

definition sample_request :: field where
  "sample_request = Field 0 ''request''
     [Field 1 ''flag'' [] (Some (Scalar_coding 12)),
      Field 2 ''tags'' [] (Some (Scalar_coding 21)),
      Field 3 ''child'' [Field 1 ''name'' [] (Some (Scalar_coding 4))] (Some (Compound_coding 6)),
      Field 0 ''choice'' [Field 4 ''num'' [] (Some (Scalar_coding 50))] (Some (Compound_coding 8))] None"

definition sample_merger :: merger where
  "sample_merger =
     (case RequestDecoder_new sample_request of
        Inr m \<Rightarrow> m | Inl _ \<Rightarrow> Merger Merge_message_inner [] Merger_scalar_placeholder)"

text \<open>
  C7: Decoding terminates on every input, however malformed: each loop of a message or packed field
  consumes part of its limit in every round, so the decoder returns a value, an error or panics.
\<close>

theorem decode_terminates:
  assumes "wire W"
  shows "RequestDecoder_decode W inner src \<noteq> Out_of_fuel"
  using merge_settles(1) [OF assms, of "of_nat (length src)" inner LengthDelimited src "Val_Record (mg_defaults inner)"]
  by (auto simp: RequestDecoder_decode_def settles_def split: outcome.splits)

theorem decode_terminates_witness: "RequestDecoder_decode leb_lib sample_merger [8, 1, 18, 200, 1] \<noteq> Out_of_fuel"
  by (rule decode_terminates [OF leb.wire_axioms])

text \<open>
  A request whose first tag is an overlong varint panics the decoder: \<open>read_varint\<close> charges the limit
  with the canonical length of the number instead of the bytes it read, so the decoder believes that a
  byte is left and reads past the end of the buffer.
\<close>

theorem overlong_tag_panics: "RequestDecoder_decode leb_lib sample_merger [0x88, 0] = Panic"
  by code_simp

end
