(* ===== verification/Codec.thy ===== *)
theory Codec
  imports Scalar_Spec Decode_Spec
begin

text \<open>
  The encoder and the decoder against each other: a scalar payload written by the encoder is read back as
  the same value, exactly for the values in \<open>decodable\<close>.
\<close>

unbundle bit_operations_syntax

lemma neg_and_1: "- ((z :: 'a::len word) AND 1) = (if bit z 0 then - 1 else 0)"
  by (simp add: and_one_eq mod_2_eq_odd bit_0)

lemma zigzag32_inverse:
  fixes v :: i32
  defines "z \<equiv> push_bit 1 v XOR signed_drop_bit 31 v"
  shows "drop_bit 1 z XOR (- (z AND 1)) = v"
proof (rule bit_word_eqI)
  fix i
  assume i: "i < LENGTH(32)"
  have z0: "bit z 0 \<longleftrightarrow> bit v 31"
    unfolding z_def bit_xor_iff bit_push_bit_iff by (simp add: bit_signed_drop_bit_iff)
  have zS: "bit z (Suc i) \<longleftrightarrow> i < 31 \<and> (bit v i \<noteq> bit v 31)"
    using i unfolding z_def bit_xor_iff bit_push_bit_iff
    by (auto simp: bit_signed_drop_bit_iff dest: bit_imp_le_length)
  show "bit (drop_bit 1 z XOR (- (z AND 1))) i \<longleftrightarrow> bit v i"
    using i zS z0 by (cases "i = 31") (auto simp: neg_and_1 bit_xor_iff bit_drop_bit_eq)
qed

lemma zigzag64_inverse:
  fixes v :: i64
  defines "z \<equiv> push_bit 1 v XOR signed_drop_bit 63 v"
  shows "signed_drop_bit 1 z XOR (- (z AND 1)) = v \<longleftrightarrow> (bit v 62 \<longleftrightarrow> bit v 63)"
proof -
  have z0: "bit z 0 \<longleftrightarrow> bit v 63"
    unfolding z_def bit_xor_iff bit_push_bit_iff by (simp add: bit_signed_drop_bit_iff)
  have zS: "bit z (Suc i) \<longleftrightarrow> i < 63 \<and> (bit v i \<noteq> bit v 63)" for i
    unfolding z_def bit_xor_iff bit_push_bit_iff
    by (cases "i < 64") (auto simp: bit_signed_drop_bit_iff dest: bit_imp_le_length)
  define r where "r = signed_drop_bit 1 z XOR (- (z AND 1))"
  have r: "bit r i \<longleftrightarrow> (if i = 63 then bit v 62 else bit v i)" if "i < 64" for i
    unfolding r_def
    using that zS z0 zS [of 62] by (auto simp: neg_and_1 bit_xor_iff bit_signed_drop_bit_iff)
  have "r = v \<longleftrightarrow> (bit v 62 \<longleftrightarrow> bit v 63)"
  proof
    assume "r = v"
    then show "bit v 62 \<longleftrightarrow> bit v 63" using r [of 63] by simp
  next
    assume "bit v 62 \<longleftrightarrow> bit v 63"
    then show "r = v" using r by (intro bit_word_eqI) (auto split: if_splits)
  qed
  then show ?thesis unfolding r_def .
qed

section \<open>Reading back what was written\<close>

text \<open>
  The values that survive: 32-bit integers only when not negative (the decoder refuses the sign-extended
  varint the encoder writes for the others), zigzag 64-bit integers only when the two top bits agree (the
  decoder shifts arithmetically), strings only when they are UTF-8 where that is checked.
\<close>

fun decodable :: "scalar_kind \<Rightarrow> val \<Rightarrow> bool" where
  "decodable Int32 v = (0 \<le> sint (the (s32_get v)))"
| "decodable Sint64 v = (bit (the (s64_get v)) 62 \<longleftrightarrow> bit (the (s64_get v)) 63)"
| "decodable String_utf8 v = utf8_valid (as_bytes (the (string_get v)))"
| "decodable _ v = True"

context wire
begin

lemma read_varint_encode:
  assumes "encoded_len_varint W n \<le> unat l"
  shows "read_varint W l (encode_varint W n @ r) err = Ok (n, l - of_nat (encoded_len_varint W n), r)"
proof -
  have "of_nat (encoded_len_varint W n) \<le> l"
    using assms by (simp add: word_le_nat_alt of_nat_len)
  then show ?thesis by (simp add: read_varint_def decode_encode Let_def not_less)
qed

lemma u32_try_from_ucast: "u32_try_from (ucast (n :: u32)) = Some n"
proof -
  have "uint n < 2 ^ 32" using unsigned_less [of n, where 'a = int] by simp
  moreover have "uint (ucast n :: u64) = uint n" using calculation by (simp add: unsigned_ucast_eq take_bit_int_eq_self)
  moreover have "ucast (ucast n :: u64) = n"
    by (rule bit_word_eqI) (simp add: bit_unsigned_iff)
  ultimately show ?thesis by (simp add: u32_try_from_def)
qed

lemma read_length_delimited:
  assumes "length (delimited W b) \<le> unat l"
  shows "read_length_check_overflow W l (delimited W b @ r)
    = Ok (of_nat (length b), l - of_nat (length (delimited W b)), b @ r)"
proof -
  let ?n = "of_nat (length b) :: u64" and ?m = "of_nat (length b) :: u32"
  have lt: "length b < 2 ^ 32" using assms le_less_trans [OF _ unat_u32_lt [of l], of "length b"] by (simp add: delimited_def)
  have n: "?n = ucast ?m" using lt by (simp add: ucast_of_nat_u32)
  have len: "encoded_len_varint W ?n \<le> unat l"
    using assms by (simp add: delimited_def length_encode)
  let ?l = "l - of_nat (encoded_len_varint W ?n)"
  have ul: "unat ?l = unat l - encoded_len_varint W ?n"
    using len by (simp add: unat_sub word_le_nat_alt of_nat_len)
  have um: "unat ?m = length b" using lt by (simp add: unat_of_nat take_bit_eq_mod)
  have le: "?m \<le> ?l" using assms by (simp add: word_le_nat_alt ul um delimited_def length_encode)
  show ?thesis
    using read_varint_encode [OF len, of "b @ r" INVALID_LENGTH_VARINT] le
    by (simp add: read_length_check_overflow_def delimited_def n u32_try_from_ucast not_less length_encode diff_diff_eq)
qed

lemma read_bytes_append:
  "read_bytes W (length bs) (bs @ r) acc = Ok (acc @ map Val_U8 bs, r)"
  by (induction bs arbitrary: acc) (simp_all add: get_u8_law)

lemma map_val_byte: "\<forall>b \<in> set vs. (case b of Val_U8 _ \<Rightarrow> True | _ \<Rightarrow> False) \<Longrightarrow> map Val_U8 (map val_byte vs) = vs"
  by (induction vs) (auto split: val.splits)

lemma unat_of_nat_delimited: "length (delimited W b) \<le> unat (l :: u32) \<Longrightarrow> unat (of_nat (length b) :: u32) = length b"
  using le_less_trans [OF _ unat_u32_lt [of l], of "length b"]
  by (simp add: delimited_def unat_of_nat take_bit_eq_mod)

lemma int32_scast: "i32_try_from (int32_varint v) = (if 0 \<le> sint v then Some v else None)"
proof -
  have s: "- (2 ^ 31) \<le> sint v" "sint v < 2 ^ 31" using sint_greater_eq [of v] sint_less [of v] by simp_all
  have u: "uint (int32_varint v) = sint v mod 2 ^ 64"
  proof -
    have "int32_varint v = of_int (sint v)" by (simp add: int32_varint_def)
    then show ?thesis by (simp only: unsigned_of_int take_bit_eq_mod) simp
  qed
  show ?thesis
  proof (cases "0 \<le> sint v")
    case True
    with s have "uint (int32_varint v) = sint v" by (simp add: u)
    moreover have "(ucast (int32_varint v) :: i32) = v"
      by (rule bit_word_eqI) (simp add: int32_varint_def bit_unsigned_iff bit_signed_iff)
    ultimately show ?thesis using True s by (simp add: i32_try_from_def)
  next
    case False
    have "sint v mod 2 ^ 64 = (sint v + 2 ^ 64) mod 2 ^ 64" by simp
    also have "\<dots> = sint v + 2 ^ 64" using False s by (intro mod_pos_pos_trivial) simp_all
    finally have "sint v mod 2 ^ 64 = sint v + 2 ^ 64" .
    with False s u show ?thesis by (simp add: i32_try_from_def)
  qed
qed

lemma bytes_decode:
  assumes "\<forall>b \<in> set vs. (case b of Val_U8 _ \<Rightarrow> True | _ \<Rightarrow> False)"
    and "length (delimited W (map val_byte vs)) \<le> unat l"
  shows "bytes_decode_inner W l (delimited W (map val_byte vs) @ r)
    = Ok (Val_List vs, l - of_nat (length (delimited W (map val_byte vs))), r)"
  using read_length_delimited [OF assms(2), of r] read_bytes_append [of "map val_byte vs" r "[]"]
    unat_of_nat_delimited [OF assms(2)] map_val_byte [OF assms(1)]
  by (simp add: bytes_decode_inner_def)

lemma string_decode:
  assumes "length (delimited W (as_bytes s)) \<le> unat l"
  shows "string_utf8_decode_inner W l (delimited W (as_bytes s) @ r) =
      (if utf8_valid (as_bytes s) then Ok (Val_String s, l - of_nat (length (delimited W (as_bytes s))), r)
       else Err (DecodeError_new INVALID_UTF8))"
    "string_permissive_decode_inner W l (delimited W (as_bytes s) @ r)
      = Ok (Val_String s, l - of_nat (length (delimited W (as_bytes s))), r)"
  using read_length_delimited [OF assms, of r] unat_of_nat_delimited [OF assms]
  by (simp_all add: string_utf8_decode_inner_def string_permissive_decode_inner_def take_read_law)

lemma varint_decode:
  assumes "length (encode_varint W n) \<le> unat l"
  shows "read_varint W l (encode_varint W n @ r) err = Ok (n, l - of_nat (length (encode_varint W n)), r)"
  using read_varint_encode [of n l r err] assms by (simp add: length_encode)

lemma fixed_decode:
  "4 \<le> unat l \<Longrightarrow> fixed32_bits_decode W con l (put_u32_le W x @ r) = Ok (con x, l - 4, r)"
  "8 \<le> unat l \<Longrightarrow> fixed64_bits_decode W con' l (put_u64_le W y @ r) = Ok (con' y, l - 8, r)"
  by (simp_all add: fixed32_bits_decode_def fixed64_bits_decode_def get_put_u32 get_put_u64 word_le_nat_alt)

lemma bool_decode:
  "1 \<le> unat l \<Longrightarrow> bool_decode_inner W l ([if b then 1 else 0] @ r) = Ok (Val_Bool b, l - 1, r)"
  by (simp add: bool_decode_inner_def get_u8_law word_le_nat_alt)

lemmas inner_defs =
  int32_decode_inner_def sint32_decode_inner_def uint32_decode_inner_def int64_decode_inner_def
  sint64_decode_inner_def uint64_decode_inner_def sfixed32_decode_inner_def fixed32_decode_inner_def
  sfixed64_decode_inner_def fixed64_decode_inner_def float_decode_inner_def double_decode_inner_def

lemma decode_payload_iff:
  assumes "payload_ok k v" "length (payload W k v) \<le> unat l"
  shows "decode_inner W k l (payload W k v @ r) = Ok (v, l - of_nat (length (payload W k v)), r) \<longleftrightarrow> decodable k v"
proof (cases k)
  case Bytes
  with assms obtain vs where "v = Val_List vs" "\<forall>b \<in> set vs. (case b of Val_U8 _ \<Rightarrow> True | _ \<Rightarrow> False)"
    by (auto split: val.splits)
  with Bytes assms bytes_decode show ?thesis by simp
next
  case Bool
  with assms obtain b where b: "v = Val_Bool b" by auto
  have "1 \<le> unat l" using Bool assms(2) by simp
  from bool_decode [OF this, of b r] show ?thesis
    unfolding Bool b decode_inner.simps payload.simps bool_get.simps option.sel decodable.simps
    by (simp only: list.size) simp
next
  case Int32
  with assms show ?thesis by (auto simp: inner_defs varint_decode int32_scast)
next
  case Sint32
  with assms zigzag32_inverse show ?thesis
    by (auto simp: inner_defs varint_decode zigzag32_def u32_try_from_ucast)
next
  case Sint64
  with assms obtain x where x: "v = Val_S64 x" by auto
  then have "decode_inner W k l (payload W k v @ r)
      = Ok (Val_S64 (signed_drop_bit 1 (zigzag64 x) XOR (- (zigzag64 x AND 1))), l - of_nat (length (payload W k v)), r)"
    using Sint64 assms(2) by (simp add: sint64_decode_inner_def varint_decode)
  then show ?thesis
    using zigzag64_inverse [of x, folded zigzag64_def] by (simp only: Sint64 x) simp
qed (use assms in \<open>auto simp: inner_defs varint_decode u32_try_from_ucast fixed_decode string_decode
      length_put_u32 length_put_u64\<close>)

end

section \<open>Properties\<close>

text \<open>
  C5: A scalar payload written by the encoder is read back by the decoder as the same value, with exactly
  its bytes consumed, if and only if the value is \<open>decodable\<close>.
\<close>

theorem scalar_roundtrip:
  assumes "wire W" "payload_ok k v" "length (payload W k v) \<le> unat limit"
  shows "decode_inner W k limit (payload W k v @ rest)
      = Ok (v, limit - of_nat (length (payload W k v)), rest) \<longleftrightarrow> decodable k v"
  using assms by (rule wire.decode_payload_iff)

theorem scalar_roundtrip_witness:
  "decode_inner leb_lib Sint64 12 (payload leb_lib Sint64 (Val_S64 (- 3)) @ [7]) = Ok (Val_S64 (- 3), 11, [7])
   \<and> decode_inner leb_lib Sint64 12 (payload leb_lib Sint64 (Val_S64 0x8000000000000000) @ [7])
     \<noteq> Ok (Val_S64 0x8000000000000000, 2, [7])"
proof -
  have a: "length (payload leb_lib Sint64 (Val_S64 (- 3))) = 1" "decodable Sint64 (Val_S64 (- 3))"
    and b: "length (payload leb_lib Sint64 (Val_S64 0x8000000000000000)) = 10"
      "\<not> decodable Sint64 (Val_S64 0x8000000000000000)"
    by code_simp+
  show ?thesis
    using scalar_roundtrip [OF leb.wire_axioms, of Sint64 "Val_S64 (- 3)" 12 "[7]"]
      scalar_roundtrip [OF leb.wire_axioms, of Sint64 "Val_S64 0x8000000000000000" 12 "[7]"] a b
    by simp
qed

text \<open>
  A negative \<^verbatim>\<open>int32\<close> that the encoder wrote is always refused by the decoder.
\<close>

theorem negative_int32_refused:
  assumes "wire W" "sint n < 0" "length (payload W Int32 (Val_S32 n)) \<le> unat limit"
  shows "decode_inner W Int32 limit (payload W Int32 (Val_S32 n) @ rest) = Err (DecodeError_new OVERFLOW_32BIT)"
  using assms wire.varint_decode [OF assms(1)] by (simp add: int32_decode_inner_def wire.int32_scast [OF assms(1)])

theorem negative_int32_refused_witness:
  "decode_inner leb_lib Int32 20 (payload leb_lib Int32 (Val_S32 (- 1)) @ []) = Err (DecodeError_new OVERFLOW_32BIT)"
proof -
  have "length (payload leb_lib Int32 (Val_S32 (- 1))) = 10" by code_simp
  then show ?thesis using negative_int32_refused [OF leb.wire_axioms, of "- 1" 20 "[]"] by simp
qed

end
