(* ===== verification/Message_Codec.thy ===== *)
theory Message_Codec
  imports Encode_Spec Codec
begin

text \<open>
  Whole messages through the decoder. The bytes of a field are a sequence of occurrences, each a tag and
  the contents that the merger of the field reads; the loop of a message puts the values of the fields at
  their indices. For a message type with unique names and numbers the decoder returns the value whose wire
  format it is given, as long as every scalar in it survives (\<open>canonical\<close>).
\<close>

section \<open>Occurrences of a field\<close>

text \<open>The merger \<open>m\<close> reads exactly the contents \<open>c\<close> and turns the current value \<open>v\<close> of its field into \<open>v'\<close>.\<close>

definition reads :: "wire_lib \<Rightarrow> merger \<Rightarrow> wire_type \<Rightarrow> bytes \<Rightarrow> val \<Rightarrow> val \<Rightarrow> bool" where
  "reads W m wt c v v' \<longleftrightarrow>
     (\<forall>l s. length c \<le> unat l \<longrightarrow> merge_call W m wt l (c @ s) v = Ok (l - of_nat (length c), s, v'))"

inductive occurrences :: "wire_lib \<Rightarrow> merger \<Rightarrow> u32 \<Rightarrow> bytes \<Rightarrow> val \<Rightarrow> val \<Rightarrow> bool"
  for W :: wire_lib and m :: merger and n :: u32 where
  occ_Nil: "occurrences W m n [] v v"
| occ_Cons: "reads W m wt c v v' \<Longrightarrow> occurrences W m n bs v' v'' \<Longrightarrow>
     occurrences W m n (encode_varint W (tag n wt) @ c @ bs) v v''"

lemma occ_one: "reads W m wt c v v' \<Longrightarrow> occurrences W m n (encode_varint W (tag n wt) @ c) v v'"
  using occ_Cons [OF _ occ_Nil] by fastforce

text \<open>The loop of the message \<open>M\<close> returns \<open>r\<close> on any fuel that is enough for the limit.\<close>

definition runs ::
    "wire_lib \<Rightarrow> merger \<Rightarrow> u32 \<Rightarrow> bytes \<Rightarrow> (string \<times> val) list
      \<Rightarrow> (u32 \<times> bytes \<times> (string \<times> val) list, decode_error) outcome \<Rightarrow> bool" where
  "runs W M l s fl r \<longleftrightarrow> (\<forall>fuel. unat l \<le> fuel \<longrightarrow> message_loop W M fuel l s fl = r)"

lemma runs_end: "runs W M 0 s fl (Ok (0, s, fl))"
  by (simp add: runs_def message_loop.simps)

lemma unat_diff_of_nat: "n \<le> unat (l :: u32) \<Longrightarrow> unat (l - of_nat n) = unat l - n"
proof -
  assume n: "n \<le> unat l"
  then have "n < 4294967296" using unat_u32_lt [of l] by linarith
  then have u: "unat (of_nat n :: u32) = n" by (simp add: unat_of_nat take_bit_eq_mod)
  with n have "(of_nat n :: u32) \<le> l" by (simp add: word_le_nat_alt)
  then show ?thesis by (simp add: unat_sub u)
qed

context wire
begin

lemma decode_tag_encode:
  assumes "length (encode_varint W (tag n wt)) \<le> unat l"
  shows "decode_tag W l (encode_varint W (tag n wt) @ s) = Ok (n, wt, l - of_nat (length (encode_varint W (tag n wt))), s)"
  using varint_decode [OF assms, of s INVALID_TAG_VARINT] wire_number_u8_lt [of wt]
  by (simp add: decode_tag_def tag_number u32_try_from_ucast tag_wire Let_def not_le)

lemma runs_occurrence:
  assumes "map_of (merger_subfields (mg_compound M)) n = Some (i, m)" "unat i < length fl"
    and "reads W m wt c (snd (fl ! unat i)) v"
    and "length (encode_varint W (tag n wt) @ c) \<le> unat l"
    and "runs W M (l - of_nat (length (encode_varint W (tag n wt) @ c))) s (fl[unat i := (fst (fl ! unat i), v)]) r"
  shows "runs W M l (encode_varint W (tag n wt) @ c @ s) fl r"
  unfolding runs_def
proof (intro allI impI)
  fix fuel
  assume fuel: "unat l \<le> fuel"
  let ?t = "length (encode_varint W (tag n wt))" and ?l = "l - of_nat (length (encode_varint W (tag n wt) @ c))"
  have t: "0 < ?t" using encoded_len_bounds(1) [of "tag n wt"] by (simp add: length_encode)
  then obtain f where f: "fuel = Suc f" using assms(4) fuel by (cases fuel) simp_all
  have "length c \<le> unat (l - of_nat ?t)" using assms(4) by (simp add: unat_diff_of_nat)
  then have m: "merge_call W m wt (l - of_nat ?t) (c @ s) (snd (fl ! unat i)) = Ok (?l, s, v)"
    using assms(3) by (simp add: reads_def diff_diff_eq)
  have "unat ?l \<le> f" using unat_diff_of_nat [OF assms(4)] assms(4) fuel f t unfolding length_append by linarith
  then have "message_loop W M f ?l s (fl[unat i := (fst (fl ! unat i), v)]) = r"
    using assms(5) by (simp add: runs_def)
  moreover have "0 < unat l" using assms(4) t unfolding length_append by linarith
  then have "l > 0" by (simp add: word_less_nat_alt)
  ultimately show "message_loop W M fuel l (encode_varint W (tag n wt) @ c @ s) fl = r"
    unfolding f using assms(1,2) m decode_tag_encode [of n wt l "c @ s"] assms(4) by (subst message_loop.simps) simp
qed

lemma runs_occurrences:
  assumes "occurrences W m n bs v v'" "map_of (merger_subfields (mg_compound M)) n = Some (i, m)"
  shows "unat i < length fl \<Longrightarrow> snd (fl ! unat i) = v \<Longrightarrow> length bs \<le> unat l \<Longrightarrow>
    runs W M (l - of_nat (length bs)) s (fl[unat i := (fst (fl ! unat i), v')]) r \<Longrightarrow> runs W M l (bs @ s) fl r"
  using assms(1)
proof (induction arbitrary: l fl rule: occurrences.induct)
  case (occ_Nil v)
  have "fl[unat i := (fst (fl ! unat i), v)] = fl" unfolding occ_Nil(2) [symmetric] by simp
  with occ_Nil(4) show ?case by simp
next
  case (occ_Cons wt c v v' bs v'')
  let ?c = "encode_varint W (tag n wt) @ c" and ?fl = "fl[unat i := (fst (fl ! unat i), v')]"
  have len: "length ?c \<le> unat l" using occ_Cons.prems(3) by simp
  have "runs W M (l - of_nat (length ?c)) (bs @ s) ?fl r"
  proof (rule occ_Cons.IH)
    show "length bs \<le> unat (l - of_nat (length ?c))"
      using occ_Cons.prems(3) by (simp only: unat_diff_of_nat [OF len]) simp
    show "runs W M (l - of_nat (length ?c) - of_nat (length bs)) s (?fl[unat i := (fst (?fl ! unat i), v'')]) r"
      using occ_Cons.prems by (simp add: diff_diff_eq add.assoc)
  qed (use occ_Cons.prems in simp_all)
  then show ?case
    using runs_occurrence [OF assms(2), of fl wt c v' l "bs @ s" r] occ_Cons len by simp
qed

end

section \<open>Scalars and enumerations\<close>

text \<open>A payload that the inner decoder reads back, under each kind of presence.\<close>

locale inner_codec = wire W + inner_decoder inner
  for W :: wire_lib and inner :: "u32 \<Rightarrow> bytes \<Rightarrow> inner_result" +
  fixes good :: "val \<Rightarrow> bool" and pay :: "val \<Rightarrow> bytes" and wt :: "wire_type \<times> decode_message"
  assumes inner_pay: "good v \<Longrightarrow> length (pay v) \<le> unat l \<Longrightarrow>
    inner l (pay v @ r) = Ok (v, l - of_nat (length (pay v)), r)"
begin

lemma packed_loop_pay:
  "\<forall>x \<in> set xs. good x \<Longrightarrow> unat l = length (concat (map pay xs)) \<Longrightarrow> unat l \<le> fuel \<Longrightarrow>
     packed_loop inner fuel l (concat (map pay xs) @ r) items = Ok (items @ xs, r)"
proof (induction xs arbitrary: l fuel items)
  case Nil
  then have "l = 0" by (simp add: unat_eq_0)
  then show ?case by (cases fuel) simp_all
next
  case (Cons x xs)
  have le: "length (pay x) \<le> unat l" using Cons.prems(2) by simp
  have inner: "inner l (pay x @ concat (map pay xs) @ r)
      = Ok (x, l - of_nat (length (pay x)), concat (map pay xs) @ r)"
    using Cons.prems(1) le by (intro inner_pay) simp_all
  have u: "unat (l - of_nat (length (pay x))) = unat l - length (pay x)" by (rule unat_diff_of_nat [OF le])
  have less: "unat (l - of_nat (length (pay x))) < unat l"
    using inner_less [OF inner] by (simp add: word_less_nat_alt)
  then obtain f where f: "fuel = Suc f" using Cons.prems(3) by (cases fuel) simp_all
  have le_f: "unat (l - of_nat (length (pay x))) \<le> f" using less f Cons.prems(3) by linarith
  have "packed_loop inner f (l - of_nat (length (pay x))) (concat (map pay xs) @ r) (items @ [x]) = Ok (items @ x # xs, r)"
    using Cons.IH [OF _ _ le_f, of "items @ [x]"] Cons.prems(1,2) u by simp
  then show ?case using less inner f by (simp add: word_less_nat_alt)
qed

lemma explicit_reads:
  "merge_call W m = explicit_merge inner wt \<Longrightarrow> good x \<Longrightarrow> reads W m (fst wt) (pay x) v (Val_Option (Some x))"
  by (simp add: reads_def explicit_merge_def inner_pay)

lemma implicit_reads: "merge_call W m = implicit_merge inner wt \<Longrightarrow> good x \<Longrightarrow> reads W m (fst wt) (pay x) v x"
  by (simp add: reads_def implicit_merge_def inner_pay)

lemma repeated_reads:
  assumes "merge_call W m = stringy_repeated_merge inner \<and> fst wt = LengthDelimited
      \<or> merge_call W m = numeric_repeated_merge W inner wt \<and> fst wt \<noteq> LengthDelimited" "good x"
  shows "reads W m (fst wt) (pay x) (Val_List items) (Val_List (items @ [x]))"
  using assms by (auto simp: reads_def stringy_repeated_merge_def numeric_repeated_merge_def inner_pay)

lemma packed_reads:
  assumes "merge_call W m = numeric_repeated_merge W inner wt" "\<forall>x \<in> set xs. good x"
  shows "reads W m LengthDelimited (delimited W (concat (map pay xs))) (Val_List items) (Val_List (items @ xs))"
  unfolding reads_def
proof (intro allI impI)
  fix l :: u32 and s
  assume le: "length (delimited W (concat (map pay xs))) \<le> unat l"
  have "packed_loop inner (length (concat (map pay xs))) (of_nat (length (concat (map pay xs))))
      (concat (map pay xs) @ s) items = Ok (items @ xs, s)"
    using packed_loop_pay [OF assms(2), of "of_nat (length (concat (map pay xs)))"] unat_of_nat_delimited [OF le] by simp
  then show "merge_call W m LengthDelimited l (delimited W (concat (map pay xs)) @ s) (Val_List items)
      = Ok (l - of_nat (length (delimited W (concat (map pay xs)))), s, Val_List (items @ xs))"
    using read_length_delimited [OF le] unat_of_nat_delimited [OF le]
    by (simp add: assms(1) numeric_repeated_merge_def)
qed

lemma explicit_occurrences:
  assumes "merge_call W m = explicit_merge inner wt" "present_ok good Explicit v"
  shows "occurrences W m n (present_bytes W pay dflt Explicit (tag n (fst wt)) v) (Val_Option None) v"
  using assms occ_one [OF explicit_reads] by (auto split: val.splits option.splits intro: occ_Nil)

lemma implicit_occurrences:
  assumes "merge_call W m = implicit_merge inner wt" "if dflt v then v = d else good v"
  shows "occurrences W m n (present_bytes W pay dflt Implicit (tag n (fst wt)) v) d v"
  using assms occ_one [OF implicit_reads] by (auto split: if_splits intro: occ_Nil)

lemma packed_occurrences:
  assumes "merge_call W m = numeric_repeated_merge W inner wt" "present_ok good Packed v"
  shows "occurrences W m n (present_bytes W pay dflt Packed (tag n LengthDelimited) v) (Val_List []) v"
proof -
  from assms(2) obtain xs where v: "v = Val_List xs" and xs: "\<forall>x \<in> set xs. good x" by (auto split: val.splits)
  show ?thesis
    using occ_one [OF packed_reads [OF assms(1) xs, of "[]"], of n] unfolding v present_Packed
    by (auto intro: occ_Nil)
qed

lemma expanded_items_occurrences:
  assumes "\<And>x items. x \<in> set xs \<Longrightarrow> reads W m w (pay x) (Val_List items) (Val_List (items @ [x]))"
  shows "occurrences W m n (concat (map (\<lambda>x. encode_varint W (tag n w) @ pay x) xs)) (Val_List items) (Val_List (items @ xs))"
  using assms
proof (induction xs arbitrary: items)
  case Nil
  then show ?case by (simp add: occ_Nil)
next
  case (Cons x xs)
  have "occurrences W m n (encode_varint W (tag n w) @ pay x @ concat (map (\<lambda>x. encode_varint W (tag n w) @ pay x) xs))
      (Val_List items) (Val_List ((items @ [x]) @ xs))"
    using Cons.prems by (intro occ_Cons [OF Cons.prems Cons.IH]) simp_all
  then show ?case by simp
qed

lemma expanded_occurrences:
  assumes "merge_call W m = stringy_repeated_merge inner \<and> fst wt = LengthDelimited
      \<or> merge_call W m = numeric_repeated_merge W inner wt \<and> fst wt \<noteq> LengthDelimited" "present_ok good Expanded v"
  shows "occurrences W m n (present_bytes W pay dflt Expanded (tag n (fst wt)) v) (Val_List []) v"
  using assms(2) expanded_items_occurrences [OF repeated_reads [OF assms(1)], of _ n "[]"]
  by (auto split: val.splits)

end

sublocale wire \<subseteq> scalar_codec: inner_codec W "decode_inner W k" "\<lambda>v. payload_ok k v \<and> decodable k v" "payload W k"
    "merger_wire_type k" for k
  by unfold_locales (simp add: decode_payload_iff)

text \<open>The enumeration value has a number in the encoder \<open>e\<close>, which the merger \<open>m\<close> maps back to its name.\<close>

definition enum_survives :: "encoder \<Rightarrow> merger \<Rightarrow> val \<Rightarrow> bool" where
  "enum_survives e m v \<longleftrightarrow>
     (\<exists>n k. v = Val_Enum n \<and> map_of (variants (enc_compound e)) n = Some k
        \<and> map_of (enum_variants (mg_compound m)) k = Some n)"

sublocale wire \<subseteq> enum_codec: inner_codec W "enum_inner W m" "enum_survives e m" "enum_payload W e"
    "(Varint, WIRETYPE_NON_VARINT)" for e m
  by unfold_locales
    (auto simp: enum_survives_def enum_inner_def enum_payload_def varint_decode u32_try_from_ucast)

lemma enum_merge_eq:
  "enum_explicit_merge W m = explicit_merge (enum_inner W m) (Varint, WIRETYPE_NON_VARINT)"
  "enum_implicit_merge W m = implicit_merge (enum_inner W m) (Varint, WIRETYPE_NON_VARINT)"
  "enum_repeated_merge W m = numeric_repeated_merge W (enum_inner W m) (Varint, WIRETYPE_NON_VARINT)"
  by (simp_all add: fun_eq_iff enum_explicit_merge_def explicit_merge_def enum_implicit_merge_def implicit_merge_def
      enum_repeated_merge_def numeric_repeated_merge_def split: val.splits)

section \<open>Compiled mergers and encoders\<close>

definition field_numbers :: "field \<Rightarrow> u32 list" where
  "field_numbers s =
     (if field_coding s = Some (Compound_coding 8) then map field_number (field_subfields s) else [field_number s])"

text \<open>
  What \<^verbatim>\<open>protoc\<close> guarantees of a message type, at every level: the names are unique, and so are the numbers
  (those of the variants for a oneof). Enumerations have no aliases.
\<close>

fun schema_ok :: "field \<Rightarrow> bool" where
  "schema_ok (Field number name subs c) \<longleftrightarrow>
     distinct (map field_name subs) \<and> distinct (concat (map field_numbers subs)) \<and> int (length subs) < 2 ^ 32
     \<and> (c \<in> Some ` Compound_coding ` {0, 1, 2, 3} \<longrightarrow> distinct (map field_number subs)) \<and> list_all schema_ok subs"

lemma schema_ok_subs:
  "schema_ok f \<Longrightarrow> distinct (map field_name (field_subfields f))"
  "schema_ok f \<Longrightarrow> distinct (concat (map field_numbers (field_subfields f)))"
  "schema_ok f \<Longrightarrow> length (field_subfields f) < 2 ^ 32"
  "schema_ok f \<Longrightarrow> s \<in> set (field_subfields f) \<Longrightarrow> schema_ok s"
  by (cases f; simp add: list_all_iff)+

text \<open>The entries that one subfield adds to the map of a message merger, and its default.\<close>

definition merger_entries :: "nat \<Rightarrow> field \<Rightarrow> (u32 \<times> u32 \<times> merger) list" where
  "merger_entries i s =
     (case compile_message_field s of
        Inr (Some (m, d)) \<Rightarrow> [(field_number s, of_nat i, m)]
      | Inr None \<Rightarrow> map (\<lambda>w. (field_number w, of_nat i, projr (compile_oneof_variant w))) (field_subfields s)
      | Inl _ \<Rightarrow> [])"

definition merger_default :: "field \<Rightarrow> val" where
  "merger_default s = (case compile_message_field s of Inr (Some (m, d)) \<Rightarrow> d | _ \<Rightarrow> Val_Option None)"

lemma compile_oneof_loop_entries:
  "compile_oneof_loop number i ws acc = Inr m \<Longrightarrow>
     m = rev (map (\<lambda>w. (field_number w, of_nat i, projr (compile_oneof_variant w))) ws) @ acc
     \<and> (\<forall>w \<in> set ws. \<exists>v. compile_oneof_variant w = Inr v)"
  by (induction ws arbitrary: acc) (auto simp: ebind_Inr_iff simp del: compile_oneof_variant.simps)

lemma compile_message_loop_entries:
  "compile_message_loop i ss acc ds = Inr (m, ds') \<Longrightarrow>
     m = rev (concat (map (\<lambda>(j, s). merger_entries j s) (zip [i..<i + length ss] ss))) @ acc
     \<and> ds' = ds @ map (\<lambda>s. (field_name s, merger_default s)) ss
     \<and> (\<forall>s \<in> set ss. \<exists>r. compile_message_field s = Inr r
         \<and> (r = None \<longrightarrow> (\<forall>w \<in> set (field_subfields s). \<exists>v. compile_oneof_variant w = Inr v)))"
proof (induction ss arbitrary: i acc ds)
  case Nil
  then show ?case by simp
next
  case (Cons s ss)
  from Cons.prems obtain r where r: "compile_message_field s = Inr r"
    by (auto simp: ebind_Inr_iff simp del: compile_message_field.simps)
  have upt: "[i..<i + length (s # ss)] = i # [i + 1..<i + 1 + length ss]" by (subst upt_conv_Cons) (simp_all del: upt_Suc)
  show ?case
  proof (cases r)
    case None
    with Cons.prems r obtain m1 where m1: "compile_oneof_loop (field_number s) i (field_subfields s) acc = Inr m1"
      "compile_message_loop (i + 1) ss m1 (ds @ [(field_name s, Val_Option None)]) = Inr (m, ds')"
      by (auto simp: ebind_Inr_iff simp del: compile_message_field.simps)
    with Cons.IH [OF m1(2)] compile_oneof_loop_entries [OF m1(1)] r None show ?thesis
      unfolding upt by (simp add: merger_entries_def merger_default_def del: upt_Suc compile_message_field.simps compile_oneof_variant.simps)
  next
    case (Some p)
    obtain g d where p: "p = (g, d)" by fastforce
    from Cons.prems r Some p have m1: "compile_message_loop (i + 1) ss ((field_number s, of_nat i, g) # acc)
        (ds @ [(field_name s, d)]) = Inr (m, ds')"
      by (simp del: compile_message_field.simps)
    with Cons.IH [OF m1] r Some p show ?thesis
      unfolding upt by (simp add: merger_entries_def merger_default_def del: upt_Suc compile_message_field.simps)
  qed
qed

lemma compile_loop_entries:
  "compile_loop b ss acc = Inr m \<Longrightarrow>
     m = rev (map (\<lambda>s. (field_name s, projr (compile_subfield b s))) ss) @ acc
     \<and> (\<forall>s \<in> set ss. \<exists>e. compile_subfield b s = Inr e)"
  by (induction ss arbitrary: acc) (auto simp: ebind_Inr_iff simp del: compile_subfield.simps)

lemma merger_entries_numbers:
  assumes "compile_message_field s = Inr r"
  shows "map fst (merger_entries i s) = field_numbers s"
proof (cases r)
  case None
  with assms have "field_coding s = Some (Compound_coding 8)"
    by (auto simp: ebind_Inr_iff compound_coding_try_from_def Let_def
        split: option.splits coding.splits if_splits)
  with None assms show ?thesis
    by (simp add: merger_entries_def field_numbers_def o_def del: compile_message_field.simps)
next
  case (Some p)
  with assms have "field_coding s \<noteq> Some (Compound_coding 8)"
    by (auto simp: compound_coding_try_from_def)
  with Some assms show ?thesis
    by (cases p) (simp add: merger_entries_def field_numbers_def del: compile_message_field.simps)
qed

text \<open>The field and the index under which the loop of a compiled message finds the merger of an entry.\<close>

lemma compiled_lookup:
  assumes "compile_message f g = Inr M" "schema_ok f" "i < length (field_subfields f)"
    and "(n, of_nat i, m) \<in> set (merger_entries i (field_subfields f ! i))"
  shows "map_of (merger_subfields (mg_compound M)) n = Some (of_nat i, m)"
proof -
  let ?ss = "field_subfields f"
  let ?es = "concat (map (\<lambda>(j, s). merger_entries j s) (zip [0..<length ?ss] ?ss))"
  from assms(1) obtain ds where loop: "compile_message_loop 0 ?ss [] [] = Inr (merger_subfields (mg_compound M), ds)"
    by (cases f) (auto simp: ebind_Inr_iff)
  from compile_message_loop_entries [OF loop] have es: "merger_subfields (mg_compound M) = rev ?es"
    and c: "\<forall>s \<in> set ?ss. \<exists>r. compile_message_field s = Inr r"
    by (auto simp del: compile_message_field.simps compile_oneof_variant.simps)
  have "map fst ?es = concat (map (\<lambda>(j, s). map fst (merger_entries j s)) (zip [0..<length ?ss] ?ss))"
    by (simp add: map_concat o_def case_prod_unfold)
  also have "map (\<lambda>(j, s). map fst (merger_entries j s)) (zip [0..<length ?ss] ?ss)
      = map (\<lambda>(j, s). field_numbers s) (zip [0..<length ?ss] ?ss)"
    using c by (intro map_cong refl) (auto dest!: set_zip_rightD merger_entries_numbers
        simp del: compile_message_field.simps)
  also have "\<dots> = map field_numbers (map snd (zip [0..<length ?ss] ?ss))" by (simp only: map_map o_def case_prod_unfold)
  finally have "distinct (map fst (rev ?es))"
    using schema_ok_subs(2) [OF assms(2)] by (simp add: rev_map [symmetric])
  moreover have "(i, ?ss ! i) \<in> set (zip [0..<length ?ss] ?ss)"
    using assms(3) by (auto simp: set_zip intro!: exI [of _ i])
  with assms(4) have "(n, of_nat i, m) \<in> set (rev ?es)" by auto
  ultimately show ?thesis unfolding es by (rule map_of_is_SomeI)
qed

section \<open>Values that survive\<close>

fun scalar_canonical :: "scalar_kind \<Rightarrow> presence \<Rightarrow> val \<Rightarrow> bool" where
  "scalar_canonical k Implicit v = (if payload_default k v then v = implicit_default k else decodable k v)"
| "scalar_canonical k Explicit v = (case v of Val_Option (Some x) \<Rightarrow> decodable k x | _ \<Rightarrow> True)"
| "scalar_canonical k p v = (case v of Val_List xs \<Rightarrow> list_all (decodable k) xs | _ \<Rightarrow> True)"

lemma size_subfield: "w \<in> set (field_subfields s) \<Longrightarrow> size w < size s"
  by (cases s) (auto simp: less_Suc_eq_le intro: size_list_estimation')

text \<open>
  Every scalar of the value is one that the decoder reads back, no implicit field is a negative zero, and
  the fields of every record come in the order of their declaration.
\<close>

function (sequential) canonical :: "field \<Rightarrow> val \<Rightarrow> bool"
  and canonical_record :: "field list \<Rightarrow> (string \<times> val) list \<Rightarrow> bool" where
  "canonical s v =
     (case field_coding s of
        Some (Scalar_coding c) \<Rightarrow>
          (case scalar_coding_try_from c of Some (ScalarCoding k p) \<Rightarrow> scalar_canonical k p v | None \<Rightarrow> False)
      | Some (Compound_coding c) \<Rightarrow>
          (case compound_coding_try_from c of
             Some Message \<Rightarrow>
               (case v of Val_Option (Some (Val_Record fl)) \<Rightarrow> canonical_record (field_subfields s) fl | _ \<Rightarrow> True)
           | Some MessageExpanded \<Rightarrow>
               (case v of
                  Val_List xs \<Rightarrow>
                    list_all (\<lambda>x. case x of Val_Record fl \<Rightarrow> canonical_record (field_subfields s) fl | _ \<Rightarrow> True) xs
                | _ \<Rightarrow> True)
           | Some Oneof \<Rightarrow>
               (case v of
                  Val_Option (Some (Val_Variant n (Some x))) \<Rightarrow>
                    list_all (\<lambda>w. field_name w = n \<longrightarrow> canonical w (Val_Option (Some x))) (field_subfields s)
                | _ \<Rightarrow> True)
           | _ \<Rightarrow> True)
      | None \<Rightarrow> False)"
| "canonical_record [] [] = True"
| "canonical_record (s # ss) ((n, v) # fl) = (field_name s = n \<and> canonical s v \<and> canonical_record ss fl)"
| "canonical_record _ _ = False"
  by pat_completeness auto
termination
  by (relation "measure (\<lambda>x. case x of Inl (s, v) \<Rightarrow> 2 * size s + 1 | Inr (ss, fl) \<Rightarrow> 2 * size_list size ss)")
    (auto simp: less_Suc_eq size_field_subfields dest!: size_subfield)

declare canonical.simps [simp del]

section \<open>Scalar and enumeration fields\<close>

lemma kind_wire_type: "kind_wire_type k = fst (merger_wire_type k)" "stringy k \<longleftrightarrow> kind_wire_type k = LengthDelimited"
  by (cases k; simp)+

lemma packed_not_stringy: "scalar_coding_try_from c = Some (ScalarCoding k Packed) \<Longrightarrow> \<not> stringy k"
proof
  assume a: "scalar_coding_try_from c = Some (ScalarCoding k Packed)" "stringy k"
  then have c: "0 \<le> c" "c < 64" "c \<noteq> 1" "c \<noteq> 5" "c \<noteq> 9" "k = scalar_kinds ! nat (c div 4)"
      "presences ! nat (c mod 4) = Packed"
    by (auto simp: scalar_coding_try_from_def split: if_splits)
  have m: "c mod 4 = 1"
  proof -
    have "c mod 4 \<in> {0, 1, 2, 3}" by auto
    with c(7) show ?thesis by (auto simp: presences_def)
  qed
  have "\<forall>i \<in> set [0..<16]. stringy (scalar_kinds ! i) \<longrightarrow> i < 3" by code_simp
  then have "nat (c div 4) < 3" using a(2) c by auto
  then have "c div 4 < 3" by simp
  with c(1-5) m show False by presburger
qed

lemma merge_call_scalar: "merge_call W (fst (Merger_scalar (ScalarCoding k p))) = scalar_merge W k (scalar_shape p)"
  by (simp add: fun_eq_iff merge_call.simps Merger_scalar_def)

context wire
begin

lemma scalar_occurrences:
  assumes "scalar_coding_try_from c = Some (ScalarCoding k p)"
    and "present_ok (payload_ok k) p v" "scalar_canonical k p v"
  shows "occurrences W (fst (Merger_scalar (ScalarCoding k p))) n
    (present_bytes W (payload W k) (payload_default k) p (tag n (scalar_wire_type k p)) v) (scalar_default k p) v"
proof (cases p)
  case Implicit
  with assms show ?thesis
    using scalar_codec.implicit_occurrences [of _ k "payload_default k" v "implicit_default k"]
    by (simp add: merge_call_scalar scalar_wire_type_def kind_wire_type)
next
  case Explicit
  with assms have "present_ok (\<lambda>v. payload_ok k v \<and> decodable k v) Explicit v" by (auto split: val.splits option.splits)
  with Explicit show ?thesis
    using scalar_codec.explicit_occurrences [of _ k v] by (simp add: merge_call_scalar scalar_wire_type_def kind_wire_type)
next
  case Packed
  with assms have "present_ok (\<lambda>v. payload_ok k v \<and> decodable k v) Packed v"
    by (auto simp: list_all_iff split: val.splits)
  with Packed packed_not_stringy assms(1) show ?thesis
    using scalar_codec.packed_occurrences [of _ k v] by (simp add: merge_call_scalar scalar_wire_type_def)
next
  case Expanded
  with assms have "present_ok (\<lambda>v. payload_ok k v \<and> decodable k v) Expanded v"
    by (auto simp: list_all_iff split: val.splits)
  with Expanded show ?thesis
    using scalar_codec.expanded_occurrences [of _ k v] kind_wire_type(2) [of k]
    by (simp add: merge_call_scalar scalar_wire_type_def kind_wire_type)
qed

lemma scalar_explicit_reads:
  assumes "payload_ok k x" "decodable k x"
  shows "reads W (fst (Merger_scalar (ScalarCoding k Explicit))) (kind_wire_type k) (payload W k x) v (Val_Option (Some x))"
  using scalar_codec.explicit_reads [of _ k x v] assms by (simp add: merge_call_scalar kind_wire_type)

end

text \<open>Without aliases, the two maps of an enumeration are inverse to each other.\<close>

lemma compile_enum_loop_rev: "compile_enum_loop ss acc = rev (map (\<lambda>s. (field_name s, field_number s)) ss) @ acc"
  by (induction ss arbitrary: acc) simp_all

lemma merger_enum_loop_rev: "merger_enum_loop ss acc = rev (map (\<lambda>s. (field_number s, field_name s)) ss) @ acc"
  by (induction ss arbitrary: acc) simp_all

definition enum_schema :: "field \<Rightarrow> bool" where
  "enum_schema s \<longleftrightarrow> distinct (map field_name (field_subfields s)) \<and> distinct (map field_number (field_subfields s))"

lemma enum_inverse:
  assumes "enum_schema s"
  shows "map_of (compile_enum_variants s) n = Some k
    \<longleftrightarrow> map_of (enum_variants (mg_compound (merger_enum_variants s f))) k = Some n"
  using assms
  by (subst (1 2) map_of_eq_Some_iff)
    (auto simp: enum_schema_def compile_enum_variants_def merger_enum_variants_def compile_enum_loop_rev
      merger_enum_loop_rev o_def rev_map [symmetric])

lemma enum_ok_survives:
  assumes "enum_schema s" "variants (enc_compound e) = compile_enum_variants s" "enum_ok e v"
  shows "enum_survives e (merger_enum_variants s f) v"
  using assms(2,3) enum_inverse [OF assms(1)] by (auto simp: enum_survives_def split: val.splits)

lemma schema_ok_enum:
  "schema_ok s \<Longrightarrow> field_coding s = Some (Compound_coding c) \<Longrightarrow>
     compound_coding_try_from c \<in> Some ` {EnumImplicit, EnumPacked, EnumExplicit, EnumExpanded} \<Longrightarrow> enum_schema s"
  by (cases s) (auto simp: enum_schema_def compound_coding_try_from_def split: if_splits)

context wire
begin

lemma enum_occurrences:
  assumes "enum_schema s" and e: "variants (enc_compound e) = compile_enum_variants s"
  shows "present_ok (enum_ok e) Explicit v \<Longrightarrow> occurrences W (merger_enum_variants s Merge_enum_explicit) n
      (present_bytes W (enum_payload W e) (enum_default e) Explicit (tag n Varint) v) (Val_Option None) v" (is "_ \<Longrightarrow> ?E")
    and "present_ok (enum_ok e) Packed v \<Longrightarrow> occurrences W (merger_enum_variants s Merge_enum_repeated) n
      (present_bytes W (enum_payload W e) (enum_default e) Packed (tag n LengthDelimited) v) (Val_List []) v" (is "_ \<Longrightarrow> ?P")
    and "present_ok (enum_ok e) Expanded v \<Longrightarrow> occurrences W (merger_enum_variants s Merge_enum_repeated) n
      (present_bytes W (enum_payload W e) (enum_default e) Expanded (tag n Varint) v) (Val_List []) v" (is "_ \<Longrightarrow> ?X")
    and "enum_ok e v \<Longrightarrow> map_of (enum_variants (mg_compound (merger_enum_variants s Merge_enum_implicit))) 0 = Some z \<Longrightarrow>
      occurrences W (merger_enum_variants s Merge_enum_implicit) n
        (present_bytes W (enum_payload W e) (enum_default e) Implicit (tag n Varint) v) (Val_Enum z) v" (is "_ \<Longrightarrow> _ \<Longrightarrow> ?I")
proof -
  note ok = enum_ok_survives [OF assms]
  have calls: "merge_call W (merger_enum_variants s Merge_enum_explicit) = enum_explicit_merge W (merger_enum_variants s Merge_enum_explicit)"
    "merge_call W (merger_enum_variants s Merge_enum_implicit) = enum_implicit_merge W (merger_enum_variants s Merge_enum_implicit)"
    "merge_call W (merger_enum_variants s Merge_enum_repeated) = enum_repeated_merge W (merger_enum_variants s Merge_enum_repeated)"
    by (simp_all add: fun_eq_iff merge_call.simps merger_enum_variants_def)
  note calls = calls [unfolded enum_merge_eq]
  {
    assume "present_ok (enum_ok e) Explicit v"
    then have "present_ok (enum_survives e (merger_enum_variants s Merge_enum_explicit)) Explicit v"
      using ok by (auto split: val.splits option.splits simp del: enum_ok.simps)
    from enum_codec.explicit_occurrences [OF calls(1) this] show ?E by simp
  next
    assume "present_ok (enum_ok e) Packed v"
    then have "present_ok (enum_survives e (merger_enum_variants s Merge_enum_repeated)) Packed v"
      using ok by (auto split: val.splits simp del: enum_ok.simps)
    from enum_codec.packed_occurrences [OF calls(3) this] show ?P by simp
  next
    assume "present_ok (enum_ok e) Expanded v"
    then have "present_ok (enum_survives e (merger_enum_variants s Merge_enum_repeated)) Expanded v"
      using ok by (auto split: val.splits simp del: enum_ok.simps)
    from enum_codec.expanded_occurrences [OF disjI2 this] show ?X using calls(3) by simp
  next
    assume v: "enum_ok e v" and z: "map_of (enum_variants (mg_compound (merger_enum_variants s Merge_enum_implicit))) 0 = Some z"
    from v obtain x k where x: "v = Val_Enum x" "map_of (variants (enc_compound e)) x = Some k" by (rule enum_okE)
    then have "if enum_default e v then v = Val_Enum z else enum_survives e (merger_enum_variants s Merge_enum_implicit) v"
      using ok [OF v] z enum_inverse [OF assms(1), of x k Merge_enum_implicit] e by (auto simp: enum_default_def)
    from enum_codec.implicit_occurrences [where dflt = "enum_default e", OF calls(2) this] show ?I by simp
  }
qed

end

section \<open>Messages\<close>

text \<open>
  What the induction over the message type shows: the contents of a message of type \<open>s\<close> are read back, an
  explicitly present item of field \<open>s\<close> is one occurrence, and any value of field \<open>s\<close> is a sequence of
  occurrences of one of the entries that the field has in the merger of its message.
\<close>

definition message_decodes :: "wire_lib \<Rightarrow> field \<Rightarrow> bool" where
  "message_decodes W f \<longleftrightarrow>
     (\<forall>m e g M fl b s. compile_compound f False = Inr m \<longrightarrow> enc_compound e = Subfields m \<longrightarrow>
        compile_message f g = Inr M \<longrightarrow> wire_fields W e fl = Some b \<longrightarrow>
        canonical_record (field_subfields f) fl \<longrightarrow> length b < 2 ^ 32 \<longrightarrow>
        message_inner_merge W M (of_nat (length b)) (b @ s) (Val_Record (mg_defaults M)) = Ok (0, s, Val_Record fl))"

definition item_decodes :: "wire_lib \<Rightarrow> field \<Rightarrow> bool" where
  "item_decodes W w \<longleftrightarrow>
     (\<forall>e m x b. compile_subfield True w = Inr e \<longrightarrow> compile_message_field w = Inr (Some (m, Val_Option None)) \<longrightarrow>
        wire_bytes W e (Val_Option (Some x)) = Some b \<longrightarrow> canonical w (Val_Option (Some x)) \<longrightarrow> length b < 2 ^ 32 \<longrightarrow>
        (\<exists>wt c. b = encode_varint W (tag (field_number w) wt) @ c \<and> reads W m wt c (Val_Option None) (Val_Option (Some x))))"

definition field_decodes :: "wire_lib \<Rightarrow> field \<Rightarrow> bool" where
  "field_decodes W s \<longleftrightarrow>
     (\<forall>e r v b. compile_subfield False s = Inr e \<longrightarrow> compile_message_field s = Inr r \<longrightarrow>
        (r = None \<longrightarrow> (\<forall>w \<in> set (field_subfields s). \<exists>m. compile_oneof_variant w = Inr m)) \<longrightarrow>
        wire_bytes W e v = Some b \<longrightarrow> canonical s v \<longrightarrow> length b < 2 ^ 32 \<longrightarrow>
        b = [] \<and> v = merger_default s
        \<or> (\<exists>n m. (\<forall>i. (n, of_nat i, m) \<in> set (merger_entries i s)) \<and> occurrences W m n b (merger_default s) v))"

lemma list_update_append_middle: "length xs = i \<Longrightarrow> (xs @ y # ys)[i := z] = xs @ z # ys"
  by (induction xs arbitrary: i) (auto split: nat.split)

lemma nth_append_middle: "length xs = i \<Longrightarrow> (xs @ y # ys) ! i = y"
  by (simp add: nth_append)

context wire
begin

lemma runs_field:
  assumes "occurrences W m k b1 d v" "map_of (merger_subfields (mg_compound M)) k = Some (of_nat (length pre), m)"
    and "length pre < 2 ^ 32" "length (b1 @ b2) < 2 ^ 32"
    and "runs W M (of_nat (length b2)) (b2 @ s) (pre @ (n, v) # rest) r"
  shows "runs W M (of_nat (length (b1 @ b2))) (b1 @ b2 @ s) (pre @ (n, d) # rest) r"
proof -
  let ?fl = "pre @ (n, d) # rest"
  have i: "unat (of_nat (length pre) :: u32) = length pre" using assms(3) by (simp add: unat_of_nat take_bit_eq_mod)
  have l: "unat (of_nat (length (b1 @ b2)) :: u32) = length (b1 @ b2)"
    using assms(4) by (simp only: unat_of_nat take_bit_eq_mod) simp
  show ?thesis
  proof (rule runs_occurrences [OF assms(1,2)])
    show "runs W M (of_nat (length (b1 @ b2)) - of_nat (length b1)) (b2 @ s)
        (?fl[unat (of_nat (length pre) :: u32) := (fst (?fl ! unat (of_nat (length pre) :: u32)), v)]) r"
      using assms(5) unfolding i by (simp add: nth_append_middle list_update_append_middle)
    show "length b1 \<le> unat (of_nat (length (b1 @ b2)) :: u32)" unfolding l by simp
  qed (simp_all add: i nth_append_middle)
qed

lemma runs_fields:
  assumes lookup: "\<And>i n m. i < length ss \<Longrightarrow> (n, of_nat i, m) \<in> set (merger_entries i (ss ! i)) \<Longrightarrow>
      map_of (merger_subfields (mg_compound M)) n = Some (of_nat i, m)"
    and fields: "\<And>s. s \<in> set ss \<Longrightarrow> field_decodes W s"
    and merger: "\<And>s. s \<in> set ss \<Longrightarrow> \<exists>r. compile_message_field s = Inr r
        \<and> (r = None \<longrightarrow> (\<forall>w \<in> set (field_subfields s). \<exists>v. compile_oneof_variant w = Inr v))"
    and enc: "\<And>s. s \<in> set ss \<Longrightarrow> \<exists>e'. compile_subfield False s = Inr e' \<and>
        map_of (subfields (enc_compound e)) (field_name s) = Some e'"
    and len: "length ss < 2 ^ 32"
  shows "ss = ss1 @ ss2 \<Longrightarrow> length pre = length ss1 \<Longrightarrow> canonical_record ss2 fl \<Longrightarrow> wire_fields W e fl = Some b \<Longrightarrow>
    length b < 2 ^ 32 \<Longrightarrow>
    runs W M (of_nat (length b)) (b @ s') (pre @ map (\<lambda>s. (field_name s, merger_default s)) ss2) (Ok (0, s', pre @ fl))"
proof (induction ss2 fl arbitrary: ss1 pre b rule: list_induct2')
  case 1
  then show ?case by (simp add: runs_end)
next
  case (4 s ss2 p fl)
  obtain n v where p: "p = (n, v)" by fastforce
  have s: "s \<in> set ss" "ss ! length pre = s" "length pre < length ss" using "4.prems"(1,2) by (auto simp: nth_append)
  from "4.prems"(3) p have c: "n = field_name s" "canonical s v" "canonical_record ss2 fl" by auto
  from enc [OF s(1)] obtain e' where e': "compile_subfield False s = Inr e'"
    "map_of (subfields (enc_compound e)) n = Some e'" unfolding c(1) by blast
  with "4.prems"(4) p obtain b1 b2 where b: "wire_bytes W e' v = Some b1" "wire_fields W e fl = Some b2" "b = b1 @ b2"
    by (auto simp: opt_append_Some)
  have lens: "length b1 < 2 ^ 32" "length b2 < 2 ^ 32" using "4.prems"(5) b(3) by simp_all
  let ?rest = "map (\<lambda>s. (field_name s, merger_default s)) ss2"
  have IH: "runs W M (of_nat (length b2)) (b2 @ s') ((pre @ [p]) @ ?rest) (Ok (0, s', (pre @ [p]) @ fl))"
    using "4.prems" c b lens by (intro "4.IH" [of "ss1 @ [s]"]) simp_all
  from merger [OF s(1)] obtain r where r: "compile_message_field s = Inr r"
    "r = None \<longrightarrow> (\<forall>w \<in> set (field_subfields s). \<exists>v. compile_oneof_variant w = Inr v)" by blast
  from fields [OF s(1)] e'(1) r b(1) c(2) lens(1) consider "b1 = []" "v = merger_default s"
    | k m where "\<forall>i. (k, of_nat i, m) \<in> set (merger_entries i s)" "occurrences W m k b1 (merger_default s) v"
    unfolding field_decodes_def by blast
  then show ?case
  proof cases
    case 1
    with IH b(3) c(1) p show ?thesis by simp
  next
    case (2 k m)
    have "runs W M (of_nat (length (b1 @ b2))) (b1 @ b2 @ s') (pre @ (n, merger_default s) # ?rest) (Ok (0, s', pre @ p # fl))"
      using 2(2) lookup [OF s(3)] 2(1) s len IH p "4.prems"(5) b(3) by (intro runs_field) auto
    then show ?thesis by (simp add: b(3) c(1))
  qed
qed simp_all

lemma message_decodes_fields:
  assumes "schema_ok f" "\<And>s. s \<in> set (field_subfields f) \<Longrightarrow> field_decodes W s"
  shows "message_decodes W f"
  unfolding message_decodes_def
proof (intro allI impI)
  fix m e g M fl b s
  let ?ss = "field_subfields f"
  assume m: "compile_compound f False = Inr m" and e: "enc_compound e = Subfields m" and M: "compile_message f g = Inr M"
    and fl: "wire_fields W e fl = Some b" "canonical_record ?ss fl" and len: "length b < 2 ^ 32"
  from M obtain mm ds where loop: "compile_message_loop 0 ?ss [] [] = Inr (mm, ds)" and Md: "mg_defaults M = ds"
    by (cases f) (auto simp: ebind_Inr_iff)
  note loop = compile_message_loop_entries [OF loop]
  have ds: "mg_defaults M = map (\<lambda>s. (field_name s, merger_default s)) ?ss" using loop Md by simp
  from m have mloop: "compile_loop False ?ss [] = Inr m" by (cases f) simp
  note enc = compile_loop_entries [OF mloop]
  have "distinct (map fst m)" using enc schema_ok_subs(1) [OF assms(1)] by (simp add: rev_map [symmetric] o_def)
  then have enc': "\<exists>e'. compile_subfield False s = Inr e' \<and> map_of (subfields (enc_compound e)) (field_name s) = Some e'"
    if "s \<in> set ?ss" for s
    using that enc unfolding e by (force intro!: map_of_is_SomeI simp del: compile_subfield.simps)
  have "runs W M (of_nat (length b)) (b @ s) ([] @ map (\<lambda>s. (field_name s, merger_default s)) ?ss) (Ok (0, s, [] @ fl))"
    using loop schema_ok_subs(3) [OF assms(1)] fl len
    by (intro runs_fields [of ?ss M e "[]" ?ss "[]" fl b s] compiled_lookup [OF M assms(1)] assms(2) enc') auto
  then have "message_loop W M (unat (of_nat (length b) :: u32)) (of_nat (length b)) (b @ s) (mg_defaults M) = Ok (0, s, fl)"
    unfolding runs_def ds by simp
  then show "message_inner_merge W M (of_nat (length b)) (b @ s) (Val_Record (mg_defaults M)) = Ok (0, s, Val_Record fl)"
    by (simp add: message_inner_merge.simps)
qed

text \<open>A submessage in its own length-delimited record.\<close>

lemma submessage_reads:
  assumes "message_decodes W f" "compile_compound f False = Inr m" "enc_compound e = Subfields m"
    and "compile_message f g = Inr M" "wire_message W e x = Some b" "length b < 2 ^ 32"
    and "\<And>fl. x = Val_Record fl \<Longrightarrow> canonical_record (field_subfields f) fl"
  shows "g = Merge_message_outer \<Longrightarrow> reads W M LengthDelimited (delimited W b) v (Val_Option (Some x))"
    and "g = Merge_message_repeated \<Longrightarrow>
      reads W M LengthDelimited (delimited W b) (Val_List items) (Val_List (items @ [x]))"
proof -
  from assms(5) obtain fl where x: "x = Val_Record fl" and fl: "wire_fields W e fl = Some b"
    by (auto simp: wire_message.simps split: val.splits)
  have inner: "message_inner_merge W M (of_nat (length b)) (b @ s) (Val_Record (mg_defaults M)) = Ok (0, s, x)" for s
    using assms(1-4,6,7) x fl unfolding message_decodes_def by blast
  have g: "mg_merge M = g" using assms(4) by (cases f) (auto simp: ebind_Inr_iff)
  show "reads W M LengthDelimited (delimited W b) v (Val_Option (Some x))" if "g = Merge_message_outer"
    using g that read_length_delimited [of b] inner by (simp add: reads_def merge_call.simps)
  show "reads W M LengthDelimited (delimited W b) (Val_List items) (Val_List (items @ [x]))" if "g = Merge_message_repeated"
    using g that read_length_delimited [of b] inner by (simp add: reads_def merge_call.simps)
qed

lemma enum_explicit_reads:
  assumes "enum_schema s" "variants (enc_compound e) = compile_enum_variants s" "enum_ok e x"
  shows "reads W (merger_enum_variants s Merge_enum_explicit) Varint (enum_payload W e x) v (Val_Option (Some x))"
proof -
  have "merge_call W (merger_enum_variants s Merge_enum_explicit)
      = explicit_merge (enum_inner W (merger_enum_variants s Merge_enum_explicit)) (Varint, WIRETYPE_NON_VARINT)"
    unfolding enum_merge_eq [symmetric] by (simp add: fun_eq_iff merge_call.simps merger_enum_variants_def)
  from enum_codec.explicit_reads [OF this enum_ok_survives [OF assms]] show ?thesis by simp
qed

lemma wire_items_occurrences:
  assumes "message_decodes W f" "compile_compound f False = Inr m" "enc_compound e = Subfields m"
    and "compile_message f Merge_message_repeated = Inr M" "enc_tag e = tag n LengthDelimited"
  shows "wire_items W e xs = Some b \<Longrightarrow> length b < 2 ^ 32 \<Longrightarrow>
    (\<And>fl. Val_Record fl \<in> set xs \<Longrightarrow> canonical_record (field_subfields f) fl) \<Longrightarrow>
    occurrences W M n b (Val_List items) (Val_List (items @ xs))"
proof (induction xs arbitrary: b items)
  case Nil
  then show ?case by (simp add: occ_Nil)
next
  case (Cons x xs)
  then obtain c b' where c: "wire_message W e x = Some c" "wire_items W e xs = Some b'"
    and b: "b = encode_varint W (tag n LengthDelimited) @ delimited W c @ b'"
    by (auto simp: opt_append_Some assms(5))
  have len: "length c < 2 ^ 32" "length b' < 2 ^ 32" using Cons.prems(2) b by (simp_all add: delimited_def)
  have "reads W M LengthDelimited (delimited W c) (Val_List items) (Val_List (items @ [x]))"
    using Cons.prems(3) by (intro submessage_reads(2) [OF assms(1-4) c(1) len(1)]) simp_all
  moreover have "occurrences W M n b' (Val_List (items @ [x])) (Val_List ((items @ [x]) @ xs))"
    using Cons.prems(3) by (intro Cons.IH c len) simp
  ultimately show ?case unfolding b by (metis occ_Cons append.assoc append_Cons append_Nil)
qed

end

lemma compile_oneof_variantD:
  assumes "compile_oneof_variant w = Inr vm"
  obtains m where "vm = Merger Merge_oneof_variant [] (Merger_oneof_variant (field_name w) m)"
    "compile_message_field w = Inr (Some (m, Val_Option None))"
proof (cases "field_coding w")
  case None
  with assms show ?thesis by simp
next
  case (Some c)
  show ?thesis
  proof (cases c)
    case (Scalar_coding n)
    with assms Some obtain sc where sc: "scalar_coding_try_from n = Some sc" "explicit_scalar n"
      "vm = Merger Merge_oneof_variant [] (Merger_oneof_variant (field_name w) (fst (Merger_scalar sc)))"
      by (auto simp: ebind_Inr_iff split: if_splits option.splits)
    obtain k p where kp: "sc = ScalarCoding k p" by (cases sc)
    have "p = Explicit" using explicit_scalar_iff [of n k p] sc kp by simp
    with sc kp Some Scalar_coding show ?thesis by (intro that) (simp_all add: Merger_scalar_def)
  next
    case (Compound_coding n)
    with assms Some show ?thesis
      by (auto simp: ebind_Inr_iff intro: that split: option.splits compound_coding.splits)
  qed
qed

lemma compile_variantE:
  assumes "compile_subfield True w = Inr e"
  obtains (scalar) n k where "field_coding w = Some (Scalar_coding n)"
      "scalar_coding_try_from n = Some (ScalarCoding k Explicit)" "e = Encoder_scalar (ScalarCoding k Explicit) (field_number w)"
    | (enumeration) "field_coding w = Some (Compound_coding 2)" "e = Encoder_enum_explicit w"
    | (message) m where "field_coding w = Some (Compound_coding 6)" "compile_compound w False = Inr m"
      "e = Encoder_message_outer w m"
proof (cases "field_coding w")
  case None
  with assms show ?thesis by simp
next
  case (Some c)
  show ?thesis
  proof (cases c)
    case (Scalar_coding n)
    with assms Some obtain sc where sc: "scalar_coding_try_from n = Some sc" "explicit_scalar n"
      "e = Encoder_scalar sc (field_number w)"
      by (auto split: if_splits option.splits)
    obtain k p where kp: "sc = ScalarCoding k p" by (cases sc)
    have "p = Explicit" using explicit_scalar_iff [of n k p] sc kp by simp
    with sc kp Some Scalar_coding show ?thesis by (intro scalar) simp_all
  next
    case (Compound_coding n)
    with assms Some have "n = 6 \<or> n = 2" by (auto split: if_splits)
    with assms Some Compound_coding show ?thesis
      by (auto simp: compound_coding_try_from_def ebind_Inr_iff intro: enumeration message)
  qed
qed

text \<open>A oneof merger wraps the value that the merger of the variant reads.\<close>

lemma oneof_reads:
  assumes "reads W m wt c (Val_Option None) (Val_Option (Some x))"
  shows "reads W (Merger Merge_oneof_variant [] (Merger_oneof_variant n m)) wt c v (Val_Option (Some (Val_Variant n (Some x))))"
  using assms by (simp add: reads_def merge_call.simps [of W "Merger Merge_oneof_variant [] (Merger_oneof_variant n m)"])

lemma wire_bytes_enum:
  "wire_bytes W (Encoder_enum_implicit s) v = Some b \<Longrightarrow> enum_ok (Encoder_enum_implicit s) v \<and>
     b = present_bytes W (enum_payload W (Encoder_enum_implicit s)) (enum_default (Encoder_enum_implicit s)) Implicit (tag (field_number s) Varint) v"
  "wire_bytes W (Encoder_enum_explicit s) v = Some b \<Longrightarrow> present_ok (enum_ok (Encoder_enum_explicit s)) Explicit v \<and>
     b = present_bytes W (enum_payload W (Encoder_enum_explicit s)) (enum_default (Encoder_enum_explicit s)) Explicit (tag (field_number s) Varint) v"
  "wire_bytes W (Encoder_enum_packed s) v = Some b \<Longrightarrow> present_ok (enum_ok (Encoder_enum_packed s)) Packed v \<and>
     b = present_bytes W (enum_payload W (Encoder_enum_packed s)) (enum_default (Encoder_enum_packed s)) Packed (tag (field_number s) LengthDelimited) v"
  "wire_bytes W (Encoder_enum_expanded s) v = Some b \<Longrightarrow> present_ok (enum_ok (Encoder_enum_expanded s)) Expanded v \<and>
     b = present_bytes W (enum_payload W (Encoder_enum_expanded s)) (enum_default (Encoder_enum_expanded s)) Expanded (tag (field_number s) Varint) v"
  by (auto simp: wire_bytes.simps present_opt_def Encoder_enum_implicit_def Encoder_enum_explicit_def
      Encoder_enum_packed_def Encoder_enum_expanded_def simp del: enum_ok.simps present_bytes.simps
      split: if_split_asm)

lemma enum_encoder_variants:
  "variants (enc_compound (Encoder_enum_implicit s)) = compile_enum_variants s"
  "variants (enc_compound (Encoder_enum_explicit s)) = compile_enum_variants s"
  "variants (enc_compound (Encoder_enum_packed s)) = compile_enum_variants s"
  "variants (enc_compound (Encoder_enum_expanded s)) = compile_enum_variants s"
  by (simp_all add: Encoder_enum_implicit_def Encoder_enum_explicit_def Encoder_enum_packed_def Encoder_enum_expanded_def)

lemma wire_bytes_outer:
  assumes "wire_bytes W (Encoder_message_outer s m) v = Some b"
  obtains "v = Val_Option None" "b = []"
    | x c where "v = Val_Option (Some x)" "wire_message W (Encoder_message_outer s m) x = Some c"
      "b = encode_varint W (tag (field_number s) LengthDelimited) @ delimited W c"
  using assms
  by (subst (asm) wire_bytes.simps) (auto simp: Encoder_message_outer_def split: val.splits option.splits)

lemma wire_bytes_repeated:
  assumes "wire_bytes W (Encoder_message_repeated s m) v = Some b"
  obtains xs where "v = Val_List xs" "wire_items W (Encoder_message_repeated s m) xs = Some b"
  using assms
  by (subst (asm) wire_bytes.simps) (auto simp: Encoder_message_repeated_def split: val.splits)

lemma wire_bytes_oneof:
  assumes "wire_bytes W (Encoder_oneof m) v = Some b"
  obtains "v = Val_Option None" "b = []"
    | n x e where "v = Val_Option (Some (Val_Variant n (Some x)))" "map_of m n = Some e"
      "wire_bytes W e (Val_Option (Some x)) = Some b"
  using assms
  by (subst (asm) wire_bytes.simps) (auto simp: Encoder_oneof_def split: val.splits option.splits)

context wire
begin

lemma item_decodes_message:
  assumes "schema_ok w" "message_decodes W w"
  shows "item_decodes W w"
  unfolding item_decodes_def
proof (intro allI impI)
  fix e m x b
  assume e: "compile_subfield True w = Inr e" and m: "compile_message_field w = Inr (Some (m, Val_Option None))"
    and b: "wire_bytes W e (Val_Option (Some x)) = Some b" and c: "canonical w (Val_Option (Some x))" and len: "length b < 2 ^ 32"
  let ?goal = "\<exists>wt c. b = encode_varint W (tag (field_number w) wt) @ c \<and> reads W m wt c (Val_Option None) (Val_Option (Some x))"
  from e consider n k where "field_coding w = Some (Scalar_coding n)" "scalar_coding_try_from n = Some (ScalarCoding k Explicit)"
      "e = Encoder_scalar (ScalarCoding k Explicit) (field_number w)"
    | "field_coding w = Some (Compound_coding 2)" "e = Encoder_enum_explicit w"
    | mm where "field_coding w = Some (Compound_coding 6)" "compile_compound w False = Inr mm" "e = Encoder_message_outer w mm"
    by (rule compile_variantE)
  then show ?goal
  proof cases
    case (1 n k)
    then have "payload_ok k x" "b = encode_varint W (tag (field_number w) (kind_wire_type k)) @ payload W k x"
      using b by (auto simp: wire_bytes.simps Encoder_scalar_def present_opt_def scalar_wire_type_def split: if_splits)
    moreover have "m = fst (Merger_scalar (ScalarCoding k Explicit))" using m 1 by (simp add: Merger_scalar_def)
    moreover have "decodable k x" using c 1 by (simp add: canonical.simps)
    ultimately show ?thesis using scalar_explicit_reads by blast
  next
    case 2
    then have "enum_ok e x" "b = encode_varint W (tag (field_number w) Varint) @ enum_payload W e x"
      using b by (auto simp: wire_bytes.simps Encoder_enum_explicit_def present_opt_def simp del: enum_ok.simps split: if_splits)
    moreover have "m = merger_enum_variants w Merge_enum_explicit" using m 2 by (simp add: compound_coding_try_from_def)
    moreover have "enum_schema w" using schema_ok_enum [OF assms(1)] 2 by (simp add: compound_coding_try_from_def)
    ultimately show ?thesis using enum_explicit_reads [of w e x] 2(2) by (auto simp: Encoder_enum_explicit_def)
  next
    case (3 mm)
    from b [unfolded 3(3)] obtain d where d: "wire_message W e x = Some d"
      "b = encode_varint W (tag (field_number w) LengthDelimited) @ delimited W d"
      by (rule wire_bytes_outer) (auto simp: 3(3))
    have "compile_message w Merge_message_outer = Inr m"
      using m 3 by (auto simp: compound_coding_try_from_def ebind_Inr_iff)
    then have "reads W m LengthDelimited (delimited W d) (Val_Option None) (Val_Option (Some x))"
      using assms(2) 3 d len c
      by (intro submessage_reads(1)) (auto simp: Encoder_message_outer_def delimited_def canonical.simps compound_coding_try_from_def)
    with d(2) show ?thesis by blast
  qed
qed

lemma enum_field_occurrences:
  assumes "enum_schema s" "field_coding s = Some (Compound_coding c)" "compound_coding_try_from c = Some cc"
    and cc: "cc \<in> {EnumImplicit, EnumPacked, EnumExplicit, EnumExpanded}"
    and "compile_subfield False s = Inr e" "compile_message_field s = Inr (Some (m, d))" "wire_bytes W e v = Some b"
  shows "occurrences W m (field_number s) b d v"
proof (cases cc)
  case EnumImplicit
  with assms(2,3,5,6) obtain z where z:
    "map_of (enum_variants (mg_compound (merger_enum_variants s Merge_enum_implicit))) 0 = Some z"
    "e = Encoder_enum_implicit s" "m = merger_enum_variants s Merge_enum_implicit" "d = Val_Enum z"
    by (auto simp: Let_def split: option.splits)
  with assms(7) wire_bytes_enum(1) [of W s v b] show ?thesis
    using enum_occurrences(4) [OF assms(1) enum_encoder_variants(1) _ z(1), of v]
    by (simp del: enum_ok.simps present_bytes.simps)
next
  case EnumPacked
  with assms(2,3,5-7) wire_bytes_enum(3) [of W s v b] show ?thesis
    using enum_occurrences(2) [OF assms(1) enum_encoder_variants(3), of v] by (simp del: present_bytes.simps present_ok.simps)
next
  case EnumExplicit
  with assms(2,3,5-7) wire_bytes_enum(2) [of W s v b] show ?thesis
    using enum_occurrences(1) [OF assms(1) enum_encoder_variants(2), of v] by (simp del: present_bytes.simps present_ok.simps)
next
  case EnumExpanded
  with assms(2,3,5-7) wire_bytes_enum(4) [of W s v b] show ?thesis
    using enum_occurrences(3) [OF assms(1) enum_encoder_variants(4), of v] by (simp del: present_bytes.simps present_ok.simps)
qed (use cc in simp_all)

lemma message_field_occurrences:
  assumes "message_decodes W s" "field_coding s = Some (Compound_coding c)" "compound_coding_try_from c = Some Message"
    and "compile_subfield False s = Inr e" "compile_message_field s = Inr (Some (m, d))" "wire_bytes W e v = Some b"
    and "canonical s v" "length b < 2 ^ 32"
  shows "occurrences W m (field_number s) b d v"
proof -
  from assms(2-5) obtain mm where mm: "compile_compound s False = Inr mm" "e = Encoder_message_outer s mm"
    "compile_message s Merge_message_outer = Inr m" "d = Val_Option None"
    by (auto simp: ebind_Inr_iff)
  from assms(6) [unfolded mm(2)] show ?thesis
  proof (cases rule: wire_bytes_outer)
    case 1
    with mm(4) show ?thesis by (simp add: occ_Nil)
  next
    case x: (2 x bx)
    have "reads W m LengthDelimited (delimited W bx) d (Val_Option (Some x))"
      using assms(1-3,7,8) mm x
      by (intro submessage_reads(1)) (auto simp: Encoder_message_outer_def delimited_def canonical.simps)
    then show ?thesis unfolding x by (rule occ_one)
  qed
qed

lemma repeated_field_occurrences:
  assumes "message_decodes W s" "field_coding s = Some (Compound_coding c)" "compound_coding_try_from c = Some MessageExpanded"
    and "compile_subfield False s = Inr e" "compile_message_field s = Inr (Some (m, d))" "wire_bytes W e v = Some b"
    and "canonical s v" "length b < 2 ^ 32"
  shows "occurrences W m (field_number s) b d v"
proof -
  from assms(2-5) obtain mm where mm: "compile_compound s False = Inr mm" "e = Encoder_message_repeated s mm"
    "compile_message s Merge_message_repeated = Inr m" "d = Val_List []"
    by (auto simp: ebind_Inr_iff)
  from assms(6) [unfolded mm(2)] obtain xs where xs: "v = Val_List xs" "wire_items W e xs = Some b"
    unfolding mm(2) by (rule wire_bytes_repeated)
  have "occurrences W m (field_number s) b (Val_List []) (Val_List ([] @ xs))"
    using assms(1-3,7,8) mm xs
    by (intro wire_items_occurrences) (auto simp: Encoder_message_repeated_def canonical.simps list_all_iff)
  with xs(1) mm(4) show ?thesis by simp
qed

lemma field_occurrences:
  assumes "schema_ok s" "message_decodes W s" "compile_subfield False s = Inr e"
    and "compile_message_field s = Inr (Some (m, d))" "wire_bytes W e v = Some b" "canonical s v" "length b < 2 ^ 32"
  shows "occurrences W m (field_number s) b d v"
proof (cases "field_coding s")
  case None
  with assms(3) show ?thesis by simp
next
  case (Some co)
  show ?thesis
  proof (cases co)
    case (Scalar_coding c)
    with Some assms(3) obtain k p where kp: "scalar_coding_try_from c = Some (ScalarCoding k p)"
      "e = Encoder_scalar (ScalarCoding k p) (field_number s)"
      by (auto split: option.splits) (metis scalar_coding.exhaust)
    with Some Scalar_coding assms(4-6) have "m = fst (Merger_scalar (ScalarCoding k p))" "d = scalar_default k p"
      "present_ok (payload_ok k) p v" "scalar_canonical k p v"
      "b = present_bytes W (payload W k) (payload_default k) p (tag (field_number s) (scalar_wire_type k p)) v"
      by (auto simp: Merger_scalar_def canonical.simps wire_bytes.simps Encoder_scalar_def present_opt_def split: if_split_asm)
    with scalar_occurrences [OF kp(1)] show ?thesis by simp
  next
    case (Compound_coding c)
    with Some assms(3) obtain cc where cc: "compound_coding_try_from c = Some cc" by (auto split: option.splits)
    have co: "field_coding s = Some (Compound_coding c)" using Some Compound_coding by simp
    consider "cc \<in> {EnumImplicit, EnumPacked, EnumExplicit, EnumExpanded}" | "cc = Message" | "cc = MessageExpanded" | "cc = Oneof"
      by (cases cc) simp_all
    then show ?thesis
    proof cases
      case 1
      with schema_ok_enum [OF assms(1) co] cc have "enum_schema s" by blast
      from enum_field_occurrences [OF this co cc 1 assms(3-5)] show ?thesis .
    next
      case 4
      with co cc assms(4) show ?thesis by simp
    qed (use message_field_occurrences [OF assms(2) co _ assms(3-7)]
        repeated_field_occurrences [OF assms(2) co _ assms(3-7)] cc in blast)+
  qed
qed

text \<open>A oneof is one occurrence of the variant, under the number of the variant.\<close>

lemma oneof_occurrences:
  assumes "schema_ok s" "\<And>w. w \<in> set (field_subfields s) \<Longrightarrow> item_decodes W w"
    and "compile_subfield False s = Inr e" "compile_message_field s = Inr None"
    and "\<forall>w \<in> set (field_subfields s). \<exists>m. compile_oneof_variant w = Inr m"
    and "wire_bytes W e v = Some b" "canonical s v" "length b < 2 ^ 32"
  shows "b = [] \<and> v = Val_Option None
    \<or> (\<exists>w \<in> set (field_subfields s). occurrences W (projr (compile_oneof_variant w)) (field_number w) b (Val_Option None) v)"
proof -
  have c: "field_coding s = Some (Compound_coding 8)"
    using assms(4) by (auto simp: compound_coding_try_from_def Let_def ebind_Inr_iff
        split: option.splits coding.splits if_splits)
  from assms(3) c obtain mm where mm: "compile_compound s True = Inr mm" "e = Encoder_oneof mm"
    by (auto simp: compound_coding_try_from_def ebind_Inr_iff)
  then have "compile_loop True (field_subfields s) [] = Inr mm" by (cases s) simp
  note enc = compile_loop_entries [OF this]
  from assms(6) [unfolded mm(2)] show ?thesis
  proof (cases rule: wire_bytes_oneof)
    case (2 n x e')
    from 2(2) have "(n, e') \<in> set mm" by (rule map_of_SomeD)
    with enc obtain w where w: "w \<in> set (field_subfields s)" "field_name w = n" "compile_subfield True w = Inr e'"
      by (auto simp del: compile_subfield.simps)
    from assms(5) w(1) obtain vm where vm: "compile_oneof_variant w = Inr vm" by blast
    then obtain m where m: "vm = Merger Merge_oneof_variant [] (Merger_oneof_variant n m)"
      "compile_message_field w = Inr (Some (m, Val_Option None))"
      using w(2) by (auto elim!: compile_oneof_variantD simp del: compile_message_field.simps compile_oneof_variant.simps)
    have "canonical w (Val_Option (Some x))"
      using assms(7) c 2(1) w(1,2) by (auto simp: canonical.simps [of s] compound_coding_try_from_def list_all_iff)
    with assms(2) [OF w(1)] w(3) m(2) 2(3) assms(8) obtain wt c where
      "b = encode_varint W (tag (field_number w) wt) @ c" "reads W m wt c (Val_Option None) (Val_Option (Some x))"
      unfolding item_decodes_def by blast
    then have "occurrences W vm (field_number w) b (Val_Option None) v"
      unfolding m(1) 2(1) by (auto intro: occ_one oneof_reads)
    then have "occurrences W (projr (compile_oneof_variant w)) (field_number w) b (Val_Option None) v" unfolding vm by simp
    with w(1) show ?thesis by blast
  qed simp
qed

lemma field_decodes_items:
  assumes "schema_ok s" "message_decodes W s" "\<And>w. w \<in> set (field_subfields s) \<Longrightarrow> item_decodes W w"
  shows "field_decodes W s"
  unfolding field_decodes_def
proof (intro allI impI)
  fix e r v b
  assume e: "compile_subfield False s = Inr e" and r: "compile_message_field s = Inr r"
      "r = None \<longrightarrow> (\<forall>w \<in> set (field_subfields s). \<exists>m. compile_oneof_variant w = Inr m)"
    and v: "wire_bytes W e v = Some b" "canonical s v" "length b < 2 ^ 32"
  show "b = [] \<and> v = merger_default s
    \<or> (\<exists>n m. (\<forall>i. (n, of_nat i, m) \<in> set (merger_entries i s)) \<and> occurrences W m n b (merger_default s) v)"
  proof (cases r)
    case None
    with r have d: "merger_default s = Val_Option None" and es: "merger_entries i s
        = map (\<lambda>w. (field_number w, of_nat i, projr (compile_oneof_variant w))) (field_subfields s)" for i
      by (simp_all add: merger_default_def merger_entries_def del: compile_message_field.simps)
    show ?thesis
      using oneof_occurrences [OF assms(1,3) e _ _ v] r None unfolding d es
      by (auto simp del: compile_message_field.simps compile_oneof_variant.simps)
  next
    case (Some p)
    obtain m d where p: "p = (m, d)" by fastforce
    with Some r have d: "merger_default s = d" "merger_entries i s = [(field_number s, of_nat i, m)]" for i
      by (simp_all add: merger_default_def merger_entries_def del: compile_message_field.simps)
    have "occurrences W m (field_number s) b d v"
      using field_occurrences [OF assms(1,2) e _ v] r(1) Some p by blast
    then show ?thesis unfolding d by auto
  qed
qed

lemma schema_decodes: "schema_ok f \<Longrightarrow> message_decodes W f \<and> item_decodes W f \<and> field_decodes W f"
proof (induction f)
  case (Field number name subs c)
  let ?f = "Field number name subs c"
  have IH: "item_decodes W s \<and> field_decodes W s" if "s \<in> set subs" for s
    using Field that schema_ok_subs(4) [OF Field.prems, of s] by simp
  have "message_decodes W ?f" using Field.prems IH by (intro message_decodes_fields) simp_all
  moreover have "item_decodes W ?f" by (rule item_decodes_message [OF Field.prems calculation])
  moreover have "field_decodes W ?f" using IH by (intro field_decodes_items [OF Field.prems calculation(1)]) simp
  ultimately show ?case by blast
qed

lemma decode_wire_bytes:
  assumes "ResponseEncoder_new f = Inr e" "RequestDecoder_new f = Inr M" "schema_ok f"
    and "wire_bytes W e (Val_Record fl) = Some b" "canonical_record (field_subfields f) fl" "length b < 2 ^ 32"
  shows "RequestDecoder_decode W M b = Ok (Some (Val_Record fl))"
proof -
  from assms(1) obtain m where m: "compile_compound f False = Inr m" and e: "e = Encoder_message_inner f m"
    by (auto simp: ResponseEncoder_new_def ebind_Inr_iff)
  from assms(2) have M: "compile_message f Merge_message_inner = Inr M" by (auto simp: RequestDecoder_new_def)
  then have fn: "mg_merge M = Merge_message_inner" by (cases f) (auto simp: ebind_Inr_iff)
  have "wire_fields W e fl = Some b"
    using assms(4) by (simp add: wire_bytes.simps wire_message.simps e Encoder_message_inner_def)
  then have "message_inner_merge W M (of_nat (length b)) (b @ []) (Val_Record (mg_defaults M)) = Ok (0, [], Val_Record fl)"
    using schema_decodes [OF assms(3)] m M assms(5,6) e unfolding message_decodes_def
    by (metis Encoder_message_inner_def encoder.sel(4))
  moreover have "int (length b) < 2 ^ 32" using assms(6) by simp
  ultimately show ?thesis using fn by (simp add: RequestDecoder_decode_def merge_call.simps)
qed

end

section \<open>Properties\<close>

definition response_decoder :: merger where
  "response_decoder = (case RequestDecoder_new sample_response of
     Inr m \<Rightarrow> m | Inl _ \<Rightarrow> Merger Merge_message_inner [] Merger_scalar_placeholder)"

definition sample_fields :: "val list \<Rightarrow> (string \<times> val) list" where
  "sample_fields kids = (case sample_value kids of Val_Record fl \<Rightarrow> fl | _ \<Rightarrow> [])"

definition sample_kids :: "val list" where
  "sample_kids = [Val_Record [(''age'', Val_U32 7)], Val_Record [(''age'', Val_U32 0)]]"

lemma response_decoder_new: "RequestDecoder_new sample_response = Inr response_decoder"
  by code_simp

lemma sample_schema_ok: "schema_ok sample_response"
  by code_simp

lemma sample_canonical:
  "canonical_record (field_subfields sample_response) (sample_fields [])"
  "canonical_record (field_subfields sample_response) (sample_fields sample_kids)"
  by code_simp+

lemma sample_fields_value: "Val_Record (sample_fields kids) = sample_value kids"
  by (simp add: sample_fields_def sample_value_def)

lemma sample_kids_bytes:
  "wire_bytes leb_lib sample_encoder (Val_Record (sample_fields sample_kids))
     = Some [10, 6, 118, 105, 109, 97, 110, 97, 18, 2, 2, 3, 26, 2, 8, 1, 32, 172, 2, 48, 1, 58, 2, 8, 7, 58, 0]"
  by code_simp





end
