(* ===== verification/Codec_Memory.thy ===== *)
theory Codec_Memory
  imports Message_Codec
begin

text \<open>
  The unions of the codecs. An encoder or merger holds a union whose member is known from its function pointers only: every
  function reads the member that it expects, and \<^verbatim>\<open>Drop\<close> compares addresses of functions to find out which member to release.
  Compiled mergers are well-formed, so that no union is read through another member than the one written and the decoder never
  reports an error that only a wrongly compiled merger could cause; and dropping a compiled codec releases every table once.
\<close>

section \<open>Compiled mergers\<close>

fun merge_member :: "merge_fn \<Rightarrow> compound_merger \<Rightarrow> bool" where
  "merge_member (Merge_scalar k shape) c = (c = Merger_scalar_placeholder)"
| "merge_member Merge_message_inner c = (\<exists>m. c = Merger_subfields m)"
| "merge_member Merge_message_outer c = (\<exists>m. c = Merger_subfields m)"
| "merge_member Merge_message_repeated c = (\<exists>m. c = Merger_subfields m)"
| "merge_member Merge_oneof_variant c = (\<exists>n m. c = Merger_oneof_variant n m)"
| "merge_member Merge_enum_explicit c = (\<exists>m. c = Merger_enum_variants m)"
| "merge_member Merge_enum_implicit c = (\<exists>m. c = Merger_enum_variants m)"
| "merge_member Merge_enum_repeated c = (\<exists>m. c = Merger_enum_variants m)"

fun explicit_merge_fn :: "merge_fn \<Rightarrow> bool" where
  "explicit_merge_fn (Merge_scalar k shape) = (shape = Merge_explicit)"
| "explicit_merge_fn Merge_message_outer = True"
| "explicit_merge_fn Merge_enum_explicit = True"
| "explicit_merge_fn _ = False"

text \<open>The merge functions that expect a list as the current value of their field.\<close>

fun list_merge_fn :: "merge_fn \<Rightarrow> bool" where
  "list_merge_fn (Merge_scalar k shape) = (shape = Merge_repeated)"
| "list_merge_fn Merge_message_repeated = True"
| "list_merge_fn Merge_enum_repeated = True"
| "list_merge_fn _ = False"

fun is_list :: "val \<Rightarrow> bool" where
  "is_list (Val_List xs) = True"
| "is_list _ = False"

text \<open>
  A record has a field at every index of the table, with a list where the entry of that index expects one; nothing but
  a message reads the table of a message, and the merger of a oneof variant returns an option.
\<close>

definition record_fits :: "(u32 \<times> u32 \<times> merger) list \<Rightarrow> (string \<times> val) list \<Rightarrow> bool" where
  "record_fits m fl \<longleftrightarrow>
     (\<forall>(n, i, sub) \<in> set m. unat i < length fl \<and> (list_merge_fn (mg_merge sub) \<longrightarrow> is_list (snd (fl ! unat i))))"

definition indices_agree :: "(u32 \<times> u32 \<times> merger) list \<Rightarrow> bool" where
  "indices_agree m \<longleftrightarrow>
     (\<forall>(n, i, sub) \<in> set m. mg_merge sub \<noteq> Merge_message_inner
       \<and> (\<forall>(n', i', sub') \<in> set m. i = i' \<longrightarrow> list_merge_fn (mg_merge sub) = list_merge_fn (mg_merge sub')))"

fun merger_wf :: "merger \<Rightarrow> bool" and compound_merger_wf :: "compound_merger \<Rightarrow> bool" where
  "merger_wf (Merger f ds c) \<longleftrightarrow> merge_member f c \<and> compound_merger_wf c \<and> record_fits (merger_subfields c) ds"
| "compound_merger_wf (Merger_subfields m) \<longleftrightarrow> indices_agree m \<and> (\<forall>p \<in> set m. merger_wf (snd (snd p)))"
| "compound_merger_wf (Merger_enum_variants m) \<longleftrightarrow> True"
| "compound_merger_wf (Merger_oneof_variant n m) \<longleftrightarrow> explicit_merge_fn (mg_merge m) \<and> merger_wf m"
| "compound_merger_wf Merger_scalar_placeholder \<longleftrightarrow> True"

text \<open>An index is a \<^verbatim>\<open>u32\<close>: no message has more fields than that.\<close>

fun few_fields :: "field \<Rightarrow> bool" where
  "few_fields (Field number name subs c) \<longleftrightarrow> int (length subs) < 2 ^ 32 \<and> list_all few_fields subs"

lemma few_fields_subs:
  "few_fields f \<Longrightarrow> int (length (field_subfields f)) < 2 ^ 32"
  "few_fields f \<Longrightarrow> s \<in> set (field_subfields f) \<Longrightarrow> few_fields s"
  by (cases f; simp add: list_all_iff)+

lemma Merger_scalar_wf: "merger_wf (fst (Merger_scalar sc))"
  by (cases sc) (simp add: Merger_scalar_def record_fits_def)

lemma merger_enum_variants_wf:
  "merge_member f (Merger_enum_variants []) \<Longrightarrow> merger_wf (merger_enum_variants s f)"
  by (cases f) (simp_all add: merger_enum_variants_def record_fits_def)

lemma merger_enum_variants_merge [simp]: "mg_merge (merger_enum_variants s f) = f"
  by (simp add: merger_enum_variants_def)

lemma compile_message_merge: "compile_message f g = Inr m \<Longrightarrow> mg_merge m = g"
  by (cases f) (auto simp: ebind_Inr_iff)

lemma Merger_scalar_default:
  assumes "Merger_scalar sc = (m, d)"
  shows "mg_merge m \<noteq> Merge_message_inner" "list_merge_fn (mg_merge m) \<longrightarrow> is_list d"
    "d = Val_Option None \<longrightarrow> explicit_merge_fn (mg_merge m)"
proof -
  obtain k p where "sc = ScalarCoding k p" by (cases sc)
  with assms have "m = Merger (Merge_scalar k (scalar_shape p)) [] Merger_scalar_placeholder" "d = scalar_default k p"
    by (simp_all add: Merger_scalar_def)
  moreover have "implicit_default k \<noteq> Val_Option None" by (cases k) simp_all
  ultimately show "mg_merge m \<noteq> Merge_message_inner" "list_merge_fn (mg_merge m) \<longrightarrow> is_list d"
    "d = Val_Option None \<longrightarrow> explicit_merge_fn (mg_merge m)"
    by (cases p; simp)+
qed

text \<open>What the merger of a field expects of the default value of its field.\<close>

lemma compile_message_field_default:
  assumes "compile_message_field s = Inr (Some (m, d))"
  shows "mg_merge m \<noteq> Merge_message_inner" "list_merge_fn (mg_merge m) \<longrightarrow> is_list d"
    "d = Val_Option None \<longrightarrow> explicit_merge_fn (mg_merge m)"
  using assms
  by (auto simp: ebind_Inr_iff Let_def Merger_scalar_default
      dest!: compile_message_merge split: option.splits coding.splits compound_coding.splits)

lemma compile_oneof_variant_merge:
  "compile_oneof_variant w = Inr m \<Longrightarrow> mg_merge m = Merge_oneof_variant"
  by (auto elim!: compile_oneof_variantD simp del: compile_oneof_variant.simps compile_message_field.simps)

lemma merger_entries_merge:
  assumes "(n, i, m) \<in> set (merger_entries j s)" "compile_message_field s = Inr r"
    and "r = None \<longrightarrow> (\<forall>w \<in> set (field_subfields s). \<exists>v. compile_oneof_variant w = Inr v)"
  shows "i = of_nat j" "mg_merge m \<noteq> Merge_message_inner" "list_merge_fn (mg_merge m) \<longrightarrow> is_list (merger_default s)"
    "list_merge_fn (mg_merge m) = (case r of None \<Rightarrow> False | Some (m', d) \<Rightarrow> list_merge_fn (mg_merge m'))"
proof -
  have "i = of_nat j \<and> mg_merge m \<noteq> Merge_message_inner \<and> (list_merge_fn (mg_merge m) \<longrightarrow> is_list (merger_default s))
      \<and> list_merge_fn (mg_merge m) = (case r of None \<Rightarrow> False | Some (m', d) \<Rightarrow> list_merge_fn (mg_merge m'))"
  proof (cases r)
    case None
    with assms obtain w where w: "w \<in> set (field_subfields s)" "m = projr (compile_oneof_variant w)" "i = of_nat j"
      by (auto simp: merger_entries_def simp del: compile_message_field.simps compile_oneof_variant.simps)
    with assms(3) None obtain v where "compile_oneof_variant w = Inr v" by blast
    with w compile_oneof_variant_merge [of w v] None show ?thesis by simp
  next
    case (Some p)
    obtain m' d where p: "p = (m', d)" by fastforce
    with assms Some have "m = m'" "i = of_nat j" "merger_default s = d"
      by (auto simp: merger_entries_def merger_default_def simp del: compile_message_field.simps)
    with assms(2) Some p compile_message_field_default [of s m' d] show ?thesis by (simp del: compile_message_field.simps)
  qed
  then show "i = of_nat j" "mg_merge m \<noteq> Merge_message_inner" "list_merge_fn (mg_merge m) \<longrightarrow> is_list (merger_default s)"
    "list_merge_fn (mg_merge m) = (case r of None \<Rightarrow> False | Some (m', d) \<Rightarrow> list_merge_fn (mg_merge m'))"
    by simp_all
qed

text \<open>Where an entry of a compiled table comes from.\<close>

lemma compiled_entryE:
  assumes "compile_message f g = Inr M" "(n, i, m) \<in> set (merger_subfields (mg_compound M))"
  obtains j s r where "j < length (field_subfields f)" "s = field_subfields f ! j" "(n, i, m) \<in> set (merger_entries j s)"
    "compile_message_field s = Inr r"
    "r = None \<longrightarrow> (\<forall>w \<in> set (field_subfields s). \<exists>v. compile_oneof_variant w = Inr v)"
proof -
  let ?ss = "field_subfields f"
  from assms(1) obtain ds where loop: "compile_message_loop 0 ?ss [] [] = Inr (merger_subfields (mg_compound M), ds)"
    by (cases f) (auto simp: ebind_Inr_iff)
  note entries = compile_message_loop_entries [OF loop]
  from assms(2) entries obtain j s where j: "(j, s) \<in> set (zip [0..<length ?ss] ?ss)" "(n, i, m) \<in> set (merger_entries j s)"
    by (auto simp del: compile_message_field.simps compile_oneof_variant.simps)
  then have js: "j < length ?ss" "s = ?ss ! j" by (auto simp: set_zip)
  then have "s \<in> set ?ss" by simp
  with entries obtain r where "compile_message_field s = Inr r"
    "r = None \<longrightarrow> (\<forall>w \<in> set (field_subfields s). \<exists>v. compile_oneof_variant w = Inr v)" by blast
  with j js that show ?thesis by blast
qed

lemma compiled_defaults:
  assumes "compile_message f g = Inr M"
  shows "mg_defaults M = map (\<lambda>s. (field_name s, merger_default s)) (field_subfields f)" "\<exists>m. mg_compound M = Merger_subfields m"
proof -
  from assms obtain mm where M: "mg_compound M = Merger_subfields mm"
    "compile_message_loop 0 (field_subfields f) [] [] = Inr (mm, mg_defaults M)"
    by (cases f) (auto simp: ebind_Inr_iff)
  then show "\<exists>m. mg_compound M = Merger_subfields m" by blast
  from compile_message_loop_entries [OF M(2)] show "mg_defaults M = map (\<lambda>s. (field_name s, merger_default s)) (field_subfields f)"
    by simp
qed

lemma compiled_record_fits:
  assumes "compile_message f g = Inr M" "few_fields f"
  shows "record_fits (merger_subfields (mg_compound M)) (mg_defaults M)" "indices_agree (merger_subfields (mg_compound M))"
proof -
  have idx: "unat (of_nat j :: u32) = j" if "j < length (field_subfields f)" for j
    using that few_fields_subs(1) [OF assms(2)] by (simp add: unat_of_nat take_bit_eq_mod)
  show "record_fits (merger_subfields (mg_compound M)) (mg_defaults M)"
    unfolding record_fits_def
  proof (clarify)
    fix n i m
    assume "(n, i, m) \<in> set (merger_subfields (mg_compound M))"
    from compiled_entryE [OF assms(1) this] obtain j s r where j: "j < length (field_subfields f)" "s = field_subfields f ! j"
      and entry: "(n, i, m) \<in> set (merger_entries j s)" "compile_message_field s = Inr r"
        "r = None \<longrightarrow> (\<forall>w \<in> set (field_subfields s). \<exists>v. compile_oneof_variant w = Inr v)" .
    from merger_entries_merge [OF entry] idx j compiled_defaults(1) [OF assms(1)]
    show "unat i < length (mg_defaults M) \<and> (list_merge_fn (mg_merge m) \<longrightarrow> is_list (snd (mg_defaults M ! unat i)))" by simp
  qed
  have "mg_merge m \<noteq> Merge_message_inner
      \<and> (\<forall>(n', i', m') \<in> set (merger_subfields (mg_compound M)). i = i' \<longrightarrow> list_merge_fn (mg_merge m) = list_merge_fn (mg_merge m'))"
    if entry: "(n, i, m) \<in> set (merger_subfields (mg_compound M))" for n i m
  proof -
    from compiled_entryE [OF assms(1) entry] obtain j s r where j: "j < length (field_subfields f)" "s = field_subfields f ! j"
      and e: "(n, i, m) \<in> set (merger_entries j s)" "compile_message_field s = Inr r"
        "r = None \<longrightarrow> (\<forall>w \<in> set (field_subfields s). \<exists>v. compile_oneof_variant w = Inr v)" .
    have "list_merge_fn (mg_merge m) = list_merge_fn (mg_merge m')"
      if entry': "(n', i, m') \<in> set (merger_subfields (mg_compound M))" for n' m'
    proof -
      from compiled_entryE [OF assms(1) entry'] obtain j' s' r' where j': "j' < length (field_subfields f)" "s' = field_subfields f ! j'"
        and e': "(n', i, m') \<in> set (merger_entries j' s')" "compile_message_field s' = Inr r'"
          "r' = None \<longrightarrow> (\<forall>w \<in> set (field_subfields s'). \<exists>v. compile_oneof_variant w = Inr v)" .
      have "of_nat j = (of_nat j' :: u32)" using merger_entries_merge(1) [OF e] merger_entries_merge(1) [OF e'] by simp
      then have "j = j'" using idx [OF j(1)] idx [OF j'(1)] by metis
      with j j' e(2) e'(2) have "r = r'" by (simp del: compile_message_field.simps)
      then show ?thesis using merger_entries_merge(4) [OF e] merger_entries_merge(4) [OF e'] by simp
    qed
    with merger_entries_merge(2) [OF e] show ?thesis by blast
  qed
  then show "indices_agree (merger_subfields (mg_compound M))" unfolding indices_agree_def by blast
qed

lemma compile_message_fieldE:
  assumes "compile_message_field s = Inr (Some (m, d))"
  obtains (scalar) sc where "Merger_scalar sc = (m, d)"
    | (enumeration) g where "m = merger_enum_variants s g" "merge_member g (Merger_enum_variants [])"
    | (message) g where "compile_message s g = Inr m" "g \<in> {Merge_message_outer, Merge_message_repeated}"
proof -
  have "(\<exists>sc. Merger_scalar sc = (m, d)) \<or> (\<exists>g. m = merger_enum_variants s g \<and> merge_member g (Merger_enum_variants []))
      \<or> (\<exists>g. compile_message s g = Inr m \<and> g \<in> {Merge_message_outer, Merge_message_repeated})"
    using assms by (auto simp: ebind_Inr_iff Let_def split: option.splits coding.splits compound_coding.splits)
  then show ?thesis using that by blast
qed

lemma compile_field_wf:
  assumes "\<And>g m. g \<in> {Merge_message_outer, Merge_message_repeated} \<Longrightarrow> compile_message s g = Inr m \<Longrightarrow> merger_wf m"
    and "compile_message_field s = Inr (Some (m, d))"
  shows "merger_wf m"
  using assms(2)
proof (cases rule: compile_message_fieldE)
  case (scalar sc)
  with Merger_scalar_wf [of sc] show ?thesis by simp
next
  case (enumeration g)
  then show ?thesis by (simp add: merger_enum_variants_wf)
next
  case (message g)
  with assms(1) show ?thesis by blast
qed

lemma compile_oneof_wf:
  assumes "\<And>g m. g \<in> {Merge_message_outer, Merge_message_repeated} \<Longrightarrow> compile_message w g = Inr m \<Longrightarrow> merger_wf m"
    and "compile_oneof_variant w = Inr vm"
  shows "merger_wf vm"
proof -
  from compile_oneof_variantD [OF assms(2)] obtain m where
    vm: "vm = Merger Merge_oneof_variant [] (Merger_oneof_variant (field_name w) m)"
    and m: "compile_message_field w = Inr (Some (m, Val_Option None))" .
  from compile_field_wf [OF assms(1) m] compile_message_field_default(3) [OF m] show ?thesis
    unfolding vm by (simp add: record_fits_def)
qed

lemma compile_message_wf:
  "few_fields f \<Longrightarrow> compile_message f g = Inr M \<Longrightarrow> g \<in> {Merge_message_inner, Merge_message_outer, Merge_message_repeated} \<Longrightarrow>
     merger_wf M"
proof (induction "size f" arbitrary: f g M rule: less_induct)
  case less
  have sub: "merger_wf m" if "(n, i, m) \<in> set (merger_subfields (mg_compound M))" for n i m
  proof -
    from compiled_entryE [OF less.prems(2) that] obtain j s r where j: "j < length (field_subfields f)" "s = field_subfields f ! j"
      and e: "(n, i, m) \<in> set (merger_entries j s)" "compile_message_field s = Inr r"
        "r = None \<longrightarrow> (\<forall>w \<in> set (field_subfields s). \<exists>v. compile_oneof_variant w = Inr v)" .
    have s: "s \<in> set (field_subfields f)" "few_fields s" using j few_fields_subs(2) [OF less.prems(1)] by simp_all
    show ?thesis
    proof (cases r)
      case None
      with e obtain w where w: "w \<in> set (field_subfields s)" "m = projr (compile_oneof_variant w)"
        by (auto simp: merger_entries_def simp del: compile_message_field.simps compile_oneof_variant.simps)
      with e(3) None have v: "compile_oneof_variant w = Inr m" by (auto simp del: compile_oneof_variant.simps)
      have "size w < size f" using size_subfield [OF s(1)] size_subfield [OF w(1)] by simp
      note IH = less.hyps [OF this few_fields_subs(2) [OF s(2) w(1)]]
      show ?thesis by (rule compile_oneof_wf [OF _ v]) (use IH in blast)
    next
      case (Some p)
      with e obtain d where d: "compile_message_field s = Inr (Some (m, d))"
        by (cases p) (auto simp: merger_entries_def simp del: compile_message_field.simps)
      note IH = less.hyps [OF size_subfield [OF s(1)] s(2)]
      show ?thesis by (rule compile_field_wf [OF _ d]) (use IH in blast)
    qed
  qed
  obtain mm where mm: "mg_compound M = Merger_subfields mm" using compiled_defaults(2) [OF less.prems(2)] by blast
  have "merge_member (mg_merge M) (mg_compound M)"
    using compile_message_merge [OF less.prems(2)] less.prems(3) mm by auto
  then show ?case
    using sub mm compiled_record_fits [OF less.prems(2,1)] by (cases M) auto
qed

lemma RequestDecoder_new_wf: "RequestDecoder_new f = Inr m \<Longrightarrow> few_fields f \<Longrightarrow> merger_wf m \<and> mg_merge m = Merge_message_inner"
  by (auto simp: RequestDecoder_new_def intro: compile_message_wf compile_message_merge)

section \<open>Errors that only a wrong merger could cause\<close>

definition internal_messages :: "decode_message set" where
  "internal_messages = {NON_EXPLICIT_ONEOF_VARIANT, DECODE_MESSAGE_NON_RECORD, FIELD_INDEX_OUT_OF_BOUNDS, DECODE_REPEATED_NON_LIST}"

definition external :: "('a, decode_error) outcome \<Rightarrow> bool" where
  "external r \<longleftrightarrow> (\<forall>e. r = Err e \<longrightarrow> de_message e \<notin> internal_messages)"

lemma external_simps [simp]:
  "external (Ok x)" "external Panic" "external Out_of_fuel" "external (Err e) \<longleftrightarrow> de_message e \<notin> internal_messages"
  by (simp_all add: external_def)

lemma external_obind [simp]: "external (obind m f) \<longleftrightarrow> external m \<and> (\<forall>x. m = Ok x \<longrightarrow> external (f x))"
  by (auto simp: external_def obind_Err_iff)

lemma external_omap_err [simp]:
  "external (omap_err (DecodeError_with_field n) m) \<longleftrightarrow> external m"
  "external (omap_err (DecodeError_with_index i) m) \<longleftrightarrow> external m"
  by (auto simp: external_def omap_err_Err_iff DecodeError_with_field_def DecodeError_with_index_def)

lemma de_message_new [simp]: "de_message (DecodeError_new message) = message" "de_message (DecodeError_with_field n e) = de_message e"
  by (simp_all add: DecodeError_new_def DecodeError_with_field_def)

lemma external_reads [simp]:
  "err \<notin> internal_messages \<Longrightarrow> external (read_varint W l s err)" "external (read_length_check_overflow W l s)"
  "external (decode_tag W l s)" "external (skip W w l s)" "external (read_bytes W n s acc)"
proof -
  show v: "err \<notin> internal_messages \<Longrightarrow> external (read_varint W l s err)" for l s err
    by (auto simp: read_varint_def Let_def internal_messages_def split: option.splits)
  show len: "external (read_length_check_overflow W l s)" for l s
    by (auto simp: read_length_check_overflow_def v internal_messages_def split: option.splits)
  show "external (decode_tag W l s)"
    by (auto simp: decode_tag_def v Let_def internal_messages_def split: option.splits)
  show "external (skip W w l s)"
    by (auto simp: skip_def advance_or_panic_def v len internal_messages_def split: wire_type.splits option.splits)
  show "external (read_bytes W n s acc)"
    by (induction n arbitrary: s acc) (auto split: option.splits)
qed

lemma external_inner [simp]: "external (decode_inner W k l s)" "external (enum_inner W m l s)"
  by (cases k)
    (auto simp: bytes_decode_inner_def string_utf8_decode_inner_def string_permissive_decode_inner_def bool_decode_inner_def
      int32_decode_inner_def sint32_decode_inner_def uint32_decode_inner_def int64_decode_inner_def sint64_decode_inner_def
      uint64_decode_inner_def sfixed32_decode_inner_def fixed32_decode_inner_def sfixed64_decode_inner_def fixed64_decode_inner_def
      float_decode_inner_def double_decode_inner_def fixed32_bits_decode_def fixed64_bits_decode_def enum_inner_def
      Let_def internal_messages_def split: option.splits prod.splits)

lemma external_packed [simp]: "(\<And>l s. external (inner l s)) \<Longrightarrow> external (packed_loop inner fuel l s items)"
  by (induction fuel arbitrary: l s items) auto

text \<open>What a merger expects of the current value of its field, and what it returns.\<close>

definition value_fits :: "merger \<Rightarrow> val \<Rightarrow> bool" where
  "value_fits m v \<longleftrightarrow>
     (if mg_merge m = Merge_message_inner then \<exists>fl. v = Val_Record fl \<and> record_fits (merger_subfields (mg_compound m)) fl
      else list_merge_fn (mg_merge m) \<longrightarrow> is_list v)"

definition merges_well :: "merger \<Rightarrow> merge_result \<Rightarrow> bool" where
  "merges_well m r \<longleftrightarrow> external r \<and>
     (\<forall>l s v. r = Ok (l, s, v) \<longrightarrow> value_fits m v \<and> (explicit_merge_fn (mg_merge m) \<longrightarrow> (\<exists>x. v = Val_Option x)))"

lemma is_listE: "is_list v \<Longrightarrow> (\<And>xs. v = Val_List xs \<Longrightarrow> thesis) \<Longrightarrow> thesis"
  by (cases v) auto

lemma scalar_merges_well:
  assumes "mg_merge m = Merge_scalar k shape" "value_fits m d"
  shows "merges_well m (scalar_merge W k shape w l s d)"
proof -
  have "snd (merger_wire_type k) \<notin> internal_messages" by (cases k) (simp_all add: internal_messages_def)
  moreover have "WIRETYPE_NON_LENGTH_DELIMITED \<notin> internal_messages" by (simp add: internal_messages_def)
  ultimately show ?thesis
    using assms
    by (cases shape) (auto simp: merges_well_def value_fits_def implicit_merge_def explicit_merge_def stringy_repeated_merge_def
        numeric_repeated_merge_def obind_Ok_iff elim!: is_listE split: if_splits)
qed

lemma enum_merges_well:
  assumes "value_fits m d"
  shows "mg_merge m = Merge_enum_explicit \<Longrightarrow> merges_well m (enum_explicit_merge W m w l s d)"
    "mg_merge m = Merge_enum_implicit \<Longrightarrow> merges_well m (enum_implicit_merge W m w l s d)"
    "mg_merge m = Merge_enum_repeated \<Longrightarrow> merges_well m (enum_repeated_merge W m w l s d)"
  using assms
  by (auto simp: merges_well_def value_fits_def enum_explicit_merge_def enum_implicit_merge_def enum_repeated_merge_def
      obind_Ok_iff internal_messages_def elim!: is_listE split: if_splits)

lemma record_fits_update:
  assumes "record_fits T fl" "indices_agree T" "(n, i, sub) \<in> set T" "value_fits sub v"
  shows "record_fits T (fl[unat i := (x, v)])"
  unfolding record_fits_def
proof (clarify)
  fix n' i' sub'
  assume entry: "(n', i', sub') \<in> set T"
  then have old: "unat i' < length fl" "list_merge_fn (mg_merge sub') \<longrightarrow> is_list (snd (fl ! unat i'))"
    using assms(1) by (auto simp: record_fits_def)
  have "mg_merge sub \<noteq> Merge_message_inner" and "i = i' \<longrightarrow> list_merge_fn (mg_merge sub) = list_merge_fn (mg_merge sub')"
    using assms(2,3) entry unfolding indices_agree_def by fast+
  then have "i = i' \<longrightarrow> list_merge_fn (mg_merge sub') \<longrightarrow> is_list v" using assms(4) by (simp add: value_fits_def)
  moreover have "i \<noteq> i' \<Longrightarrow> unat i \<noteq> unat i'" by (simp add: word_unat_eq_iff)
  ultimately show "unat i' < length (fl[unat i := (x, v)])
      \<and> (list_merge_fn (mg_merge sub') \<longrightarrow> is_list (snd (fl[unat i := (x, v)] ! unat i')))"
    using old by (cases "i = i'") simp_all
qed

lemma merger_wf_parts:
  assumes "merger_wf m"
  shows "merge_member (mg_merge m) (mg_compound m)" "record_fits (merger_subfields (mg_compound m)) (mg_defaults m)"
    "indices_agree (merger_subfields (mg_compound m))"
    "map_of (merger_subfields (mg_compound m)) n = Some (i, sub) \<Longrightarrow> merger_wf sub \<and> mg_merge sub \<noteq> Merge_message_inner"
    "oneof_variant (mg_compound m) = Some (name, sub) \<Longrightarrow> merger_wf sub \<and> explicit_merge_fn (mg_merge sub)"
proof -
  have parts: "merge_member (mg_merge m) (mg_compound m)" "compound_merger_wf (mg_compound m)"
    "record_fits (merger_subfields (mg_compound m)) (mg_defaults m)" using assms by (cases m; simp)+
  show "merge_member (mg_merge m) (mg_compound m)" "record_fits (merger_subfields (mg_compound m)) (mg_defaults m)" by (fact parts)+
  show agree: "indices_agree (merger_subfields (mg_compound m))"
    using parts(2) by (cases "mg_compound m") (simp_all add: indices_agree_def)
  show "merger_wf sub \<and> mg_merge sub \<noteq> Merge_message_inner" if "map_of (merger_subfields (mg_compound m)) n = Some (i, sub)"
  proof -
    have e: "(n, i, sub) \<in> set (merger_subfields (mg_compound m))" using that by (rule map_of_SomeD)
    then have "mg_merge sub \<noteq> Merge_message_inner" using agree unfolding indices_agree_def by fast
    moreover have "merger_wf sub" using e parts(2) by (cases "mg_compound m") auto
    ultimately show ?thesis by blast
  qed
  show "merger_wf sub \<and> explicit_merge_fn (mg_merge sub)" if "oneof_variant (mg_compound m) = Some (name, sub)"
    using that parts(2) by (cases "mg_compound m") auto
qed

definition loops_well :: "merger \<Rightarrow> (string \<times> val) list \<Rightarrow> (u32 \<times> bytes \<times> (string \<times> val) list, decode_error) outcome \<Rightarrow> bool" where
  "loops_well m fl r \<longleftrightarrow> external r \<and>
     (\<forall>l s fl'. r = Ok (l, s, fl') \<longrightarrow> record_fits (merger_subfields (mg_compound m)) fl' \<and> map fst fl' = map fst fl)"

lemma message_loop_step:
  assumes "merger_wf m" "record_fits (merger_subfields (mg_compound m)) fl"
    and merge: "\<And>n w l s i sub. map_of (merger_subfields (mg_compound m)) n = Some (i, sub) \<Longrightarrow>
      merges_well sub (merge_call W sub w l s (snd (fl ! unat i)))"
    and loop: "\<And>l s fl'. record_fits (merger_subfields (mg_compound m)) fl' \<Longrightarrow> map fst fl' = map fst fl \<Longrightarrow>
      loops_well m fl' (message_loop W m fuel l s fl')"
  shows "loops_well m fl (message_loop W m (Suc fuel) l s fl)"
proof -
  let ?T = "merger_subfields (mg_compound m)"
  have found: "unat i < length fl" "map fst (fl[unat i := (fst (fl ! unat i), v)]) = map fst fl"
    "value_fits sub v \<Longrightarrow> record_fits ?T (fl[unat i := (fst (fl ! unat i), v)])"
    if "map_of ?T n = Some (i, sub)" for n i sub v
  proof -
    have e: "(n, i, sub) \<in> set ?T" using that by (rule map_of_SomeD)
    then show "unat i < length fl" using assms(2) by (auto simp: record_fits_def)
    then show "map fst (fl[unat i := (fst (fl ! unat i), v)]) = map fst fl" by (simp add: map_update list_update_same_conv)
    show "value_fits sub v \<Longrightarrow> record_fits ?T (fl[unat i := (fst (fl ! unat i), v)])"
      using record_fits_update [OF assms(2) merger_wf_parts(3) [OF assms(1)] e] by blast
  qed
  have none: "loops_well m fl (obind (omap_err (DecodeError_with_field n) (skip W w l1 s1)) (\<lambda>(l, s). message_loop W m fuel l s fl))"
    for n w l1 s1
    using loop [OF assms(2) refl] by (fastforce simp: loops_well_def obind_Ok_iff)
  have some: "loops_well m fl (obind (omap_err (DecodeError_with_field n) (merge_call W sub w l1 s1 (snd (fl ! unat i))))
      (\<lambda>(l, s, v). message_loop W m fuel l s (fl[unat i := (fst (fl ! unat i), v)])))"
    if t: "map_of ?T n = Some (i, sub)" for n w l1 s1 i sub
  proof -
    have "loops_well m fl (message_loop W m fuel l s (fl[unat i := (fst (fl ! unat i), v)]))"
      if "merge_call W sub w l1 s1 (snd (fl ! unat i)) = Ok (l, s, v)" for l s v
      using merge [OF t, of w l1 s1] that loop [OF found(3) [OF t] found(2) [OF t], of v] found(2) [OF t, of v]
      by (simp add: merges_well_def loops_well_def)
    with merge [OF t, of w l1 s1] show ?thesis
      by (fastforce simp: loops_well_def merges_well_def obind_Ok_iff)
  qed
  show ?thesis
  proof (cases "l > 0")
    case True
    show ?thesis
    proof (cases "decode_tag W l s")
      case (Ok x)
      obtain n w l1 s1 where x: "x = (n, w, l1, s1)" by (cases x)
      show ?thesis
        using True Ok x none some found(1)
        by (cases "map_of ?T n") (auto simp: message_loop.simps [of W m "Suc fuel"])
    next
      case (Err e)
      then show ?thesis using True external_reads(3) [of W l s] by (simp add: message_loop.simps [of W m "Suc fuel"] loops_well_def)
    qed (use True in \<open>simp_all add: message_loop.simps [of W m "Suc fuel"] loops_well_def\<close>)
  next
    case False
    then show ?thesis using assms(2) by (simp add: message_loop.simps [of W m "Suc fuel"] loops_well_def)
  qed
qed

lemma record_fits_entry:
  assumes "record_fits T fl" "indices_agree T" "(n, i, sub) \<in> set T"
  shows "value_fits sub (snd (fl ! unat i))"
proof -
  have "mg_merge sub \<noteq> Merge_message_inner" using assms(2,3) unfolding indices_agree_def by fast
  with assms(1,3) show ?thesis by (auto simp: value_fits_def record_fits_def)
qed

lemma message_loop_well:
  assumes "merger_wf m"
    and subs: "\<And>sub d w l s. size sub < size m \<Longrightarrow> merger_wf sub \<Longrightarrow> value_fits sub d \<Longrightarrow> merges_well sub (merge_call W sub w l s d)"
  shows "record_fits (merger_subfields (mg_compound m)) fl \<Longrightarrow> loops_well m fl (message_loop W m fuel l s fl)"
proof (induction fuel arbitrary: l s fl)
  case 0
  then show ?case by (simp add: message_loop.simps loops_well_def)
next
  case (Suc fuel)
  have "merges_well sub (merge_call W sub w l s (snd (fl ! unat i)))"
    if "map_of (merger_subfields (mg_compound m)) n = Some (i, sub)" for n w l s i sub
    using subs [OF size_merger_subfield [OF that]] merger_wf_parts(4) [OF assms(1) that]
      record_fits_entry [OF Suc.prems merger_wf_parts(3) [OF assms(1)] map_of_SomeD [OF that]] by blast
  then show ?case by (rule message_loop_step [OF assms(1) Suc.prems]) (use Suc.IH in blast)+
qed

lemma message_inner_well:
  assumes "merger_wf m" "record_fits (merger_subfields (mg_compound m)) fl"
    and "\<And>sub d w l s. size sub < size m \<Longrightarrow> merger_wf sub \<Longrightarrow> value_fits sub d \<Longrightarrow> merges_well sub (merge_call W sub w l s d)"
  shows "external (message_inner_merge W m l s (Val_Record fl))"
    and "message_inner_merge W m l s (Val_Record fl) = Ok (l', s', v) \<Longrightarrow>
      \<exists>fl'. v = Val_Record fl' \<and> record_fits (merger_subfields (mg_compound m)) fl' \<and> map fst fl' = map fst fl"
  using message_loop_well [OF assms(1,3,2), of "unat l" l s]
  by (fastforce simp: message_inner_merge.simps loops_well_def obind_Ok_iff)+

lemma merge_well: "merger_wf m \<Longrightarrow> value_fits m d \<Longrightarrow> merges_well m (merge_call W m w l s d)"
proof (induction "size m" arbitrary: m d w l s rule: less_induct)
  case (less m)
  note parts = merger_wf_parts [OF less.prems(1)]
  note inner = message_inner_well [OF less.prems(1) _ less.hyps]
  have nld: "WIRETYPE_NON_LENGTH_DELIMITED \<notin> internal_messages" by (simp add: internal_messages_def)
  show ?case
  proof (cases "mg_merge m")
    case (Merge_scalar k shape)
    then show ?thesis using scalar_merges_well less.prems(2) by (simp add: merge_call.simps)
  next
    case Merge_message_inner
    with less.prems(2) obtain fl where fl: "d = Val_Record fl" "record_fits (merger_subfields (mg_compound m)) fl"
      by (auto simp: value_fits_def)
    show ?thesis
      using inner [OF fl(2)] Merge_message_inner fl(1) by (fastforce simp: merges_well_def merge_call.simps value_fits_def)
  next
    case Merge_message_outer
    then show ?thesis
      using nld inner(1) [OF parts(2)] by (auto simp: merges_well_def merge_call.simps value_fits_def obind_Ok_iff)
  next
    case Merge_message_repeated
    with less.prems(2) obtain items where "d = Val_List items" by (auto simp: value_fits_def elim: is_listE)
    then show ?thesis
      using Merge_message_repeated nld inner(1) [OF parts(2)]
      by (auto simp: merges_well_def merge_call.simps value_fits_def obind_Ok_iff)
  next
    case Merge_oneof_variant
    with parts(1) obtain n sub where sub: "oneof_variant (mg_compound m) = Some (n, sub)" by auto
    then have wf: "merger_wf sub" "explicit_merge_fn (mg_merge sub)" using parts(5) by blast+
    then have "value_fits sub (Val_Option None)" by (cases "mg_merge sub") (simp_all add: value_fits_def)
    from less.hyps [OF size_merger_variant [OF sub] wf(1) this, of w l s] wf(2) show ?thesis
      using Merge_oneof_variant sub
      by (auto simp: merges_well_def merge_call.simps [of W m] value_fits_def obind_Ok_iff)
  qed (use enum_merges_well [OF less.prems(2)] in \<open>simp_all add: merge_call.simps\<close>)
qed

lemma decode_well:
  assumes "RequestDecoder_new request = Inr m" "few_fields request"
  shows "RequestDecoder_decode W m src = Err (Malformed_request t) \<Longrightarrow>
      \<exists>e. t = DecodeError_display e \<and> de_message e \<notin> internal_messages"
    and "RequestDecoder_decode W m src = Ok v \<Longrightarrow> \<exists>fl. v = Some (Val_Record fl) \<and> map fst fl = map field_name (field_subfields request)"
proof -
  note wf = RequestDecoder_new_wf [OF assms]
  note inner = message_inner_well [OF conjunct1 [OF wf] merger_wf_parts(2) [OF conjunct1 [OF wf]] merge_well,
      of W "of_nat (length src)" src]
  have names: "map fst (mg_defaults m) = map field_name (field_subfields request)"
    using assms(1) by (auto simp: RequestDecoder_new_def o_def dest: compiled_defaults(1))
  show "\<exists>e. t = DecodeError_display e \<and> de_message e \<notin> internal_messages"
    if "RequestDecoder_decode W m src = Err (Malformed_request t)"
    using that inner(1) wf by (auto simp: RequestDecoder_decode_def merge_call.simps split: if_splits outcome.splits)
  show "\<exists>fl. v = Some (Val_Record fl) \<and> map fst fl = map field_name (field_subfields request)"
    if "RequestDecoder_decode W m src = Ok v"
    using that inner(2) wf unfolding names [symmetric]
    by (auto simp: RequestDecoder_decode_def merge_call.simps split: if_splits outcome.splits prod.splits)
qed

section \<open>Dropping\<close>

text \<open>
  \<^verbatim>\<open>Drop\<close> of an encoder and of a merger. A function pointer is its address, which \<open>A\<close> gives: distinct functions may have
  the same one. The result is the number of tables and boxes that are released, with everything in them, or \<^const>\<open>None\<close> when a
  member of the union is released that was not the one written.
\<close>

fun drop_each :: "nat option list \<Rightarrow> nat option" where
  "drop_each [] = Some 0"
| "drop_each (None # rs) = None"
| "drop_each (Some n # rs) = map_option ((+) n) (drop_each rs)"

fun Encoder_drop :: "(codec_fn \<Rightarrow> usize) \<Rightarrow> encoder \<Rightarrow> nat option" where
  "Encoder_drop A (Encoder f g t c) =
     (if A f = A Fn_message_outer \<or> A f = A Fn_message_inner \<or> A f = A Fn_message_repeated \<or> A f = A Fn_oneof
      then (case c of Subfields m \<Rightarrow> map_option Suc (drop_each (map (\<lambda>p. Encoder_drop A (snd p)) m)) | _ \<Rightarrow> None)
      else if A f = A Fn_enum_explicit \<or> A f = A Fn_enum_implicit \<or> A f = A Fn_enum_packed \<or> A f = A Fn_enum_expanded
      then (case c of Variants m \<Rightarrow> Some 1 | _ \<Rightarrow> None)
      else Some 0)"

fun Merger_drop :: "(merge_fn \<Rightarrow> usize) \<Rightarrow> merger \<Rightarrow> nat option" where
  "Merger_drop A (Merger f ds c) =
     (if A f = A Merge_message_inner \<or> A f = A Merge_message_outer \<or> A f = A Merge_message_repeated
      then (case c of Merger_subfields m \<Rightarrow> map_option Suc (drop_each (map (\<lambda>p. Merger_drop A (snd (snd p))) m)) | _ \<Rightarrow> None)
      else if A f = A Merge_enum_explicit \<or> A f = A Merge_enum_implicit \<or> A f = A Merge_enum_repeated
      then (case c of Merger_enum_variants m \<Rightarrow> Some 1 | _ \<Rightarrow> None)
      else if A f = A Merge_oneof_variant
      then (case c of Merger_oneof_variant n m \<Rightarrow> map_option Suc (Merger_drop A m) | _ \<Rightarrow> None)
      else Some 0)"

text \<open>The tables and boxes that a codec owns.\<close>

fun encoder_tables :: "encoder \<Rightarrow> nat" where
  "encoder_tables (Encoder f g t c) =
     (case c of Subfields m \<Rightarrow> Suc (sum_list (map (\<lambda>p. encoder_tables (snd p)) m)) | Variants m \<Rightarrow> 1 | Scalar_placeholder \<Rightarrow> 0)"

fun merger_tables :: "merger \<Rightarrow> nat" where
  "merger_tables (Merger f ds c) =
     (case c of
        Merger_subfields m \<Rightarrow> Suc (sum_list (map (\<lambda>p. merger_tables (snd (snd p))) m))
      | Merger_enum_variants m \<Rightarrow> 1
      | Merger_oneof_variant n m \<Rightarrow> Suc (merger_tables m)
      | Merger_scalar_placeholder \<Rightarrow> 0)"

text \<open>Functions may be merged into one as long as they read the same member.\<close>

datatype union_member = No_member | Table_member | Enum_member | Variant_member

fun codec_fn_member :: "codec_fn \<Rightarrow> union_member" where
  "codec_fn_member (Fn_scalar k p) = No_member"
| "codec_fn_member f = (if f \<in> {Fn_enum_implicit, Fn_enum_packed, Fn_enum_explicit, Fn_enum_expanded} then Enum_member else Table_member)"

fun merge_fn_member :: "merge_fn \<Rightarrow> union_member" where
  "merge_fn_member (Merge_scalar k shape) = No_member"
| "merge_fn_member Merge_oneof_variant = Variant_member"
| "merge_fn_member f = (if f \<in> {Merge_enum_explicit, Merge_enum_implicit, Merge_enum_repeated} then Enum_member else Table_member)"

definition addresses_ok :: "('f \<Rightarrow> usize) \<Rightarrow> ('f \<Rightarrow> union_member) \<Rightarrow> bool" where
  "addresses_ok A member \<longleftrightarrow> (\<forall>f g. A f = A g \<longrightarrow> member f = member g)"

lemma addresses_okD: "addresses_ok A member \<Longrightarrow> A f = A g \<Longrightarrow> member f = member g"
  unfolding addresses_ok_def by blast

lemma drop_each_Some: "(\<And>x. x \<in> set xs \<Longrightarrow> d x = Some (n x)) \<Longrightarrow> drop_each (map d xs) = Some (sum_list (map n xs))"
  by (induction xs) simp_all

lemma Encoder_drop_wf: "addresses_ok A codec_fn_member \<Longrightarrow> encoder_wf e \<Longrightarrow> Encoder_drop A e = Some (encoder_tables e)"
proof (induction e rule: encoder_tables.induct)
  case (1 f g t c)
  note same = addresses_okD [OF "1.prems"(1)]
  show ?case
  proof (cases c)
    case (Subfields m)
    have "drop_each (map (\<lambda>p. Encoder_drop A (snd p)) m) = Some (sum_list (map (\<lambda>p. encoder_tables (snd p)) m))"
      using "1.IH" "1.prems" Subfields by (intro drop_each_Some) auto
    moreover have "f \<in> {Fn_message_inner, Fn_message_outer, Fn_message_repeated, Fn_oneof}"
      using "1.prems"(2) Subfields by (cases f) auto
    ultimately show ?thesis using Subfields by auto
  next
    case (Variants m)
    then have f: "f \<in> {Fn_enum_implicit, Fn_enum_packed, Fn_enum_explicit, Fn_enum_expanded}"
      using "1.prems"(2) by (cases f) auto
    then have "A f \<noteq> A h" if "codec_fn_member h \<noteq> Enum_member" for h using same [of f h] that by auto
    with f Variants show ?thesis by auto
  next
    case Scalar_placeholder
    then obtain k p where "f = Fn_scalar k p" using "1.prems"(2) by (cases f) auto
    then have "A f \<noteq> A h" if "codec_fn_member h \<noteq> No_member" for h using same [of f h] that by auto
    with Scalar_placeholder show ?thesis by simp
  qed
qed

lemma Merger_drop_wf: "addresses_ok A merge_fn_member \<Longrightarrow> merger_wf m \<Longrightarrow> Merger_drop A m = Some (merger_tables m)"
proof (induction m rule: merger_tables.induct)
  case (1 f ds c)
  note same = addresses_okD [OF "1.prems"(1)]
  show ?case
  proof (cases c)
    case (Merger_subfields m)
    have "drop_each (map (\<lambda>p. Merger_drop A (snd (snd p))) m) = Some (sum_list (map (\<lambda>p. merger_tables (snd (snd p))) m))"
      using "1.IH"(1) "1.prems" Merger_subfields by (intro drop_each_Some) auto
    moreover have "f \<in> {Merge_message_inner, Merge_message_outer, Merge_message_repeated}"
      using "1.prems"(2) Merger_subfields by (cases f) auto
    ultimately show ?thesis using Merger_subfields by auto
  next
    case (Merger_enum_variants m)
    then have f: "f \<in> {Merge_enum_explicit, Merge_enum_implicit, Merge_enum_repeated}" using "1.prems"(2) by (cases f) auto
    then have "A f \<noteq> A h" if "merge_fn_member h \<noteq> Enum_member" for h using same [of f h] that by auto
    with f Merger_enum_variants show ?thesis by auto
  next
    case (Merger_oneof_variant n m)
    then have f: "f = Merge_oneof_variant" using "1.prems"(2) by (cases f) auto
    then have "A f \<noteq> A h" if "merge_fn_member h \<noteq> Variant_member" for h using same [of f h] that by auto
    moreover have "Merger_drop A m = Some (merger_tables m)" using "1.IH"(2) [OF Merger_oneof_variant "1.prems"(1)] "1.prems"(2) Merger_oneof_variant by simp
    ultimately show ?thesis using f Merger_oneof_variant by simp
  next
    case Merger_scalar_placeholder
    then obtain k shape where "f = Merge_scalar k shape" using "1.prems"(2) by (cases f) auto
    then have "A f \<noteq> A h" if "merge_fn_member h \<noteq> No_member" for h using same [of f h] that by auto
    with Merger_scalar_placeholder show ?thesis by simp
  qed
qed

section \<open>Properties\<close>

lemma sample_few_fields: "few_fields sample_response"
  by code_simp

definition sample_encoder_addresses :: "codec_fn \<Rightarrow> usize" where
  "sample_encoder_addresses f = (case codec_fn_member f of No_member \<Rightarrow> 0x1000 | Table_member \<Rightarrow> 0x2000 | _ \<Rightarrow> 0x3000)"

definition sample_merger_addresses :: "merge_fn \<Rightarrow> usize" where
  "sample_merger_addresses f =
     (case merge_fn_member f of No_member \<Rightarrow> 0x1000 | Table_member \<Rightarrow> 0x2000 | Enum_member \<Rightarrow> 0x3000 | Variant_member \<Rightarrow> 0x4000)"

lemma sample_addresses:
  "addresses_ok sample_encoder_addresses codec_fn_member" "addresses_ok sample_merger_addresses merge_fn_member"
proof -
  have "codec_fn_member f \<noteq> Variant_member" for f by (cases f) simp_all
  then show "addresses_ok sample_encoder_addresses codec_fn_member"
    by (auto simp: addresses_ok_def sample_encoder_addresses_def split: union_member.splits)
  show "addresses_ok sample_merger_addresses merge_fn_member"
    by (auto simp: addresses_ok_def sample_merger_addresses_def split: union_member.splits)
qed

lemma sample_tables: "encoder_tables sample_encoder = 5" "merger_tables response_decoder = 6"
  by code_simp+

text \<open>
  C17: Every compiled codec is well-formed all the way down: the functions of an encoder and of a merger read the member of the
  union that was written, the two functions of an encoder belong to the same type, the variants of a oneof use explicit presence,
  and every entry in the table of a message merger has an index of its record, whose default value is a list where one is expected.
\<close>

theorem compiled_codec_wf:
  assumes "RequestDecoder_new request = Inr m" "few_fields request" "ResponseEncoder_new response = Inr e"
  shows "merger_wf m \<and> encoder_wf e"
  using RequestDecoder_new_wf [OF assms(1,2)] ResponseEncoder_new_wf [OF assms(3)] by blast

theorem compiled_codec_wf_witness: "merger_wf response_decoder \<and> encoder_wf sample_encoder"
  using compiled_codec_wf [OF response_decoder_new sample_few_fields sample_encoder_new] .

text \<open>
  C9: No request makes the decoder report an error that is about the runtime instead of the request (a message that is no record, a
  field index out of bounds, a oneof variant without presence, a repeated field that is no list), and whatever it accepts is a
  record with exactly the fields of the message type, in their order.
\<close>

theorem decode_errors_external:
  assumes "RequestDecoder_new request = Inr m" "few_fields request"
  shows "case RequestDecoder_decode W m src of
      Ok v \<Rightarrow> \<exists>fl. v = Some (Val_Record fl) \<and> map fst fl = map field_name (field_subfields request)
    | Err (Malformed_request t) \<Rightarrow> \<exists>e. t = DecodeError_display e \<and> de_message e \<notin> internal_messages
    | _ \<Rightarrow> True"
  using decode_well [OF assms] by (auto split: outcome.splits decode_status.splits)

theorem decode_errors_external_witness:
  "(\<exists>fl. RequestDecoder_decode leb_lib response_decoder [16, 4] = Ok (Some (Val_Record fl))
      \<and> map fst fl = map field_name (field_subfields sample_response))
   \<and> (\<exists>e. RequestDecoder_decode leb_lib response_decoder [13] = Err (Malformed_request (DecodeError_display e))
      \<and> de_message e \<notin> internal_messages)"
proof -
  have "case RequestDecoder_decode leb_lib response_decoder [16, 4] of Ok v \<Rightarrow> True | _ \<Rightarrow> False"
    and "case RequestDecoder_decode leb_lib response_decoder [13] of Err (Malformed_request t) \<Rightarrow> True | _ \<Rightarrow> False"
    by code_simp+
  then have "\<exists>v. RequestDecoder_decode leb_lib response_decoder [16, 4] = Ok v"
    and "\<exists>t. RequestDecoder_decode leb_lib response_decoder [13] = Err (Malformed_request t)"
    by (auto split: outcome.splits decode_status.splits)
  then show ?thesis
    using decode_errors_external [OF response_decoder_new sample_few_fields, of leb_lib "[16, 4]"]
      decode_errors_external [OF response_decoder_new sample_few_fields, of leb_lib "[13]"] by auto
qed



end
