(* ===== verification/Encode_Accept.thy ===== *)
theory Encode_Accept
  imports Encode_Spec
begin

text \<open>
  Which values the encoder accepts, whatever their size: \<open>accepts\<close> says so by the structure of the value alone. The contract of a
  scalar type is the locale \<open>scalar_typed\<close>. Both passes are followed with the number of pre-computed lengths they push and pop.
\<close>

section \<open>Scalars\<close>

text \<open>The first pass succeeds and pushes some number of lengths, and the second pass succeeds and pops as many.\<close>

definition balanced :: "nat \<Rightarrow> (lengths \<Rightarrow> length_result) \<Rightarrow> (lengths \<Rightarrow> bytes \<Rightarrow> encode_result) \<Rightarrow> bool" where
  "balanced k len enc \<longleftrightarrow>
     (\<forall>ls. \<exists>n ls1. len ls = Inr (n, ls1) \<and> length ls1 = length ls + k)
     \<and> (\<forall>ls buf. k \<le> length ls \<longrightarrow> (\<exists>ls1 buf1. enc ls buf = Inr (ls1, buf1) \<and> length ls1 = length ls - k))"

locale scalar_typed =
  fixes c :: "'a scalar_codec" and okv :: "val \<Rightarrow> bool"
  assumes typed: "okv v \<Longrightarrow> \<exists>x. sc_type c v = Some x \<and> (\<exists>g. \<forall>buf. sc_encode_inner c x buf = Inr (g buf))
      \<and> (\<forall>f. sc_length c = Var_length f \<longrightarrow> (\<exists>n. f x = Inr n))"
    and inner_typed: "sc_type c v = Some x \<Longrightarrow> sc_encode_inner c x buf = Inr b \<Longrightarrow> okv v"
    and default_typed: "sc_type c v = Some x \<Longrightarrow> sc_default c x \<Longrightarrow> okv v"
begin

lemma packed_items_typed: "packed_items_encode c xs buf = Inr b \<Longrightarrow> \<forall>x \<in> set xs. okv x"
  by (induction xs arbitrary: buf) (auto simp: ebind_Inr_iff split: option.splits dest: inner_typed)

lemma expanded_items_typed: "expanded_items_encode W c t xs buf = Inr b \<Longrightarrow> \<forall>x \<in> set xs. okv x"
  by (induction xs arbitrary: buf) (auto simp: ebind_Inr_iff split: option.splits dest: inner_typed)

lemma encode_typed:
  assumes "scalar_encode_fns W c p t v ls buf = Inr r"
  shows "present_ok okv p v"
proof (cases p)
  case Implicit
  with assms show ?thesis
    by (auto simp: scalar_encode_fns_def implicit_encode_def ebind_Inr_iff split: option.splits if_splits
        dest: inner_typed default_typed)
next
  case Explicit
  with assms consider "v = Val_Option None" | x y where "v = Val_Option (Some x)" "sc_type c x = Some y"
      "\<exists>b. sc_encode_inner c y (buf @ encode_varint W t) = Inr b"
    by (auto simp: scalar_encode_fns_def explicit_encode_def ebind_Inr_iff split: option.splits)
  then show ?thesis using Explicit by cases (auto dest: inner_typed)
next
  case Packed
  with assms show ?thesis
    by (cases v) (auto simp: scalar_encode_fns_def packed_encode_def ebind_Inr_iff split: if_splits list.splits dest: packed_items_typed)
next
  case Expanded
  with assms show ?thesis
    by (cases v) (auto simp: scalar_encode_fns_def expanded_encode_def ebind_Inr_iff dest: expanded_items_typed)
qed

lemma packed_items_accepted: "\<forall>x \<in> set xs. okv x \<Longrightarrow> \<exists>b. packed_items_encode c xs buf = Inr b"
proof (induction xs arbitrary: buf)
  case (Cons x xs)
  then obtain y g where "sc_type c x = Some y" "\<forall>buf. sc_encode_inner c y buf = Inr (g buf)" using typed [of x] by auto
  with Cons show ?case by simp
qed simp

lemma expanded_items_accepted: "\<forall>x \<in> set xs. okv x \<Longrightarrow> \<exists>b. expanded_items_encode W c t xs buf = Inr b"
proof (induction xs arbitrary: buf)
  case (Cons x xs)
  then obtain y g where "sc_type c x = Some y" "\<forall>buf. sc_encode_inner c y buf = Inr (g buf)" using typed [of x] by auto
  with Cons show ?case by simp
qed simp

lemma items_length_accepted:
  assumes "sc_length c = Var_length f" "\<forall>x \<in> set xs. okv x"
  shows "\<exists>n. packed_items_length c f xs tot = Inr n" "\<exists>n. expanded_items_length c f tag_len xs tot = Inr n"
proof -
  have item: "\<exists>y n. sc_type c x = Some y \<and> f y = Inr n" if "x \<in> set xs" for x
    using typed [of x] assms that by auto
  show "\<exists>n. packed_items_length c f xs tot = Inr n"
    using item by (induction xs arbitrary: tot) fastforce+
  show "\<exists>n. expanded_items_length c f tag_len xs tot = Inr n"
    using item by (induction xs arbitrary: tot) fastforce+
qed

lemma scalar_balanced:
  assumes "present_ok okv p v"
  shows "\<exists>k. balanced k (scalar_length_fns W c p t v) (scalar_encode_fns W c p t v)"
proof (cases p)
  case Implicit
  with assms obtain x g where x: "sc_type c v = Some x" "\<forall>buf. sc_encode_inner c x buf = Inr (g buf)"
    "\<forall>f. sc_length c = Var_length f \<longrightarrow> (\<exists>n. f x = Inr n)" using typed [of v] by auto
  then show ?thesis
    by (intro exI [of _ 0], cases "sc_length c")
      (auto simp: Implicit balanced_def scalar_length_fns_def scalar_encode_fns_def implicit_length_def implicit_encode_def)
next
  case Explicit
  with assms consider "v = Val_Option None" | y where "v = Val_Option (Some y)" "okv y" by (auto split: val.splits option.splits)
  then show ?thesis
  proof cases
    case 1
    with Explicit show ?thesis
      by (intro exI [of _ 0]) (simp add: balanced_def scalar_length_fns_def scalar_encode_fns_def explicit_length_def explicit_encode_def)
  next
    case (2 y)
    from typed [OF 2(2)] obtain x g where x: "sc_type c y = Some x" "\<forall>buf. sc_encode_inner c x buf = Inr (g buf)"
      "\<forall>f. sc_length c = Var_length f \<longrightarrow> (\<exists>n. f x = Inr n)" by blast
    then show ?thesis
      by (intro exI [of _ 0], cases "sc_length c")
        (auto simp: Explicit 2(1) balanced_def scalar_length_fns_def scalar_encode_fns_def explicit_length_def explicit_encode_def)
  qed
next
  case Packed
  with assms obtain xs where v: "v = Val_List xs" and xs: "\<forall>x \<in> set xs. okv x" by (auto split: val.splits)
  have "\<exists>tot. (case sc_length c of Fixed_length n \<Rightarrow> Inr (u32_try_from_or_max (length xs * n))
      | Var_length f \<Rightarrow> packed_items_length c f xs 0) = Inr tot"
    using items_length_accepted(1) [OF _ xs] by (cases "sc_length c") simp_all
  then show ?thesis
    using packed_items_accepted [OF xs]
    by (intro exI [of _ "if xs = [] then 0 else 1"])
      (auto simp: Packed v balanced_def scalar_length_fns_def scalar_encode_fns_def packed_length_def packed_encode_def ebind_Inr_iff
        neq_Nil_conv Suc_le_length_iff)
next
  case Expanded
  with assms obtain xs where v: "v = Val_List xs" and xs: "\<forall>x \<in> set xs. okv x" by (auto split: val.splits)
  show ?thesis
    using items_length_accepted(2) [OF _ xs] expanded_items_accepted [OF xs]
    by (intro exI [of _ 0], cases "sc_length c")
      (auto simp: Expanded v balanced_def scalar_length_fns_def scalar_encode_fns_def expanded_length_def expanded_encode_def ebind_Inr_iff)
qed

end

lemma bytes_items_typed: "bytes_items_encode vs buf = Inr b \<Longrightarrow> \<forall>b \<in> set vs. (case b of Val_U8 _ \<Rightarrow> True | _ \<Rightarrow> False)"
proof (induction vs arbitrary: buf)
  case (Cons v vs)
  from Cons.prems obtain byte where "v = Val_U8 byte" "bytes_items_encode vs (buf @ [byte]) = Inr b"
    by (auto split: val.splits)
  with Cons.IH show ?case by simp
qed simp

interpretation typed_bytes: scalar_typed "bytes_codec W" "payload_ok Bytes" for W
proof
  fix v
  assume "payload_ok Bytes v"
  then obtain vs where v: "v = Val_List vs" and ok: "\<forall>b \<in> set vs. (case b of Val_U8 _ \<Rightarrow> True | _ \<Rightarrow> False)"
    by (auto split: val.splits)
  with bytes_items [OF ok] show "\<exists>x. sc_type (bytes_codec W) v = Some x \<and> (\<exists>g. \<forall>buf. sc_encode_inner (bytes_codec W) x buf = Inr (g buf))
      \<and> (\<forall>f. sc_length (bytes_codec W) = Var_length f \<longrightarrow> (\<exists>n. f x = Inr n))"
    by (auto simp: bytes_codec_def bytes_encode_inner_def bytes_length_inner_def)
next
  fix v x buf b
  assume "sc_type (bytes_codec W) v = Some x" "sc_encode_inner (bytes_codec W) x buf = Inr b"
  then show "payload_ok Bytes v" by (auto simp: bytes_codec_def bytes_encode_inner_def dest: bytes_items_typed)
qed (auto simp: bytes_codec_def bytes_default_def)

interpretation typed_string_utf8: scalar_typed "string_codec W" "payload_ok String_utf8" for W
  by unfold_locales (auto simp: scalar_codec_defs)

interpretation typed_string_permissive: scalar_typed "string_codec W" "payload_ok String_permissive" for W
  by unfold_locales (auto simp: scalar_codec_defs)

interpretation typed_bool: scalar_typed bool_codec "payload_ok Bool"
proof
  fix v
  assume "payload_ok Bool v"
  then obtain x where "v = Val_Bool x" by auto
  then show "\<exists>x. sc_type bool_codec v = Some x \<and> (\<exists>g. \<forall>buf. sc_encode_inner bool_codec x buf = Inr (g buf))
      \<and> (\<forall>f. sc_length bool_codec = Var_length f \<longrightarrow> (\<exists>n. f x = Inr n))"
    by (intro exI [of _ x] conjI exI [of _ "\<lambda>buf. buf @ [if x then 1 else 0]"]) (simp_all add: bool_codec_def bool_encode_inner_def)
qed (auto simp: bool_codec_def)

interpretation typed_int32: scalar_typed "int32_codec W" "payload_ok Int32" for W
  by unfold_locales (auto simp: scalar_codec_defs)

interpretation typed_sint32: scalar_typed "sint32_codec W" "payload_ok Sint32" for W
  by unfold_locales (auto simp: scalar_codec_defs)

interpretation typed_sfixed32: scalar_typed "sfixed32_codec W" "payload_ok Sfixed32" for W
  by unfold_locales (auto simp: scalar_codec_defs)

interpretation typed_uint32: scalar_typed "uint32_codec W" "payload_ok Uint32" for W
  by unfold_locales (auto simp: scalar_codec_defs)

interpretation typed_fixed32: scalar_typed "fixed32_codec W" "payload_ok Fixed32" for W
  by unfold_locales (auto simp: scalar_codec_defs)

interpretation typed_int64: scalar_typed "int64_codec W" "payload_ok Int64" for W
  by unfold_locales (auto simp: scalar_codec_defs)

interpretation typed_sint64: scalar_typed "sint64_codec W" "payload_ok Sint64" for W
  by unfold_locales (auto simp: scalar_codec_defs)

interpretation typed_sfixed64: scalar_typed "sfixed64_codec W" "payload_ok Sfixed64" for W
  by unfold_locales (auto simp: scalar_codec_defs)

interpretation typed_uint64: scalar_typed "uint64_codec W" "payload_ok Uint64" for W
  by unfold_locales (auto simp: scalar_codec_defs)

interpretation typed_fixed64: scalar_typed "fixed64_codec W" "payload_ok Fixed64" for W
  by unfold_locales (auto simp: scalar_codec_defs)

interpretation typed_float: scalar_typed "float_codec W" "payload_ok Float" for W
  by unfold_locales (auto simp: scalar_codec_defs)

interpretation typed_double: scalar_typed "double_codec W" "payload_ok Double" for W
  by unfold_locales (auto simp: scalar_codec_defs)

lemma scalar_encode_typed: "scalar_encode W k p t v ls buf = Inr r \<Longrightarrow> present_ok (payload_ok k) p v"
  by (cases k)
    (simp_all only: scalar_encode_def scalar_kind.case typed_bytes.encode_typed typed_string_utf8.encode_typed typed_string_permissive.encode_typed typed_bool.encode_typed typed_int32.encode_typed typed_sint32.encode_typed typed_sfixed32.encode_typed typed_uint32.encode_typed typed_fixed32.encode_typed typed_int64.encode_typed typed_sint64.encode_typed typed_sfixed64.encode_typed typed_uint64.encode_typed typed_fixed64.encode_typed typed_float.encode_typed typed_double.encode_typed)

lemma scalar_calls_balanced: "present_ok (payload_ok k) p v \<Longrightarrow> \<exists>n. balanced n (scalar_length W k p t v) (scalar_encode W k p t v)"
  by (cases k)
    (simp_all only: scalar_length_def scalar_encode_def scalar_kind.case typed_bytes.scalar_balanced typed_string_utf8.scalar_balanced typed_string_permissive.scalar_balanced typed_bool.scalar_balanced typed_int32.scalar_balanced typed_sint32.scalar_balanced typed_sfixed32.scalar_balanced typed_uint32.scalar_balanced typed_fixed32.scalar_balanced typed_int64.scalar_balanced typed_sint64.scalar_balanced typed_sfixed64.scalar_balanced typed_uint64.scalar_balanced typed_fixed64.scalar_balanced typed_float.scalar_balanced typed_double.scalar_balanced)

section \<open>Enumerations\<close>

lemma enum_okI: "map_of (variants (enc_compound e)) n = Some k \<Longrightarrow> enum_ok e (Val_Enum n)"
  by simp

lemma enum_items_typed:
  "enum_packed_items_encode W e i xs buf = Inr b \<Longrightarrow> \<forall>x \<in> set xs. enum_ok e x"
  "enum_expanded_items_encode W e i xs buf = Inr b \<Longrightarrow> \<forall>x \<in> set xs. enum_ok e x"
  by (induction xs arbitrary: i buf) (auto simp del: enum_ok.simps intro: enum_okI split: val.splits option.splits)

lemma enum_encode_typed:
  "enum_implicit_encode W e v ls buf = Inr r \<Longrightarrow> enum_ok e v"
  "enum_explicit_encode W e v ls buf = Inr r \<Longrightarrow> enum_ok e v"
  "enum_packed_encode W e v ls buf = Inr r \<Longrightarrow> present_ok (enum_ok e) Packed v"
  "enum_expanded_encode W e v ls buf = Inr r \<Longrightarrow> present_ok (enum_ok e) Expanded v"
  by (cases v; auto simp: enum_implicit_encode_def enum_explicit_encode_def enum_packed_encode_def enum_expanded_encode_def ebind_Inr_iff
      simp del: enum_ok.simps split: option.splits if_splits list.splits dest: enum_items_typed; simp)+

lemma enum_items_accepted:
  assumes "\<forall>x \<in> set xs. enum_ok e x"
  shows "\<exists>b. enum_packed_items_encode W e i xs buf = Inr b" "\<exists>b. enum_expanded_items_encode W e i xs buf = Inr b"
    "\<exists>n. enum_packed_items_length W e i xs tot = Inr n" "\<exists>n. enum_expanded_items_length W e i xs tot = Inr n"
  using assms by (induction xs arbitrary: i buf tot) (auto elim!: enum_okE simp del: enum_ok.simps)

lemma enum_balanced:
  "enum_ok e v \<Longrightarrow> balanced 0 (enum_implicit_length W e v) (enum_implicit_encode W e v)"
  "enum_ok e v \<Longrightarrow> balanced 0 (enum_explicit_length W e v) (enum_explicit_encode W e v)"
  "present_ok (enum_ok e) Packed v \<Longrightarrow> \<exists>k. balanced k (enum_packed_length W e v) (enum_packed_encode W e v)"
  "present_ok (enum_ok e) Expanded v \<Longrightarrow> balanced 0 (enum_expanded_length W e v) (enum_expanded_encode W e v)"
proof -
  show "enum_ok e v \<Longrightarrow> balanced 0 (enum_implicit_length W e v) (enum_implicit_encode W e v)"
    "enum_ok e v \<Longrightarrow> balanced 0 (enum_explicit_length W e v) (enum_explicit_encode W e v)"
    by (auto elim!: enum_okE simp: balanced_def enum_implicit_length_def enum_implicit_encode_def enum_explicit_length_def
        enum_explicit_encode_def simp del: enum_ok.simps)
  show "\<exists>k. balanced k (enum_packed_length W e v) (enum_packed_encode W e v)" if ok: "present_ok (enum_ok e) Packed v"
  proof -
    from ok obtain xs where v: "v = Val_List xs" and xs: "\<forall>x \<in> set xs. enum_ok e x" by (auto split: val.splits)
    show ?thesis
      using enum_items_accepted(1) [OF xs, of W 0] enum_items_accepted(3) [OF xs, of W 0 0]
      by (intro exI [of _ "if xs = [] then 0 else 1"])
        (auto simp: v balanced_def enum_packed_length_def enum_packed_encode_def ebind_Inr_iff Suc_le_length_iff)
  qed
  show "balanced 0 (enum_expanded_length W e v) (enum_expanded_encode W e v)" if ok: "present_ok (enum_ok e) Expanded v"
  proof -
    from ok obtain xs where v: "v = Val_List xs" and xs: "\<forall>x \<in> set xs. enum_ok e x" by (auto split: val.splits)
    show ?thesis
      using enum_items_accepted(2) [OF xs, of W 0] enum_items_accepted(4) [OF xs, of W 0 0]
      by (auto simp: v balanced_def enum_expanded_length_def enum_expanded_encode_def ebind_Inr_iff)
  qed
qed

section \<open>Messages\<close>

text \<open>
  An explicit enumeration is accepted as an enumeration, not as an option of one, and a repeated message only when it is empty.
\<close>

function (sequential) accepts :: "encoder \<Rightarrow> val \<Rightarrow> bool"
  and accepts_message :: "encoder \<Rightarrow> val \<Rightarrow> bool"
  and accepts_fields :: "encoder \<Rightarrow> (string \<times> val) list \<Rightarrow> bool" where
  "accepts e v =
     (case enc_encode e of
        Fn_scalar k p \<Rightarrow> present_ok (payload_ok k) p v
      | Fn_enum_implicit \<Rightarrow> enum_ok e v
      | Fn_enum_explicit \<Rightarrow> enum_ok e v
      | Fn_enum_packed \<Rightarrow> present_ok (enum_ok e) Packed v
      | Fn_enum_expanded \<Rightarrow> present_ok (enum_ok e) Expanded v
      | Fn_message_inner \<Rightarrow> accepts_message e v
      | Fn_message_outer \<Rightarrow>
          (case v of Val_Option None \<Rightarrow> True | Val_Option (Some x) \<Rightarrow> accepts_message e x | _ \<Rightarrow> False)
      | Fn_message_repeated \<Rightarrow> v = Val_List []
      | Fn_oneof \<Rightarrow>
          (case v of
             Val_Option None \<Rightarrow> True
           | Val_Option (Some (Val_Variant n (Some x))) \<Rightarrow>
               (case map_of (subfields (enc_compound e)) n of None \<Rightarrow> False | Some s \<Rightarrow> accepts s (Val_Option (Some x)))
           | _ \<Rightarrow> False))"
| "accepts_message e v = (case v of Val_Record fl \<Rightarrow> accepts_fields e fl | _ \<Rightarrow> False)"
| "accepts_fields e [] = True"
| "accepts_fields e ((n, v) # fl) =
     ((case map_of (subfields (enc_compound e)) n of None \<Rightarrow> False | Some s \<Rightarrow> accepts s v) \<and> accepts_fields e fl)"
  by pat_completeness auto
termination
  by (relation "measure (\<lambda>x. case x of
        Inl (e, v) \<Rightarrow> 2 * size v + 1
      | Inr (Inl (e, v)) \<Rightarrow> 2 * size v
      | Inr (Inr (e, fl)) \<Rightarrow> 2 * size (Val_Record fl) - 1)") auto

declare accepts.simps [simp del] accepts_message.simps [simp del]

lemma encode_accepted:
  shows "encode_call W e v ls buf = Inr r \<Longrightarrow> unsupported e v = 0 \<Longrightarrow> accepts e v"
    and "message_inner_encode W e v ls buf = Inr r \<Longrightarrow> unsupported_message e v = 0 \<Longrightarrow> accepts_message e v"
    and "message_fields_encode W e fl ls buf = Inr r \<Longrightarrow> unsupported_fields e fl = 0 \<Longrightarrow> accepts_fields e fl"
proof (induction e v and e v and e fl arbitrary: ls buf r and ls buf r and ls buf r rule: accepts_accepts_message_accepts_fields.induct)
  case (1 e v)
  note call = encode_call.simps [of W e] accepts.simps [of e] unsupported.simps [of e]
  show ?case
  proof (cases "enc_encode e")
    case (Fn_scalar k p)
    with "1.prems" show ?thesis by (simp add: call scalar_encode_typed)
  next
    case Fn_message_inner
    with 1 show ?thesis by (simp add: call)
  next
    case Fn_message_outer
    with "1.prems" consider "v = Val_Option None"
      | x l ls' buf' where "v = Val_Option (Some x)" "message_inner_encode W e x ls' buf' = Inr r"
      by (auto simp: call message_outer_encode.simps split: val.splits option.splits list.splits)
    then show ?thesis
      using "1.IH"(2) [OF Fn_message_outer] Fn_message_outer "1.prems"(2) by cases (auto simp: call)
  next
    case Fn_message_repeated
    with "1.prems" show ?thesis by (auto simp: call message_repeated_encode.simps split: val.splits)
  next
    case Fn_oneof
    with "1.prems" consider "v = Val_Option None"
      | n x s where "v = Val_Option (Some (Val_Variant n (Some x)))" "map_of (subfields (enc_compound e)) n = Some s"
      by (auto simp: call oneof_encode.simps split: val.splits option.splits)
    then show ?thesis
    proof cases
      case 1
      then show ?thesis using Fn_oneof by (simp add: call)
    next
      case (2 n x s)
      with 1 Fn_oneof show ?thesis by (auto simp: call oneof_encode.simps)
    qed
  qed (use "1.prems" enum_encode_typed in \<open>simp_all add: call del: enum_ok.simps present_ok.simps\<close>)
next
  case (2 e v)
  then show ?case by (auto simp: message_inner_encode.simps accepts_message.simps unsupported_message.simps split: val.splits)
next
  case (4 e n v fl)
  from "4.prems" obtain s a b where s: "map_of (subfields (enc_compound e)) n = Some s" "encode_call W s v ls buf = Inr (a, b)"
    "message_fields_encode W e fl a b = Inr r" by (auto simp: ebind_Inr_iff split: option.splits)
  with "4.IH"(1) [OF s(1,2)] "4.IH"(2) [OF s(3)] "4.prems"(2) show ?case by simp
qed simp

definition fields_balanced :: "wire_lib \<Rightarrow> encoder \<Rightarrow> (string \<times> val) list \<Rightarrow> nat \<Rightarrow> bool" where
  "fields_balanced W e fl k \<longleftrightarrow> (\<forall>t. balanced k (message_fields_length W e (rev fl) t) (message_fields_encode W e fl))"

lemma balanced_length: "balanced k len enc \<Longrightarrow> \<exists>n ls1. len ls = Inr (n, ls1) \<and> length ls1 = length ls + k"
  by (simp add: balanced_def)

lemma balanced_encode:
  "balanced k len enc \<Longrightarrow> k \<le> length ls \<Longrightarrow> \<exists>ls1 buf1. enc ls buf = Inr (ls1, buf1) \<and> length ls1 = length ls - k"
  by (simp add: balanced_def)

lemma fields_balanced_Cons:
  assumes "map_of (subfields (enc_compound e)) n = Some s" "balanced k (length_call W s v) (encode_call W s v)" "fields_balanced W e fl j"
  shows "fields_balanced W e ((n, v) # fl) (k + j)"
  unfolding fields_balanced_def balanced_def
proof (intro allI conjI impI)
  fix t ls
  obtain m ls1 where a: "message_fields_length W e (rev fl) t ls = Inr (m, ls1)" "length ls1 = length ls + j"
    using balanced_length assms(3) unfolding fields_balanced_def by blast
  moreover obtain l ls2 where "length_call W s v ls1 = Inr (l, ls2)" "length ls2 = length ls1 + k"
    using balanced_length [OF assms(2)] by blast
  ultimately show "\<exists>m ls1. message_fields_length W e (rev ((n, v) # fl)) t ls = Inr (m, ls1) \<and> length ls1 = length ls + (k + j)"
    using assms(1) by (simp add: message_fields_length_append)
next
  fix ls :: lengths and buf
  assume len: "k + j \<le> length ls"
  then obtain ls1 buf1 where a: "encode_call W s v ls buf = Inr (ls1, buf1)" "length ls1 = length ls - k"
    using balanced_encode [OF assms(2), of ls] by fastforce
  with len have "j \<le> length ls1" by simp
  then obtain ls2 buf2 where "message_fields_encode W e fl ls1 buf1 = Inr (ls2, buf2)" "length ls2 = length ls1 - j"
    using balanced_encode assms(3) unfolding fields_balanced_def by blast
  with a assms(1) show "\<exists>ls1 buf1. message_fields_encode W e ((n, v) # fl) ls buf = Inr (ls1, buf1) \<and> length ls1 = length ls - (k + j)"
    by simp
qed

lemma outer_balanced:
  assumes "balanced k (message_inner_length W e x) (message_inner_encode W e x)"
  shows "balanced (Suc k) (message_outer_length W e (Val_Option (Some x))) (message_outer_encode W e (Val_Option (Some x)))"
  unfolding balanced_def
proof (intro allI conjI impI)
  fix ls
  show "\<exists>n ls1. message_outer_length W e (Val_Option (Some x)) ls = Inr (n, ls1) \<and> length ls1 = length ls + Suc k"
    using balanced_length [OF assms, of ls] by (auto simp: message_outer_length.simps)
next
  fix ls :: lengths and buf
  assume "Suc k \<le> length ls"
  then obtain l ls' where "ls = l # ls'" "k \<le> length ls'" by (auto simp: Suc_le_length_iff)
  then show "\<exists>ls1 buf1. message_outer_encode W e (Val_Option (Some x)) ls buf = Inr (ls1, buf1) \<and> length ls1 = length ls - Suc k"
    using balanced_encode [OF assms, of ls'] by (simp add: message_outer_encode.simps)
qed

lemma leaf_balanced:
  assumes "accepts e v" "encoder_wf e" "enc_encode e \<notin> {Fn_message_inner, Fn_message_outer, Fn_oneof}"
  shows "\<exists>k. balanced k (length_call W e v) (encode_call W e v)"
proof -
  note call = accepts.simps [of e] encoder_wf_fns [OF assms(2)] balanced_def length_call.simps encode_call.simps
  show ?thesis
  proof (cases "enc_encode e")
    case (Fn_scalar k p)
    with assms(1) scalar_calls_balanced [of k p v W "enc_tag e"] show ?thesis by (simp add: call)
  next
    case Fn_message_repeated
    with assms(1) show ?thesis
      by (intro exI [of _ 0]) (simp add: call message_repeated_length.simps message_repeated_encode.simps)
  next
    case Fn_enum_implicit
    with assms(1) enum_balanced(1) [of e v W] show ?thesis by (intro exI [of _ 0]) (simp add: call del: enum_ok.simps)
  next
    case Fn_enum_explicit
    with assms(1) enum_balanced(2) [of e v W] show ?thesis by (intro exI [of _ 0]) (simp add: call del: enum_ok.simps)
  next
    case Fn_enum_packed
    with assms(1) enum_balanced(3) [of e v W] show ?thesis by (simp add: call del: present_ok.simps)
  next
    case Fn_enum_expanded
    with assms(1) enum_balanced(4) [of e v W] show ?thesis by (intro exI [of _ 0]) (simp add: call del: present_ok.simps)
  qed (use assms(3) in simp_all)
qed

lemma accepted_balanced:
  shows "accepts e v \<Longrightarrow> encoder_wf e \<Longrightarrow> \<exists>k. balanced k (length_call W e v) (encode_call W e v)"
    and "accepts_message e v \<Longrightarrow> encoder_wf e \<Longrightarrow> \<exists>k. balanced k (message_inner_length W e v) (message_inner_encode W e v)"
    and "accepts_fields e fl \<Longrightarrow> encoder_wf e \<Longrightarrow> \<exists>k. fields_balanced W e fl k"
proof (induction e v and e v and e fl rule: accepts_accepts_message_accepts_fields.induct)
  case (1 e v)
  note call = accepts.simps [of e] encoder_wf_fns [OF "1.prems"(2)]
  show ?case
  proof (cases "enc_encode e")
    case Fn_message_inner
    with 1 show ?thesis by (simp add: call balanced_def length_call.simps [of W e] encode_call.simps [of W e])
  next
    case Fn_message_outer
    with "1.prems" consider "v = Val_Option None" | x where "v = Val_Option (Some x)" "accepts_message e x"
      by (auto simp: call split: val.splits option.splits)
    then show ?thesis
    proof cases
      case 1
      with Fn_message_outer show ?thesis
        by (intro exI [of _ 0]) (simp add: call balanced_def length_call.simps encode_call.simps message_outer_length.simps message_outer_encode.simps)
    next
      case (2 x)
      with "1.IH"(2) [OF Fn_message_outer 2(1) refl] "1.prems"(2) obtain k where
        "balanced k (message_inner_length W e x) (message_inner_encode W e x)" by blast
      from outer_balanced [OF this] Fn_message_outer 2(1) show ?thesis
        by (intro exI [of _ "Suc k"]) (simp add: call balanced_def length_call.simps [of W e] encode_call.simps [of W e])
    qed
  next
    case Fn_oneof
    with "1.prems" consider "v = Val_Option None" | n x s where "v = Val_Option (Some (Val_Variant n (Some x)))"
        "map_of (subfields (enc_compound e)) n = Some s" "accepts s (Val_Option (Some x))"
      by (auto simp: call split: val.splits option.splits)
    then show ?thesis
    proof cases
      case 1
      with Fn_oneof show ?thesis
        by (intro exI [of _ 0]) (simp add: call balanced_def length_call.simps encode_call.simps oneof_length.simps oneof_encode.simps)
    next
      case (2 n x s)
      with "1.IH" Fn_oneof encoder_wf_subfield [OF "1.prems"(2)] obtain k where
        "balanced k (length_call W s (Val_Option (Some x))) (encode_call W s (Val_Option (Some x)))" by blast
      with Fn_oneof 2(1,2) show ?thesis
        by (intro exI [of _ k]) (simp add: call balanced_def length_call.simps [of W e] encode_call.simps [of W e] oneof_length.simps oneof_encode.simps)
    qed
  qed (use leaf_balanced [OF "1.prems"] in simp_all)
next
  case (2 e v)
  then obtain fl k where "v = Val_Record fl" "fields_balanced W e fl k" by (auto simp: accepts_message.simps split: val.splits)
  then show ?case
    by (intro exI [of _ k]) (simp add: fields_balanced_def balanced_def message_inner_length.simps message_inner_encode.simps)
next
  case (3 e)
  then show ?case by (intro exI [of _ 0]) (simp add: fields_balanced_def balanced_def)
next
  case (4 e n v fl)
  then obtain s where s: "map_of (subfields (enc_compound e)) n = Some s" "accepts s v" by (auto split: option.splits)
  with 4 encoder_wf_subfield [OF "4.prems"(2) s(1)] obtain k j where
    "balanced k (length_call W s v) (encode_call W s v)" "fields_balanced W e fl j" by auto
  with fields_balanced_Cons [OF s(1)] show ?case by blast
qed

lemma ResponseEncoder_accepts:
  assumes "ResponseEncoder_new response = Inr e"
  shows "(\<exists>r. ResponseEncoder_encode W e v = Inr r) \<longleftrightarrow> accepts e v"
proof
  assume "\<exists>r. ResponseEncoder_encode W e v = Inr r"
  then obtain r where "ResponseEncoder_encode W e v = Inr r" by blast
  then obtain n ls1 ls3 buf where calls: "length_call W e v [] = Inr (n, ls1)" "encode_call W e v ls1 [] = Inr (ls3, buf)"
    by (cases r) (auto simp: ResponseEncoder_encode_def ebind_Inr_iff)
  from balance(1) [OF ResponseEncoder_new_wf [OF assms] this] have "unsupported e v = 0" by simp
  with encode_accepted(1) [OF calls(2)] show "accepts e v" .
next
  assume "accepts e v"
  from accepted_balanced(1) [OF this ResponseEncoder_new_wf [OF assms]] obtain k where
    k: "balanced k (length_call W e v) (encode_call W e v)" by blast
  from balanced_length [OF k, of "[]"] obtain n ls where ls: "length_call W e v [] = Inr (n, ls)" "length ls = k" by auto
  with balanced_encode [OF k, of ls "[]"] show "\<exists>r. ResponseEncoder_encode W e v = Inr r"
    by (auto simp: ResponseEncoder_encode_def)
qed

section \<open>Properties\<close>

lemma sample_accepts: "accepts sample_encoder (sample_value [])" "\<not> accepts sample_encoder (sample_value [Val_Record [(''age'', Val_U32 7)]])"
  by code_simp+

text \<open>
  C15: Exactly the accepted values are encoded: whatever its size, a value is encoded if every field of it has an encoder and the
  type that the encoder expects, with two exceptions: an item of a repeated message is never encoded, and an explicit enumeration is
  encoded only as a plain enumeration, which is not how the component model represents it. Everything else is an error.
\<close>

theorem encoder_accepts:
  assumes "ResponseEncoder_new response = Inr e"
  shows "(\<exists>r. ResponseEncoder_encode W e v = Inr r) \<longleftrightarrow> accepts e v"
  using assms by (rule ResponseEncoder_accepts)

theorem encoder_accepts_witness:
  "(\<exists>r. ResponseEncoder_encode leb_lib sample_encoder (sample_value []) = Inr r)
   \<and> \<not> (\<exists>r. ResponseEncoder_encode leb_lib sample_encoder (sample_value [Val_Record [(''age'', Val_U32 7)]]) = Inr r)"
  using encoder_accepts [OF sample_encoder_new] sample_accepts by blast

end
