(* ===== verification/Hex.thy ===== *)
theory Hex
  imports Prelude
begin

text \<open>
  The hexadecimal coding of \<^verbatim>\<open>runtime/names.rs\<close>: the SIMD routines \<open>hexify\<close> and \<open>unhexify\<close> on
  sixteen-byte vectors, and \<open>hexify_string\<close> / \<open>unhexify_string\<close>, which use them on full chunks and
  a scalar loop on the remainder. SIMD lanes are list elements and lane arithmetic wraps, as the
  arithmetic of \<^typ>\<open>8 word\<close> does. The theory proves that both are the same nibblewise
  little-endian code as a one-line reference function, and that the decoders invert it exactly.
\<close>

unbundle bit_operations_syntax

section \<open>Errors of \<^verbatim>\<open>names.rs\<close>\<close>

text \<open>One constructor per \<^verbatim>\<open>anyhow!\<close> (or \<^verbatim>\<open>context\<close>) message, with its arguments.\<close>

datatype name_error =
    Incorrect_domain_uuid_length nat
  | Invalid_hex_characters bytes
  | Invalid_hex_character u8
  | Odd_length_hex_string
  | Hex_string_invalid_utf8
  | Invalid_server_id string
  | Invalid_version string
  | Invalid_component_name string
  | Invalid_pod_name string
  | Invalid_pod_id
  | Missing_label string

section \<open>Model\<close>

definition HEX_CHARS :: bytes where
  "HEX_CHARS = as_bytes ''0123456789abcdef''"

text \<open>\<^verbatim>\<open>simd_swizzle!\<close>: lane \<open>i\<close> of the result is lane \<open>idx ! i\<close> of the (concatenated) input.\<close>

definition simd_swizzle :: "'a list \<Rightarrow> nat list \<Rightarrow> 'a list" where
  "simd_swizzle v idx = map (\<lambda>i. v ! i) idx"

definition hexify :: "bytes \<Rightarrow> bytes" where
  "hexify bytes =
     (let lower_nibbles = map (\<lambda>b. b mod 16) bytes;
          upper_nibbles = map (\<lambda>b. b div 16) bytes;
          nibbles = simd_swizzle (lower_nibbles @ upper_nibbles)
            [0, 16, 1, 17, 2, 18, 3, 19, 4, 20, 5, 21, 6, 22, 7, 23, 8, 24, 9, 25, 10, 26, 11, 27,
             12, 28, 13, 29, 14, 30, 15, 31]
      in map2 (+) nibbles (map (\<lambda>n. if n > 9 then u8_of_char CHR ''a'' - 10 else u8_of_char CHR ''0'') nibbles))"

definition unhexify :: "bytes \<Rightarrow> name_error + bytes" where
  "unhexify hex_bytes =
     (if (\<exists>h \<in> set hex_bytes. h < u8_of_char CHR ''0'')
         \<or> (\<exists>h \<in> set hex_bytes. h > u8_of_char CHR ''f'')
         \<or> (\<exists>h \<in> set hex_bytes. h > u8_of_char CHR ''9'' \<and> h < u8_of_char CHR ''a'')
      then Inl (Invalid_hex_characters hex_bytes)
      else
        let nibbles = map2 (-) hex_bytes
              (map (\<lambda>h. if h > u8_of_char CHR ''9'' then u8_of_char CHR ''a'' - 10 else u8_of_char CHR ''0'') hex_bytes);
            lower_nibbles = simd_swizzle nibbles [0, 2, 4, 6, 8, 10, 12, 14, 16, 18, 20, 22, 24, 26, 28, 30];
            upper_nibbles = simd_swizzle nibbles [1, 3, 5, 7, 9, 11, 13, 15, 17, 19, 21, 23, 25, 27, 29, 31]
        in Inr (map2 (+) lower_nibbles (map (\<lambda>n. n * 16) upper_nibbles)))"

definition hexify_string :: "string \<Rightarrow> string" where
  "hexify_string str =
     (let (chunks, remainder) = chunks_exact 16 (as_bytes str)
      in from_bytes (concat (map hexify chunks) @
           concat (map (\<lambda>byte. [HEX_CHARS ! unat (byte AND 0xf), HEX_CHARS ! unat (drop_bit 4 byte)]) remainder)))"

definition unhexify_nibble :: "u8 \<Rightarrow> name_error + u8" where
  "unhexify_nibble hex_nibble =
     (if hex_nibble \<ge> u8_of_char CHR ''0'' \<and> hex_nibble \<le> u8_of_char CHR ''9''
      then Inr (hex_nibble - u8_of_char CHR ''0'')
      else if hex_nibble \<ge> u8_of_char CHR ''a'' \<and> hex_nibble \<le> u8_of_char CHR ''f''
      then Inr (hex_nibble - (u8_of_char CHR ''a'' - 10))
      else Inl (Invalid_hex_character hex_nibble))"

definition unhexify_pair :: "bytes \<Rightarrow> name_error + u8" where
  "unhexify_pair byte =
     (case unhexify_nibble (byte ! 0) of
        Inl e \<Rightarrow> Inl e
      | Inr lo \<Rightarrow>
          (case unhexify_nibble (byte ! 1) of
             Inl e \<Rightarrow> Inl e
           | Inr hi \<Rightarrow> Inr (lo + push_bit 4 hi)))"

definition unhexify_string :: "string \<Rightarrow> name_error + string" where
  "unhexify_string hex_string =
     (if length hex_string mod 2 \<noteq> 0 then Inl Odd_length_hex_string
      else
        let (chunks, rest) = chunks_exact 32 (as_bytes hex_string);
            remainder = fst (chunks_exact 2 rest)
        in (case try_map unhexify chunks of
              Inl e \<Rightarrow> Inl e
            | Inr out \<Rightarrow>
                (case try_map unhexify_pair remainder of
                   Inl e \<Rightarrow> Inl e
                 | Inr out' \<Rightarrow>
                     let output = concat out @ out'
                     in if utf8_valid output then Inr (from_bytes output)
                        else Inl Hex_string_invalid_utf8)))"

section \<open>Reference code\<close>

definition hex_digit :: "u8 \<Rightarrow> u8" where
  "hex_digit n = (if n > 9 then n + 87 else n + 48)"

definition hex_code :: "bytes \<Rightarrow> bytes" where
  "hex_code bs = concat (map (\<lambda>b. [hex_digit (b mod 16), hex_digit (b div 16)]) bs)"

lemma length_hex_code [simp]: "length (hex_code bs) = 2 * length bs"
  by (induction bs) (simp_all add: hex_code_def)

lemma hex_code_Nil [simp]: "hex_code [] = []"
  by (simp add: hex_code_def)

lemma hex_code_Cons: "hex_code (b # bs) = hex_digit (b mod 16) # hex_digit (b div 16) # hex_code bs"
  by (simp add: hex_code_def)

lemma hex_code_append [simp]: "hex_code (xs @ ys) = hex_code xs @ hex_code ys"
  by (simp add: hex_code_def)

lemma hex_code_concat: "hex_code (concat xss) = concat (map hex_code xss)"
  by (induction xss) simp_all


section \<open>Nibbles\<close>

lemma ascii_consts [ascii_simps]:
  "u8_of_char CHR ''0'' = 48" "u8_of_char CHR ''9'' = 57"
  "u8_of_char CHR ''a'' = 97" "u8_of_char CHR ''f'' = 102"
  by (simp_all add: u8_of_char_def)

lemma nibble_cases:
  assumes "(n :: u8) < 16"
  shows "n \<in> {0, 1, 2, 3, 4, 5, 6, 7, 8, 9, 10, 11, 12, 13, 14, 15}"
proof -
  from assms have "unat n < 16" by (simp add: word_less_nat_alt)
  then have "unat n = 0 \<or> unat n = 1 \<or> unat n = 2 \<or> unat n = 3 \<or> unat n = 4 \<or> unat n = 5
      \<or> unat n = 6 \<or> unat n = 7 \<or> unat n = 8 \<or> unat n = 9 \<or> unat n = 10 \<or> unat n = 11
      \<or> unat n = 12 \<or> unat n = 13 \<or> unat n = 14 \<or> unat n = 15"
    by presburger
  then show ?thesis by (auto simp: word_unat_eq_iff)
qed

lemma nibble_bounds [simp]: "(b :: u8) mod 16 < 16" "(b :: u8) div 16 < 16"
proof -
  have "unat b < 256" using unsigned_less [of b, where 'a = nat] by simp
  then show "b mod 16 < 16" "b div 16 < 16"
    by (simp_all add: word_less_nat_alt unat_mod unat_div)
qed

lemma nibble_join: "lo < 16 \<Longrightarrow> hi < 16 \<Longrightarrow> unat (lo + hi * 16 :: u8) = unat lo + unat hi * 16"
  by (simp add: unat_word_ariths word_less_nat_alt)

lemma nibble_join_mod_div:
  assumes "lo < 16" "(hi :: u8) < 16"
  shows "(lo + hi * 16) mod 16 = lo" "(lo + hi * 16) div 16 = hi"
proof -
  have "unat lo < 16" "unat hi < 16" using assms by (simp_all add: word_less_nat_alt)
  then show "(lo + hi * 16) mod 16 = lo" "(lo + hi * 16) div 16 = hi"
    by (simp_all add: word_unat_eq_iff unat_mod unat_div nibble_join [OF assms])
qed

lemma nibble_split: "(b :: u8) mod 16 + (b div 16) * 16 = b"
  by (simp add: word_unat_eq_iff nibble_join unat_mod unat_div)

lemma unhexify_nibble_iff: "unhexify_nibble h = Inr n \<longleftrightarrow> n < 16 \<and> h = hex_digit n"
proof
  assume "unhexify_nibble h = Inr n"
  then consider "48 \<le> h" "h \<le> 57" "n = h - 48" | "97 \<le> h" "h \<le> 102" "n = h - 87"
    by (auto simp: unhexify_nibble_def ascii_simps split: if_splits)
  then show "n < 16 \<and> h = hex_digit n"
    by cases (unfold hex_digit_def, unat_arith+)
next
  assume a: "n < 16 \<and> h = hex_digit n"
  then have "n \<in> {0, 1, 2, 3, 4, 5, 6, 7, 8, 9, 10, 11, 12, 13, 14, 15}" by (blast dest: nibble_cases)
  with a show "unhexify_nibble h = Inr n"
    by (elim insertE emptyE) (simp_all add: unhexify_nibble_def ascii_simps hex_digit_def)
qed

lemma HEX_CHARS_nth: "n < 16 \<Longrightarrow> HEX_CHARS ! unat n = hex_digit n"
proof -
  assume "n < 16"
  then have "n \<in> {0, 1, 2, 3, 4, 5, 6, 7, 8, 9, 10, 11, 12, 13, 14, 15}" by (blast dest: nibble_cases)
  then show ?thesis
    by (elim insertE emptyE) (simp_all add: HEX_CHARS_def as_bytes_def u8_of_char_def hex_digit_def)
qed

section \<open>The SIMD routines agree with the reference code\<close>

lemma hexify_hex_code:
  assumes "length bs = 16"
  shows "hexify bs = hex_code bs"
proof -
  let ?v = "map (\<lambda>b. b mod 16) bs @ map (\<lambda>b. b div 16) bs"
  have idx: "[0, 16, 1, 17, 2, 18, 3, 19, 4, 20, 5, 21, 6, 22, 7, 23, 8, 24, 9, 25, 10, 26, 11, 27,
      12, 28, 13, 29, 14, 30, 15, 31] = concat (map (\<lambda>i. [i, i + 16]) [0..<16])"
    by code_simp
  have sel: "n + (if n > 9 then 97 - 10 else 48) = hex_digit n" for n :: u8
    by (simp add: hex_digit_def)
  have "map hex_digit (map (\<lambda>i. ?v ! i) (concat (map (\<lambda>i. [i, i + 16]) [0..<16])))
      = concat (map (\<lambda>i. [hex_digit (bs ! i mod 16), hex_digit (bs ! i div 16)]) [0..<16])"
    unfolding map_concat map_map o_def
    by (rule arg_cong [where f = concat], rule map_cong) (use assms in \<open>simp_all add: nth_append\<close>)
  also have "\<dots> = hex_code (map (\<lambda>i. bs ! i) [0..<16])"
    by (simp add: hex_code_def o_def)
  also have "map (\<lambda>i. bs ! i) [0..<16] = bs"
    using map_nth [of bs] assms by simp
  finally show ?thesis
    unfolding hexify_def Let_def simd_swizzle_def map2_map_same ascii_consts sel idx .
qed

definition nib :: "u8 \<Rightarrow> u8" where
  "nib h = (if h > 57 then h - 87 else h - 48)"

definition is_hex :: "u8 \<Rightarrow> bool" where
  "is_hex h \<longleftrightarrow> (48 \<le> h \<and> h \<le> 57) \<or> (97 \<le> h \<and> h \<le> 102)"

lemma is_hex_gt_9: "is_hex h \<Longrightarrow> h > 57 \<longleftrightarrow> 97 \<le> h"
  unfolding is_hex_def by unat_arith

lemma unhexify_nibble_is_hex: "unhexify_nibble h = Inr n \<longleftrightarrow> is_hex h \<and> n = nib h"
proof (cases "is_hex h")
  case True
  then show ?thesis
    using is_hex_gt_9 [OF True]
    by (auto simp: is_hex_def nib_def unhexify_nibble_def ascii_simps not_le)
next
  case False
  then show ?thesis
    by (auto simp: is_hex_def unhexify_nibble_def ascii_simps split: if_splits)
qed

lemma is_hex_iff: "is_hex h \<longleftrightarrow> nib h < 16 \<and> h = hex_digit (nib h)"
  using unhexify_nibble_is_hex [of h "nib h"] unhexify_nibble_iff [of h "nib h"] by simp

lemma nib_hex_digit [simp]: "n < 16 \<Longrightarrow> nib (hex_digit n) = n"
  using unhexify_nibble_is_hex [of "hex_digit n" n] unhexify_nibble_iff [of "hex_digit n" n] by simp

lemma is_hex_hex_digit [simp]: "n < 16 \<Longrightarrow> is_hex (hex_digit n)"
  by (simp add: is_hex_iff)

lemma unhexify_eq:
  "length hs = 32 \<Longrightarrow> unhexify hs =
     (if \<forall>h \<in> set hs. is_hex h
      then Inr (map (\<lambda>i. nib (hs ! (2 * i)) + nib (hs ! (2 * i + 1)) * 16) [0..<16])
      else Inl (Invalid_hex_characters hs))"
proof -
  assume len: "length hs = 32"
  have lo: "[0, 2, 4, 6, 8, 10, 12, 14, 16, 18, 20, 22, 24, 26, 28, 30] = map (\<lambda>i. 2 * i) [0..<16]"
    by code_simp
  have hi: "[1, 3, 5, 7, 9, 11, 13, 15, 17, 19, 21, 23, 25, 27, 29, 31] = map (\<lambda>i. 2 * i + 1) [0..<16]"
    by code_simp
  have guard: "((\<exists>h \<in> set hs. h < 48) \<or> (\<exists>h \<in> set hs. h > 102) \<or> (\<exists>h \<in> set hs. h > 57 \<and> h < 97))
      \<longleftrightarrow> \<not> (\<forall>h \<in> set hs. is_hex h)"
  proof -
    have "is_hex h \<longleftrightarrow> \<not> (h < 48 \<or> h > 102 \<or> h > 57 \<and> h < 97)" for h :: u8
      unfolding is_hex_def by unat_arith
    then show ?thesis by blast
  qed
  have nibs: "map2 (-) hs (map (\<lambda>h. if h > 57 then 97 - 10 else 48) hs) = map nib hs"
    by (simp add: map2_map_same nib_def)
  have "map2 (+) (map ((!) (map nib hs)) (map (\<lambda>i. 2 * i) [0..<16]))
      (map (\<lambda>n. n * 16) (map ((!) (map nib hs)) (map (\<lambda>i. 2 * i + 1) [0..<16])))
      = map (\<lambda>i. nib (hs ! (2 * i)) + nib (hs ! (2 * i + 1)) * 16) [0..<16]"
    using len by (simp add: zip_map1 zip_map2 o_def zip_same_conv_map cong: map_cong)
  then show ?thesis
    unfolding unhexify_def Let_def simd_swizzle_def ascii_consts guard nibs lo hi by simp
qed

lemma hex_code_nth:
  "i < length bs \<Longrightarrow> hex_code bs ! (2 * i) = hex_digit (bs ! i mod 16)"
  "i < length bs \<Longrightarrow> hex_code bs ! (2 * i + 1) = hex_digit (bs ! i div 16)"
proof (induction bs arbitrary: i)
  case (Cons b bs)
  {
    case 1
    then show ?case using Cons.IH(1) by (cases i) (auto simp: hex_code_Cons)
  next
    case 2
    then show ?case using Cons.IH(2) by (cases i) (auto simp: hex_code_Cons)
  }
qed simp_all

lemma hex_code_is_hex: "h \<in> set (hex_code bs) \<Longrightarrow> is_hex h"
  by (induction bs) (auto simp: hex_code_Cons)

lemma hex_code_inject: "hex_code xs = hex_code ys \<longleftrightarrow> xs = ys"
proof
  assume eq: "hex_code xs = hex_code ys"
  then have len: "length xs = length ys"
    using length_hex_code [of xs] length_hex_code [of ys] by simp
  show "xs = ys"
  proof (rule nth_equalityI [OF len])
    fix i assume i: "i < length xs"
    have "nib (hex_code xs ! (2 * i)) = nib (hex_code ys ! (2 * i))"
      and "nib (hex_code xs ! (2 * i + 1)) = nib (hex_code ys ! (2 * i + 1))"
      by (simp_all only: eq)
    then have "xs ! i mod 16 = ys ! i mod 16" "xs ! i div 16 = ys ! i div 16"
      using i len by (simp_all only: hex_code_nth nib_hex_digit nibble_bounds)
    then have "xs ! i mod 16 + xs ! i div 16 * 16 = ys ! i mod 16 + ys ! i div 16 * 16"
      by (simp only:)
    then show "xs ! i = ys ! i" by (simp only: nibble_split)
  qed
qed simp

lemma unhexify_iff:
  assumes len: "length hs = 32"
  shows "unhexify hs = Inr bs \<longleftrightarrow> length bs = 16 \<and> hs = hex_code bs"
proof
  assume "unhexify hs = Inr bs"
  then have hex: "\<forall>h \<in> set hs. is_hex h"
    and bs: "bs = map (\<lambda>i. nib (hs ! (2 * i)) + nib (hs ! (2 * i + 1)) * 16) [0..<16]"
    using unhexify_eq [OF len] by (auto split: if_splits)
  then have lb: "length bs = 16" by simp
  have "hs = hex_code bs"
  proof (rule nth_equalityI)
    show "length hs = length (hex_code bs)" using len bs by simp
    fix j assume j: "j < length hs"
    have bnd: "nib (hs ! k) < 16" "hex_digit (nib (hs ! k)) = hs ! k" if "k < 32" for k
      using hex that len is_hex_iff nth_mem by metis+
    show "hs ! j = hex_code bs ! j"
    proof (cases "even j")
      case True
      then obtain i where i: "j = 2 * i" by blast
      then have "i < 16" using j len by simp
      then show ?thesis
        using i bs bnd [of "2 * i"] bnd [of "2 * i + 1"] hex_code_nth(1) [of i bs]
        by (simp add: nibble_join_mod_div)
    next
      case False
      then obtain i where i: "j = 2 * i + 1" using oddE by blast
      then have "i < 16" using j len by simp
      then show ?thesis
        using i bs bnd [of "2 * i"] bnd [of "2 * i + 1"] hex_code_nth(2) [of i bs]
        by (simp add: nibble_join_mod_div)
    qed
  qed
  with lb show "length bs = 16 \<and> hs = hex_code bs" by simp
next
  assume a: "length bs = 16 \<and> hs = hex_code bs"
  then have "\<forall>h \<in> set hs. is_hex h" by (auto intro: hex_code_is_hex)
  moreover have "map (\<lambda>i. nib (hs ! (2 * i)) + nib (hs ! (2 * i + 1)) * 16) [0..<16] = bs"
    by (rule nth_equalityI) (use a hex_code_nth [of _ bs] in \<open>simp_all add: nibble_split\<close>)
  ultimately show "unhexify hs = Inr bs" by (simp add: unhexify_eq [OF len])
qed

lemma unhexify_total:
  "length hs = 32 \<Longrightarrow> \<forall>h \<in> set hs. is_hex h \<Longrightarrow> \<exists>bs. unhexify hs = Inr bs"
  by (simp add: unhexify_eq)

section \<open>Strings\<close>

lemma as_bytes_hexify_string: "as_bytes (hexify_string s) = hex_code (as_bytes s)"
proof -
  obtain chunks r where c: "chunks_exact 16 (as_bytes s) = (chunks, r)" by fastforce
  have len: "length x = 16" if "x \<in> set chunks" for x
    using chunks_exact_length [of x 16 "as_bytes s"] c that by simp
  have byte: "[HEX_CHARS ! unat (b AND 0xf), HEX_CHARS ! unat (drop_bit 4 b)] = hex_code [b]" for b
  proof -
    have "b AND 0xf = b mod 16"
      using take_bit_eq_mask [of 4 b] by (simp add: take_bit_eq_mod mask_eq_exp_minus_1)
    then show ?thesis
      by (simp add: hex_code_Cons HEX_CHARS_nth drop_bit_eq_div)
  qed
  have "concat (map hexify chunks) = hex_code (concat chunks)"
    using len by (simp add: hex_code_concat hexify_hex_code cong: map_cong)
  moreover have "concat (map (\<lambda>b. [HEX_CHARS ! unat (b AND 0xf), HEX_CHARS ! unat (drop_bit 4 b)]) r) = hex_code r"
    unfolding byte by (induction r) (simp_all add: hex_code_Cons)
  moreover have "concat chunks @ r = as_bytes s"
    using chunks_exact_concat [of 16 "as_bytes s"] c by simp
  ultimately show ?thesis
    using c by (simp add: hexify_string_def hex_code_append [symmetric] del: hex_code_append)
qed

lemma unhexify_pair_iff:
  assumes "length p = 2"
  shows "unhexify_pair p = Inr v \<longleftrightarrow> p = hex_code [v]"
proof -
  from assms obtain a b where p: "p = [a, b]"
    by (auto simp: numeral_2_eq_2 length_Suc_conv)
  have "unhexify_pair [a, b] = Inr v \<longleftrightarrow> (\<exists>lo hi. unhexify_nibble a = Inr lo \<and> unhexify_nibble b = Inr hi \<and> v = lo + hi * 16)"
    by (auto simp: unhexify_pair_def push_bit_eq_mult split: sum.splits)
  also have "\<dots> \<longleftrightarrow> [a, b] = hex_code [v]"
    by (auto simp: unhexify_nibble_iff hex_code_Cons nibble_join_mod_div nibble_split
        intro: nibble_bounds nibble_split [symmetric])
  finally show ?thesis using p by simp
qed

lemma unhexify_pair_total: "length p = 2 \<Longrightarrow> \<forall>h \<in> set p. is_hex h \<Longrightarrow> \<exists>v. unhexify_pair p = Inr v"
  by (auto simp: numeral_2_eq_2 length_Suc_conv unhexify_pair_def unhexify_nibble_is_hex split: sum.splits)
    (metis unhexify_nibble_is_hex sum.distinct(1))+

text \<open>
  Whenever both loops of \<open>unhexify_string\<close> succeed, the input was the reference code of what they
  produced: the remainder of the second \<^verbatim>\<open>chunks_exact\<close> is empty because the length is even.
\<close>

lemma unhexify_loops_code:
  assumes c: "chunks_exact 32 hs = (chunks, rest)" and p: "chunks_exact 2 rest = (pairs, r)"
    and ev: "even (length hs)"
    and out: "try_map unhexify chunks = Inr out" and out': "try_map unhexify_pair pairs = Inr out'"
  shows "hs = hex_code (concat out @ out')"
proof -
  have lc: "length x = 32" if "x \<in> set chunks" for x
    using chunks_exact_length [of x 32 hs] c that by simp
  have lp: "length x = 2" if "x \<in> set pairs" for x
    using chunks_exact_length [of x 2 rest] p that by simp
  have cc: "concat chunks = hex_code (concat out)"
    using out lc unfolding try_map_Inr_iff
    by (induction rule: list_all2_induct) (simp_all add: unhexify_iff)
  have cp: "concat pairs = hex_code out'"
    using out' lp unfolding try_map_Inr_iff
    by (induction rule: list_all2_induct) (simp_all add: unhexify_pair_iff hex_code_Cons)
  have hb: "hs = concat chunks @ concat pairs @ r"
    using chunks_exact_concat [of 32 hs] chunks_exact_concat [of 2 rest] c p by simp
  have "length r < 2" using chunks_exact_rem_length [of 2 rest] p by simp
  moreover have "even (length r)" using ev hb cc cp by simp
  ultimately have "r = []" by (cases r) auto
  with hb cc cp show ?thesis by simp
qed

lemma unhexify_loops_total:
  assumes c: "chunks_exact 32 hs = (chunks, rest)" and p: "chunks_exact 2 rest = (pairs, r)"
    and hex: "\<forall>k \<in> set hs. is_hex k"
  shows "\<exists>out out'. try_map unhexify chunks = Inr out \<and> try_map unhexify_pair pairs = Inr out'"
proof -
  have lc: "length x = 32" if "x \<in> set chunks" for x
    using chunks_exact_length [of x 32 hs] c that by simp
  have lp: "length x = 2" if "x \<in> set pairs" for x
    using chunks_exact_length [of x 2 rest] p that by simp
  have "set hs = set (concat chunks @ concat pairs @ r)"
    using chunks_exact_concat [of 32 hs] chunks_exact_concat [of 2 rest] c p by simp
  with hex have "\<forall>x \<in> set chunks. \<forall>k \<in> set x. is_hex k" "\<forall>x \<in> set pairs. \<forall>k \<in> set x. is_hex k"
    by auto
  then have "\<exists>out. try_map unhexify chunks = Inr out" "\<exists>out. try_map unhexify_pair pairs = Inr out"
    using lc lp by (auto intro!: try_map_total unhexify_total unhexify_pair_total)
  then show ?thesis by blast
qed

lemma unhexify_string_forward:
  assumes "unhexify_string h = Inr s"
  shows "as_bytes h = hex_code (as_bytes s) \<and> utf8_valid (as_bytes s)"
proof -
  obtain chunks rest where c: "chunks_exact 32 (as_bytes h) = (chunks, rest)" by fastforce
  obtain pairs r where p: "chunks_exact 2 rest = (pairs, r)" by fastforce
  from assms c p obtain out out' where "even (length (as_bytes h))"
    and "try_map unhexify chunks = Inr out" and "try_map unhexify_pair pairs = Inr out'"
    and s: "s = from_bytes (concat out @ out')" and v: "utf8_valid (concat out @ out')"
    by (auto simp: unhexify_string_def Let_def even_iff_mod_2_eq_zero split: if_splits sum.splits)
  then have "as_bytes h = hex_code (concat out @ out')"
    using unhexify_loops_code [OF c p] by blast
  with s v show ?thesis by simp
qed

lemma unhexify_string_backward:
  assumes h: "as_bytes h = hex_code bs" and v: "utf8_valid bs"
  shows "unhexify_string h = Inr (from_bytes bs)"
proof -
  obtain chunks rest where c: "chunks_exact 32 (as_bytes h) = (chunks, rest)" by fastforce
  obtain pairs r where p: "chunks_exact 2 rest = (pairs, r)" by fastforce
  have "\<forall>k \<in> set (as_bytes h). is_hex k" using h hex_code_is_hex [of _ bs] by auto
  then obtain out out' where o: "try_map unhexify chunks = Inr out" "try_map unhexify_pair pairs = Inr out'"
    using unhexify_loops_total [OF c p] by blast
  have ev: "even (length (as_bytes h))" by (simp only: h length_hex_code) simp
  have "hex_code (concat out @ out') = hex_code bs"
    using unhexify_loops_code [OF c p ev o] h by simp
  then have "concat out @ out' = bs" by (simp only: hex_code_inject)
  then show ?thesis
    using o c p v ev by (simp add: unhexify_string_def Let_def even_iff_mod_2_eq_zero)
qed

text \<open>
  Reference: the exact inverse. A string unhexifies to \<open>s\<close> precisely when it is the hexification
  of \<open>s\<close> and \<open>s\<close> is valid UTF-8, so the decoder accepts nothing but the encoder's output.
\<close>

lemma unhexify_string_iff:
  "unhexify_string h = Inr s \<longleftrightarrow> h = hexify_string s \<and> utf8_valid (as_bytes s)"
proof
  assume "unhexify_string h = Inr s"
  then have "as_bytes h = as_bytes (hexify_string s)" and v: "utf8_valid (as_bytes s)"
    using unhexify_string_forward as_bytes_hexify_string by auto
  then have "from_bytes (as_bytes h) = from_bytes (as_bytes (hexify_string s))" by simp
  then show "h = hexify_string s \<and> utf8_valid (as_bytes s)" using v by simp
next
  assume "h = hexify_string s \<and> utf8_valid (as_bytes s)"
  then show "unhexify_string h = Inr s"
    using unhexify_string_backward [of h "as_bytes s"] by (simp add: as_bytes_hexify_string)
qed

section \<open>Properties\<close>

text \<open>
  \<open>hexify_string\<close>, which runs the SIMD routine on the sixteen-byte chunks and a table lookup on
  the remainder, is the bytewise reference code (lower nibble first) on every string.
\<close>

theorem hexify_string_reference: "hexify_string s = from_bytes (hex_code (as_bytes s))"
  by (metis as_bytes_hexify_string from_bytes_as_bytes)

text \<open>
  \<open>unhexify_string\<close> is the exact inverse of \<open>hexify_string\<close>: it succeeds with \<open>s\<close> on the code of
  \<open>s\<close>, and on nothing else (wrong characters, upper case, odd lengths and codes of invalid UTF-8 are
  errors).
\<close>

theorem unhexify_string_inverse:
  "unhexify_string h = Inr s \<longleftrightarrow> h = hexify_string s \<and> utf8_valid (as_bytes s)"
  by (rule unhexify_string_iff)

end
