(* ===== verification/Regex_Lang.thy ===== *)
theory Regex_Lang
  imports Prelude
begin

text \<open>
  The interface to the \<^verbatim>\<open>regex\<close> crate. The patterns are written in the sources and are translated
  as abstract syntax; the engine that runs them is outside the repository, so every definition
  that matches a pattern takes it as an argument \<open>is_match\<close>. The locale \<open>regex_engine\<close> states what
  the crate documents: an anchored pattern matches a haystack exactly when the haystack is a word
  of the pattern's language. The locale is interpreted on a derivative-based matcher, which is
  proved to satisfy the contract and makes the definitions executable.
\<close>

section \<open>Patterns and their languages\<close>

datatype rx =
    Rx_eps                      \<comment> \<open>the empty word\<close>
  | Rx_class "char \<Rightarrow> bool"      \<comment> \<open>a character class\<close>
  | Rx_seq rx rx
  | Rx_alt rx rx
  | Rx_star rx
  | Rx_none                     \<comment> \<open>no word at all\<close>

inductive_set star_lang :: "string set \<Rightarrow> string set" for L :: "string set" where
  star_nil [simp, intro]: "[] \<in> star_lang L"
| star_cons: "u \<in> L \<Longrightarrow> v \<in> star_lang L \<Longrightarrow> u @ v \<in> star_lang L"

primrec lang :: "rx \<Rightarrow> string set" where
  "lang Rx_eps = {[]}"
| "lang (Rx_class P) = {[c] | c. P c}"
| "lang (Rx_seq r s) = {u @ v | u v. u \<in> lang r \<and> v \<in> lang s}"
| "lang (Rx_alt r s) = lang r \<union> lang s"
| "lang (Rx_star r) = star_lang (lang r)"
| "lang Rx_none = {}"

text \<open>The derived operators of the pattern syntax.\<close>

definition rx_chr :: "char \<Rightarrow> rx" where
  "rx_chr c = Rx_class (\<lambda>d. d = c)"

definition rx_opt :: "rx \<Rightarrow> rx" where  \<comment> \<open>\<^verbatim>\<open>r?\<close>\<close>
  "rx_opt r = Rx_alt Rx_eps r"

fun rx_upto :: "nat \<Rightarrow> rx \<Rightarrow> rx" where  \<comment> \<open>\<^verbatim>\<open>r{0,n}\<close>\<close>
  "rx_upto 0 r = Rx_eps"
| "rx_upto (Suc n) r = Rx_alt Rx_eps (Rx_seq r (rx_upto n r))"

definition in_range :: "char \<Rightarrow> char \<Rightarrow> char \<Rightarrow> bool" where  \<comment> \<open>\<^verbatim>\<open>[lo-hi]\<close>\<close>
  "in_range lo hi c \<longleftrightarrow> (of_char lo :: nat) \<le> of_char c \<and> (of_char c :: nat) \<le> of_char hi"

section \<open>The engine\<close>

locale regex_engine =
  fixes is_match :: "rx \<Rightarrow> string \<Rightarrow> bool"
  assumes is_match_iff: "is_match r s \<longleftrightarrow> s \<in> lang r"

section \<open>Language lemmas\<close>

lemma lang_class_star: "lang (Rx_star (Rx_class P)) = {s. \<forall>c \<in> set s. P c}"
proof (intro set_eqI iffI)
  fix s assume "s \<in> lang (Rx_star (Rx_class P))"
  then have "s \<in> star_lang {[c] | c. P c}" by simp
  then show "s \<in> {s. \<forall>c \<in> set s. P c}"
    by (induction rule: star_lang.induct) auto
next
  fix s assume "s \<in> {s. \<forall>c \<in> set s. P c}"
  then have "\<forall>c \<in> set s. P c" by simp
  then have "s \<in> star_lang {[c] | c. P c}"
  proof (induction s)
    case Nil
    show ?case by simp
  next
    case (Cons c s)
    then have "[c] \<in> {[c] | c. P c}" and "s \<in> star_lang {[c] | c. P c}" by auto
    then have "[c] @ s \<in> star_lang {[c] | c. P c}" by (rule star_lang.star_cons)
    then show ?case by simp
  qed
  then show "s \<in> lang (Rx_star (Rx_class P))" by simp
qed

lemma mem_lang_class_seq:
  "s \<in> lang (Rx_seq (Rx_class P) r) \<longleftrightarrow> (\<exists>c t. s = c # t \<and> P c \<and> t \<in> lang r)"
proof
  assume "s \<in> lang (Rx_seq (Rx_class P) r)"
  then show "\<exists>c t. s = c # t \<and> P c \<and> t \<in> lang r" by auto
next
  assume "\<exists>c t. s = c # t \<and> P c \<and> t \<in> lang r"
  then obtain c t where "s = [c] @ t" "P c" "t \<in> lang r" by auto
  then show "s \<in> lang (Rx_seq (Rx_class P) r)" by (simp only: lang.simps) blast
qed

lemma mem_lang_seq_class:
  "s \<in> lang (Rx_seq r (Rx_class P)) \<longleftrightarrow> (\<exists>u c. s = u @ [c] \<and> u \<in> lang r \<and> P c)"
  by auto

lemma lang_class_upto:
  "lang (rx_upto n (Rx_class P)) = {s. length s \<le> n \<and> (\<forall>c \<in> set s. P c)}"
proof (induction n)
  case 0
  show ?case by auto
next
  case (Suc n)
  show ?case
  proof (intro set_eqI iffI)
    fix s assume "s \<in> lang (rx_upto (Suc n) (Rx_class P))"
    then show "s \<in> {s. length s \<le> Suc n \<and> (\<forall>c \<in> set s. P c)}"
      by (auto simp: Suc.IH)
  next
    fix s assume "s \<in> {s. length s \<le> Suc n \<and> (\<forall>c \<in> set s. P c)}"
    then show "s \<in> lang (rx_upto (Suc n) (Rx_class P))"
      by (cases s) (auto simp: Suc.IH mem_lang_class_seq simp del: lang.simps(3))
  qed
qed

lemma mem_lang_chr_seq: "s \<in> lang (Rx_seq (rx_chr c) r) \<longleftrightarrow> (\<exists>t. s = c # t \<and> t \<in> lang r)"
  by (auto simp: rx_chr_def)

lemma mem_lang_opt: "s \<in> lang (rx_opt r) \<longleftrightarrow> s = [] \<or> s \<in> lang r"
  by (auto simp: rx_opt_def)

section \<open>A derivative-based engine\<close>

primrec nullable :: "rx \<Rightarrow> bool" where
  "nullable Rx_eps = True"
| "nullable (Rx_class P) = False"
| "nullable (Rx_seq r s) = (nullable r \<and> nullable s)"
| "nullable (Rx_alt r s) = (nullable r \<or> nullable s)"
| "nullable (Rx_star r) = True"
| "nullable Rx_none = False"

text \<open>Simplifying constructors keep the derivatives small.\<close>

fun mk_seq :: "rx \<Rightarrow> rx \<Rightarrow> rx" where
  "mk_seq Rx_none s = Rx_none"
| "mk_seq Rx_eps s = s"
| "mk_seq r s = Rx_seq r s"

fun mk_alt :: "rx \<Rightarrow> rx \<Rightarrow> rx" where
  "mk_alt Rx_none s = s"
| "mk_alt r Rx_none = r"
| "mk_alt r s = Rx_alt r s"

lemma lang_mk_seq [simp]: "lang (mk_seq r s) = lang (Rx_seq r s)"
  by (cases "(r, s)" rule: mk_seq.cases) auto

lemma lang_mk_alt [simp]: "lang (mk_alt r s) = lang r \<union> lang s"
  by (cases "(r, s)" rule: mk_alt.cases) auto

primrec deriv :: "char \<Rightarrow> rx \<Rightarrow> rx" where
  "deriv c Rx_eps = Rx_none"
| "deriv c (Rx_class P) = (if P c then Rx_eps else Rx_none)"
| "deriv c (Rx_seq r s) =
     (if nullable r then mk_alt (mk_seq (deriv c r) s) (deriv c s) else mk_seq (deriv c r) s)"
| "deriv c (Rx_alt r s) = mk_alt (deriv c r) (deriv c s)"
| "deriv c (Rx_star r) = mk_seq (deriv c r) (Rx_star r)"
| "deriv c Rx_none = Rx_none"

fun rx_matches :: "rx \<Rightarrow> string \<Rightarrow> bool" where
  "rx_matches r [] = nullable r"
| "rx_matches r (c # s) = rx_matches (deriv c r) s"

lemma nullable_iff: "nullable r \<longleftrightarrow> [] \<in> lang r"
  by (induction r) auto

lemma star_lang_Cons:
  "c # s \<in> star_lang L \<longleftrightarrow> (\<exists>u v. c # u \<in> L \<and> v \<in> star_lang L \<and> s = u @ v)"
proof
  assume "c # s \<in> star_lang L"
  then show "\<exists>u v. c # u \<in> L \<and> v \<in> star_lang L \<and> s = u @ v"
  proof (induction "c # s" arbitrary: s rule: star_lang.induct)
    case (star_cons u v)
    then show ?case by (cases u) auto
  qed
next
  assume "\<exists>u v. c # u \<in> L \<and> v \<in> star_lang L \<and> s = u @ v"
  then obtain u v where "c # u \<in> L" "v \<in> star_lang L" and s: "s = u @ v" by blast
  then have "(c # u) @ v \<in> star_lang L" by (blast intro: star_lang.star_cons)
  with s show "c # s \<in> star_lang L" by simp
qed

lemma mem_lang_seq_Cons:
  "c # s \<in> lang (Rx_seq r t) \<longleftrightarrow>
     ([] \<in> lang r \<and> c # s \<in> lang t) \<or> (\<exists>u v. c # u \<in> lang r \<and> v \<in> lang t \<and> s = u @ v)"
  by (auto simp: Cons_eq_append_conv)

lemma deriv_iff: "s \<in> lang (deriv c r) \<longleftrightarrow> c # s \<in> lang r"
proof (induction r arbitrary: s)
  case (Rx_seq r1 r2)
  show ?case
    unfolding mem_lang_seq_Cons
    by (auto simp: Rx_seq.IH nullable_iff)
next
  case (Rx_star r)
  show ?case
    by (auto simp: Rx_star.IH star_lang_Cons)
qed auto

lemma rx_matches_iff: "rx_matches r s \<longleftrightarrow> s \<in> lang r"
  by (induction s arbitrary: r) (simp_all add: nullable_iff deriv_iff)

interpretation deriv_engine: regex_engine rx_matches
  by unfold_locales (rule rx_matches_iff)

end
