(* ===== verification/Names.thy ===== *)
theory Names
  imports Hex Regex_Lang
begin

text \<open>
  Canonical component names and pod names (\<^verbatim>\<open>runtime/names.rs\<close>): the permissive parser
  \<open>Name_parse\<close>, the validating conversions \<open>Name_component\<close> and \<open>Name_pod\<close>, the constructors of the
  name types with their syntactic checks, and their \<^verbatim>\<open>Display\<close> forms. Every definition that runs a
  pattern takes the regex engine \<open>is_match\<close> as its first argument.
\<close>

section \<open>Model\<close>

definition DOMAIN_SEPARATOR :: char where "DOMAIN_SEPARATOR = CHR '':''"
definition VERSION_SEPARATOR :: char where "VERSION_SEPARATOR = CHR ''@''"
definition POD_ID_SEPARATOR :: char where "POD_ID_SEPARATOR = CHR ''#''"

lemmas separator_defs = DOMAIN_SEPARATOR_def VERSION_SEPARATOR_def POD_ID_SEPARATOR_def

type_synonym pod_id = usize

record name =
  nm_domain :: "string option"
  nm_server :: string
  nm_version :: "string option"
  nm_pod :: "string option"

text \<open>The part after the \<^verbatim>\<open>@\<close>: a version (always present) and possibly a pod ID.\<close>

definition parse_version :: "string \<Rightarrow> string option \<times> string option" where
  "parse_version version =
     (case str_find (\<lambda>c. c = POD_ID_SEPARATOR) version of
        None \<Rightarrow> (Some version, None)
      | Some index \<Rightarrow> (Some (take index version), Some (drop (index + 1) version)))"

definition Name_parse :: "string \<Rightarrow> name" where
  "Name_parse full =
     (case str_find (\<lambda>c. c = DOMAIN_SEPARATOR \<or> c = VERSION_SEPARATOR) full of
        None \<Rightarrow> \<lparr>nm_domain = None, nm_server = full, nm_version = None, nm_pod = None\<rparr>
      | Some index \<Rightarrow>
          if full ! index = DOMAIN_SEPARATOR then
            let start = index + 1 in
            (case str_find (\<lambda>c. c = VERSION_SEPARATOR) (drop start full) of
               None \<Rightarrow> \<lparr>nm_domain = Some (take index full), nm_server = drop start full,
                        nm_version = None, nm_pod = None\<rparr>
             | Some v_index \<Rightarrow>
                 let stop = start + v_index;
                     (version, pod) = parse_version (drop (stop + 1) full)
                 in \<lparr>nm_domain = Some (take index full), nm_server = take (stop - start) (drop start full),
                     nm_version = version, nm_pod = pod\<rparr>)
          else
            let (version, pod) = parse_version (drop (index + 1) full)
            in \<lparr>nm_domain = None, nm_server = take index full, nm_version = version, nm_pod = pod\<rparr>)"

text \<open>The \<^verbatim>\<open>Debug\<close> form of a parsed name, used in error messages.\<close>

definition Name_debug :: "name \<Rightarrow> string" where
  "Name_debug n =
     CHR 0x22 # (case nm_domain n of Some d \<Rightarrow> d @ [DOMAIN_SEPARATOR] | None \<Rightarrow> [])
     @ nm_server n
     @ (case nm_version n of
          Some v \<Rightarrow> VERSION_SEPARATOR # v
            @ (case nm_pod n of Some p \<Rightarrow> POD_ID_SEPARATOR # p | None \<Rightarrow> [])
        | None \<Rightarrow> [])
     @ [CHR 0x22]"

record domain_uuid =
  uuid :: bytes  \<comment> \<open>\<^verbatim>\<open>u8x16\<close>\<close>

definition DomainUuid_parse :: "string \<Rightarrow> name_error + domain_uuid" where
  "DomainUuid_parse u =
     (if length u = 32
      then (case unhexify (as_bytes u) of Inl e \<Rightarrow> Inl e | Inr b \<Rightarrow> Inr \<lparr>uuid = b\<rparr>)
      else Inl (Incorrect_domain_uuid_length (length u)))"

definition DomainUuid_new :: "bytes \<Rightarrow> domain_uuid" where
  "DomainUuid_new bytes = \<lparr>uuid = bytes\<rparr>"

definition DomainUuid_to_string :: "domain_uuid \<Rightarrow> string" where
  "DomainUuid_to_string d = from_bytes (hexify (uuid d))"

record server_name =
  sn_domain :: domain_uuid
  sn_server :: string

record component_name =
  cn_server :: server_name
  cn_version :: string

record pod_name =
  pn_component :: component_name
  pn_pod :: pod_id

text \<open>
  \<^verbatim>\<open>^[a-z](?:[0-9a-z-]{0,61}[0-9a-z])?$\<close>
\<close>

definition lower :: "char \<Rightarrow> bool" where "lower = in_range CHR ''a'' CHR ''z''"
definition upper :: "char \<Rightarrow> bool" where "upper = in_range CHR ''A'' CHR ''Z''"
definition digit :: "char \<Rightarrow> bool" where "digit = in_range CHR ''0'' CHR ''9''"

definition PATH_RE :: rx where
  "PATH_RE =
     Rx_seq (Rx_class lower)
       (rx_opt (Rx_seq (rx_upto 61 (Rx_class (\<lambda>c. digit c \<or> lower c \<or> c = CHR ''-'')))
                       (Rx_class (\<lambda>c. digit c \<or> lower c))))"

definition is_valid_server_name :: "(rx \<Rightarrow> string \<Rightarrow> bool) \<Rightarrow> string \<Rightarrow> bool" where
  "is_valid_server_name is_match name = is_match PATH_RE name"

definition K8S_LABEL_VALUE_MAX_LENGTH :: nat where
  "K8S_LABEL_VALUE_MAX_LENGTH = 63"

text \<open>
  \<^verbatim>\<open>^(?:0|[1-9][0-9]*)\.(?:0|[1-9][0-9]*)\.(?:0|[1-9][0-9]*)\<close> followed by
  \<^verbatim>\<open>(?:-(?:0|[1-9][0-9]*|[0-9A-Za-z-]*(?:[A-Za-z]|[A-Za-z-][0-9A-Za-z-]*[0-9A-Za-z])))?$\<close>
\<close>

definition NUMERIC_RE :: rx where
  "NUMERIC_RE = Rx_alt (rx_chr CHR ''0'') (Rx_seq (Rx_class (in_range CHR ''1'' CHR ''9'')) (Rx_star (Rx_class digit)))"

definition alpha :: "char \<Rightarrow> bool" where  \<comment> \<open>\<^verbatim>\<open>[A-Za-z]\<close>\<close>
  "alpha c \<longleftrightarrow> upper c \<or> lower c"

definition alpha_dash :: "char \<Rightarrow> bool" where  \<comment> \<open>\<^verbatim>\<open>[A-Za-z-]\<close>\<close>
  "alpha_dash c \<longleftrightarrow> alpha c \<or> c = CHR ''-''"

definition alnum :: "char \<Rightarrow> bool" where  \<comment> \<open>\<^verbatim>\<open>[0-9A-Za-z]\<close>\<close>
  "alnum c \<longleftrightarrow> digit c \<or> alpha c"

definition alnum_dash :: "char \<Rightarrow> bool" where  \<comment> \<open>\<^verbatim>\<open>[0-9A-Za-z-]\<close>\<close>
  "alnum_dash c \<longleftrightarrow> alnum c \<or> c = CHR ''-''"

definition PRERELEASE_RE :: rx where
  "PRERELEASE_RE =
     Rx_alt NUMERIC_RE
       (Rx_seq (Rx_star (Rx_class alnum_dash))
          (Rx_alt (Rx_class alpha)
             (Rx_seq (Rx_class alpha_dash)
                (Rx_seq (Rx_star (Rx_class alnum_dash)) (Rx_class alnum)))))"

definition VERSION_RE :: rx where
  "VERSION_RE =
     Rx_seq NUMERIC_RE (Rx_seq (rx_chr CHR ''.'') (Rx_seq NUMERIC_RE (Rx_seq (rx_chr CHR ''.'')
       (Rx_seq NUMERIC_RE (rx_opt (Rx_seq (rx_chr CHR ''-'') PRERELEASE_RE))))))"

definition is_valid_version :: "(rx \<Rightarrow> string \<Rightarrow> bool) \<Rightarrow> string \<Rightarrow> bool" where
  "is_valid_version is_match version \<longleftrightarrow>
     length version \<le> K8S_LABEL_VALUE_MAX_LENGTH \<and> is_match VERSION_RE version"

definition ServerName_new ::
    "(rx \<Rightarrow> string \<Rightarrow> bool) \<Rightarrow> domain_uuid \<Rightarrow> string \<Rightarrow> name_error + server_name" where
  "ServerName_new is_match domain server =
     (if is_valid_server_name is_match server
      then Inr \<lparr>sn_domain = domain, sn_server = server\<rparr>
      else Inl (Invalid_server_id server))"

definition ServerName_to_string :: "server_name \<Rightarrow> string" where
  "ServerName_to_string s = DomainUuid_to_string (sn_domain s) @ DOMAIN_SEPARATOR # sn_server s"

definition ComponentName_new ::
    "(rx \<Rightarrow> string \<Rightarrow> bool) \<Rightarrow> domain_uuid \<Rightarrow> string \<Rightarrow> string \<Rightarrow> name_error + component_name" where
  "ComponentName_new is_match domain server version =
     (if is_valid_version is_match version
      then (case ServerName_new is_match domain server of
              Inl e \<Rightarrow> Inl e
            | Inr s \<Rightarrow> Inr \<lparr>cn_server = s, cn_version = version\<rparr>)
      else Inl (Invalid_version version))"

definition ComponentName_to_string :: "component_name \<Rightarrow> string" where
  "ComponentName_to_string c = ServerName_to_string (cn_server c) @ VERSION_SEPARATOR # cn_version c"

definition PodName_new :: "component_name \<Rightarrow> pod_id \<Rightarrow> pod_name" where
  "PodName_new component pod_id = \<lparr>pn_component = component, pn_pod = pod_id\<rparr>"

definition PodName_to_string :: "pod_name \<Rightarrow> string" where
  "PodName_to_string p = ComponentName_to_string (pn_component p) @ POD_ID_SEPARATOR # int_hex (uint (pn_pod p))"

definition Name_component :: "(rx \<Rightarrow> string \<Rightarrow> bool) \<Rightarrow> name \<Rightarrow> name_error + component_name" where
  "Name_component is_match n =
     (case (nm_domain n, nm_version n, nm_pod n) of
        (Some domain, Some version, None) \<Rightarrow>
          (case DomainUuid_parse domain of
             Inl e \<Rightarrow> Inl e
           | Inr d \<Rightarrow> ComponentName_new is_match d (nm_server n) version)
      | _ \<Rightarrow> Inl (Invalid_component_name (Name_debug n)))"

definition Name_pod :: "(rx \<Rightarrow> string \<Rightarrow> bool) \<Rightarrow> name \<Rightarrow> name_error + pod_name" where
  "Name_pod is_match n =
     (case (nm_domain n, nm_version n, nm_pod n) of
        (Some domain, Some version, Some pod) \<Rightarrow>
          (case DomainUuid_parse domain of
             Inl e \<Rightarrow> Inl e
           | Inr d \<Rightarrow>
               (case ComponentName_new is_match d (nm_server n) version of
                  Inl e \<Rightarrow> Inl e
                | Inr component \<Rightarrow>
                    (case usize_from_str_radix16 pod of
                       None \<Rightarrow> Inl Invalid_pod_id
                     | Some pod \<Rightarrow> Inr (PodName_new component pod))))
      | _ \<Rightarrow> Inl (Invalid_pod_name (Name_debug n)))"


section \<open>What the patterns accept\<close>

text \<open>
  The documentation comments of \<open>is_valid_server_name\<close> and \<open>is_valid_version\<close>, as predicates.
\<close>

definition server_name_doc :: "string \<Rightarrow> bool" where
  "server_name_doc s \<longleftrightarrow>
     length s \<le> 63 \<and> (\<forall>c \<in> set s. digit c \<or> lower c \<or> c = CHR ''-'')
     \<and> s \<noteq> [] \<and> lower (hd s) \<and> (digit (last s) \<or> lower (last s))"

definition numeric_identifier :: "string \<Rightarrow> bool" where
  "numeric_identifier s \<longleftrightarrow> s = ''0'' \<or> (s \<noteq> [] \<and> (\<forall>c \<in> set s. digit c) \<and> hd s \<noteq> CHR ''0'')"

definition prerelease_doc :: "string \<Rightarrow> bool" where
  "prerelease_doc p \<longleftrightarrow>
     numeric_identifier p
     \<or> (p \<noteq> [] \<and> (\<forall>c \<in> set p. alnum_dash c)
        \<and> (\<exists>c \<in> set p. \<not> digit c) \<and> last p \<noteq> CHR ''-'')"

definition version_doc :: "string \<Rightarrow> bool" where
  "version_doc v \<longleftrightarrow>
     length v \<le> 63
     \<and> (\<exists>major minor patch rest. v = major @ ''.'' @ minor @ ''.'' @ patch @ rest
          \<and> numeric_identifier major \<and> numeric_identifier minor \<and> numeric_identifier patch
          \<and> (rest = [] \<or> (\<exists>p. rest = CHR ''-'' # p \<and> prerelease_doc p)))"

lemmas class_defs = lower_def upper_def digit_def in_range_def

lemmas alnum_defs = alpha_def alpha_dash_def alnum_def alnum_dash_def

lemma class_disjoint [ascii_simps]:
  "alpha c \<Longrightarrow> \<not> digit c" "alpha_dash c \<Longrightarrow> \<not> digit c" "alnum c \<Longrightarrow> c \<noteq> CHR ''-''"
  by (auto simp: class_defs alnum_defs)

lemma class_sub [intro]:
  "alpha c \<Longrightarrow> alnum c" "digit c \<Longrightarrow> alnum c" "alnum c \<Longrightarrow> alnum_dash c"
  "alpha_dash c \<Longrightarrow> alnum_dash c"
  by (auto simp: alnum_defs)

lemma class_split:
  "alnum_dash c \<Longrightarrow> \<not> digit c \<Longrightarrow> alpha_dash c"
  "alpha_dash c \<Longrightarrow> c \<noteq> CHR ''-'' \<Longrightarrow> alpha c"
  by (auto simp: alnum_defs)

lemma class_not_separator [ascii_simps]:
  "alnum_dash c \<Longrightarrow> c \<notin> {CHR '':'', CHR ''@'', CHR ''#''}"
  "digit c \<Longrightarrow> c \<notin> {CHR '':'', CHR ''@'', CHR ''#''}"
  "lower c \<Longrightarrow> c \<notin> {CHR '':'', CHR ''@'', CHR ''#''}"
  by (auto simp: class_defs alnum_defs)

lemma PATH_RE_lang: "s \<in> lang PATH_RE \<longleftrightarrow> server_name_doc s"
proof
  assume "s \<in> lang PATH_RE"
  then obtain c t where "s = c # t" "lower c"
    and "t = [] \<or> (\<exists>u d. t = u @ [d] \<and> length u \<le> 61
          \<and> (\<forall>x \<in> set u. digit x \<or> lower x \<or> x = CHR ''-'') \<and> (digit d \<or> lower d))"
    unfolding PATH_RE_def mem_lang_class_seq mem_lang_opt mem_lang_seq_class lang_class_upto by auto
  then show "server_name_doc s" by (auto simp: server_name_doc_def)
next
  assume doc: "server_name_doc s"
  then obtain c t where s: "s = c # t" and c: "lower c" by (cases s) (auto simp: server_name_doc_def)
  have "t = [] \<or> (\<exists>u d. t = u @ [d] \<and> length u \<le> 61
          \<and> (\<forall>x \<in> set u. digit x \<or> lower x \<or> x = CHR ''-'') \<and> (digit d \<or> lower d))"
    using doc s by (cases t rule: rev_cases) (auto simp: server_name_doc_def)
  with s c show "s \<in> lang PATH_RE"
    unfolding PATH_RE_def mem_lang_class_seq mem_lang_opt mem_lang_seq_class lang_class_upto by auto
qed

lemma NUMERIC_RE_lang: "s \<in> lang NUMERIC_RE \<longleftrightarrow> numeric_identifier s"
proof -
  have d: "in_range CHR ''1'' CHR ''9'' c \<longleftrightarrow> digit c \<and> c \<noteq> CHR ''0''" for c
  proof -
    have "c = CHR ''0'' \<longleftrightarrow> (of_char c :: nat) = of_char CHR ''0''" by (simp only: of_char_eq_iff)
    then have "c = CHR ''0'' \<longleftrightarrow> (of_char c :: nat) = 48" by simp
    then show ?thesis by (auto simp: class_defs)
  qed
  have "s \<in> lang NUMERIC_RE \<longleftrightarrow>
      s = ''0'' \<or> (\<exists>c t. s = c # t \<and> in_range CHR ''1'' CHR ''9'' c \<and> (\<forall>x \<in> set t. digit x))"
    by (simp add: NUMERIC_RE_def rx_chr_def mem_lang_class_seq lang_class_star del: lang.simps(3) lang.simps(5))
  then show ?thesis
    unfolding d numeric_identifier_def by (cases s) auto
qed

lemma PRERELEASE_RE_lang: "p \<in> lang PRERELEASE_RE \<longleftrightarrow> prerelease_doc p"
proof -
  let ?X = "\<lambda>s. \<forall>c \<in> set s. alnum_dash c"
  let ?tail = "\<lambda>v. (\<exists>l. v = [l] \<and> alpha l) \<or>
      (\<exists>x w d. v = x # w @ [d] \<and> alpha_dash x \<and> ?X w \<and> alnum d)"
  have lang: "p \<in> lang PRERELEASE_RE \<longleftrightarrow>
      numeric_identifier p \<or> (\<exists>u v. p = u @ v \<and> ?X u \<and> ?tail v)"
    unfolding PRERELEASE_RE_def lang.simps(4) Un_iff NUMERIC_RE_lang lang.simps(3) [of "Rx_star _"]
    by (simp add: mem_lang_class_seq mem_lang_seq_class lang_class_star del: lang.simps(3) lang.simps(5))
      blast
  have fwd: "prerelease_doc (u @ v)" if "?X u" "?tail v" for u v
    using that class_disjoint class_sub unfolding prerelease_doc_def by auto
  have bwd: "\<exists>u v. p = u @ v \<and> ?X u \<and> ?tail v"
    if ne: "p \<noteq> []" and X: "?X p" and nd: "\<exists>c \<in> set p. \<not> digit c" and l: "last p \<noteq> CHR ''-''"
  proof -
    from ne obtain u d where p: "p = u @ [d]" by (cases p rule: rev_cases) auto
    show ?thesis
    proof (cases "digit d")
      case True
      with nd p obtain c where c: "c \<in> set u" "\<not> digit c" by auto
      then obtain u1 u2 where u: "u = u1 @ c # u2" by (meson split_list)
      have "?tail (c # u2 @ [d])" using X p u c True class_split(1) by auto
      with X p u show ?thesis by (intro exI [of _ u1] exI [of _ "c # u2 @ [d]"]) simp
    next
      case False
      then have "?tail [d]" using X p l class_split by simp
      with X p show ?thesis by (intro exI [of _ u] exI [of _ "[d]"]) simp
    qed
  qed
  show ?thesis
  proof
    assume "p \<in> lang PRERELEASE_RE"
    then consider "numeric_identifier p" | u v where "p = u @ v" "?X u" "?tail v"
      unfolding lang by (elim disjE exE conjE) simp_all
    then show "prerelease_doc p"
    proof cases
      case 1
      then show ?thesis by (simp add: prerelease_doc_def)
    next
      case 2
      then show ?thesis using fwd by simp
    qed
  next
    assume "prerelease_doc p"
    then show "p \<in> lang PRERELEASE_RE"
      unfolding lang prerelease_doc_def [of p] using bwd by (elim disjE) simp_all
  qed
qed

lemma mem_lang_seq: "s \<in> lang (Rx_seq r t) \<longleftrightarrow> (\<exists>u v. s = u @ v \<and> u \<in> lang r \<and> v \<in> lang t)"
  by auto

lemma VERSION_RE_lang:
  "v \<in> lang VERSION_RE \<longleftrightarrow>
     (\<exists>major minor patch rest. v = major @ ''.'' @ minor @ ''.'' @ patch @ rest
        \<and> numeric_identifier major \<and> numeric_identifier minor \<and> numeric_identifier patch
        \<and> (rest = [] \<or> (\<exists>p. rest = CHR ''-'' # p \<and> prerelease_doc p)))"
  (is "?L \<longleftrightarrow> ?R")
proof
  assume ?L
  then obtain a b c d e where "v = a @ CHR ''.'' # b @ CHR ''.'' # c @ d"
    and "numeric_identifier a" "numeric_identifier b" "numeric_identifier c"
    and "d = [] \<or> d \<in> lang (Rx_seq (rx_chr CHR ''-'') PRERELEASE_RE)"
    unfolding VERSION_RE_def mem_lang_seq [of _ NUMERIC_RE] mem_lang_chr_seq mem_lang_opt NUMERIC_RE_lang
    by (elim exE conjE) simp
  then show ?R unfolding mem_lang_chr_seq PRERELEASE_RE_lang
    by (intro exI [of _ a] exI [of _ b] exI [of _ c] exI [of _ d]) simp
next
  assume ?R
  then obtain a b c d where v: "v = a @ ''.'' @ b @ ''.'' @ c @ d"
    and n: "numeric_identifier a" "numeric_identifier b" "numeric_identifier c"
    and d: "d \<in> lang (rx_opt (Rx_seq (rx_chr CHR ''-'') PRERELEASE_RE))"
    unfolding mem_lang_opt mem_lang_chr_seq PRERELEASE_RE_lang by (elim exE conjE) simp
  have dot: "CHR ''.'' # t \<in> lang (Rx_seq (rx_chr CHR ''.'') r)" if "t \<in> lang r" for t r
    using that by (simp only: mem_lang_chr_seq) simp
  have num: "u @ t \<in> lang (Rx_seq NUMERIC_RE r)" if "numeric_identifier u" "t \<in> lang r" for u t r
    using that by (simp only: mem_lang_seq NUMERIC_RE_lang) blast
  show ?L
    unfolding VERSION_RE_def v append_Cons append_Nil by (intro num dot n d)
qed

context regex_engine
begin

lemma server_name_iff: "is_valid_server_name is_match s \<longleftrightarrow> server_name_doc s"
  by (simp add: is_valid_server_name_def is_match_iff PATH_RE_lang)

lemma version_iff: "is_valid_version is_match v \<longleftrightarrow> version_doc v"
  by (simp add: is_valid_version_def is_match_iff VERSION_RE_lang version_doc_def
      K8S_LABEL_VALUE_MAX_LENGTH_def)

end

section \<open>Name invariants\<close>

definition domain_wf :: "domain_uuid \<Rightarrow> bool" where
  "domain_wf d \<longleftrightarrow> length (uuid d) = 16"

definition component_wf :: "(rx \<Rightarrow> string \<Rightarrow> bool) \<Rightarrow> component_name \<Rightarrow> bool" where
  "component_wf is_match c \<longleftrightarrow>
     domain_wf (sn_domain (cn_server c)) \<and> is_valid_server_name is_match (sn_server (cn_server c))
     \<and> is_valid_version is_match (cn_version c)"

definition pod_wf :: "(rx \<Rightarrow> string \<Rightarrow> bool) \<Rightarrow> pod_name \<Rightarrow> bool" where
  "pod_wf is_match p \<longleftrightarrow> component_wf is_match (pn_component p)"

text \<open>Parsing a domain is the exact inverse of printing it.\<close>

lemma DomainUuid_parse_iff: "DomainUuid_parse u = Inr d \<longleftrightarrow> domain_wf d \<and> u = DomainUuid_to_string d"
proof
  assume "DomainUuid_parse u = Inr d"
  then have len: "length u = 32" and un: "unhexify (as_bytes u) = Inr (uuid d)"
    by (auto simp: DomainUuid_parse_def split: if_splits sum.splits)
  then have "length (uuid d) = 16" "as_bytes u = hex_code (uuid d)"
    using unhexify_iff [of "as_bytes u" "uuid d"] by simp_all
  then show "domain_wf d \<and> u = DomainUuid_to_string d"
    using from_bytes_as_bytes [of u] by (simp add: domain_wf_def DomainUuid_to_string_def hexify_hex_code)
next
  assume a: "domain_wf d \<and> u = DomainUuid_to_string d"
  then have "as_bytes u = hex_code (uuid d)" "length (uuid d) = 16"
    by (simp_all add: domain_wf_def DomainUuid_to_string_def hexify_hex_code)
  then show "DomainUuid_parse u = Inr d"
    using unhexify_iff [of "as_bytes u" "uuid d"] a
    by (simp add: DomainUuid_parse_def DomainUuid_to_string_def domain_wf_def hexify_hex_code)
qed

lemma ComponentName_new_iff:
  "ComponentName_new is_match d s v = Inr c \<longleftrightarrow>
     is_valid_version is_match v \<and> is_valid_server_name is_match s
     \<and> c = \<lparr>cn_server = \<lparr>sn_domain = d, sn_server = s\<rparr>, cn_version = v\<rparr>"
  by (auto simp: ComponentName_new_def ServerName_new_def)

lemma DomainUuid_parse_to_string [simp]: "domain_wf d \<Longrightarrow> DomainUuid_parse (DomainUuid_to_string d) = Inr d"
  by (simp add: DomainUuid_parse_iff)

lemma Name_component_iff:
  "Name_component is_match n = Inr c \<longleftrightarrow>
     nm_domain n = Some (DomainUuid_to_string (sn_domain (cn_server c))) \<and> nm_server n = sn_server (cn_server c)
     \<and> nm_version n = Some (cn_version c) \<and> nm_pod n = None \<and> component_wf is_match c"
  (is "?L \<longleftrightarrow> ?R")
proof
  assume ?L
  then show ?R
    by (auto simp: Name_component_def component_wf_def ComponentName_new_iff DomainUuid_parse_iff
        split: option.splits sum.splits)
next
  assume ?R
  then show ?L
    by (simp add: Name_component_def component_wf_def ComponentName_new_iff)
qed

lemma Name_pod_iff:
  "Name_pod is_match n = Inr p \<longleftrightarrow>
     (\<exists>pod. nm_domain n = Some (DomainUuid_to_string (sn_domain (cn_server (pn_component p))))
       \<and> nm_server n = sn_server (cn_server (pn_component p))
       \<and> nm_version n = Some (cn_version (pn_component p)) \<and> nm_pod n = Some pod
       \<and> usize_from_str_radix16 pod = Some (pn_pod p) \<and> pod_wf is_match p)"
  (is "?L \<longleftrightarrow> ?R")
proof
  assume ?L
  then show ?R
    by (auto simp: Name_pod_def pod_wf_def component_wf_def PodName_new_def ComponentName_new_iff
        DomainUuid_parse_iff split: option.splits sum.splits)
next
  assume ?R
  then have "ComponentName_new is_match (sn_domain (cn_server (pn_component p))) (nm_server n)
      (cn_version (pn_component p)) = Inr (pn_component p)"
    by (auto simp: ComponentName_new_iff pod_wf_def component_wf_def)
  with \<open>?R\<close> show ?L
    by (auto simp: Name_pod_def PodName_new_def pod_wf_def component_wf_def)
qed

section \<open>Parsing and printing\<close>

text \<open>The parser loses nothing: printing what it found gives back the text (in quotes).\<close>

lemma take_nth_drop_Suc: "i < length s \<Longrightarrow> take i s @ s ! i # drop (Suc i) s = s"
  by (rule id_take_nth_drop [symmetric])

lemma parse_version_print:
  "parse_version t = (v, p) \<Longrightarrow>
     \<exists>w. v = Some w \<and> w @ (case p of Some q \<Rightarrow> POD_ID_SEPARATOR # q | None \<Rightarrow> []) = t"
  using str_find_SomeD [of "\<lambda>c. c = POD_ID_SEPARATOR" t] take_nth_drop_Suc [of _ t]
  by (fastforce simp: parse_version_def split: option.splits)

lemma Name_debug_parse: "Name_debug (Name_parse s) = CHR 0x22 # s @ [CHR 0x22]"
proof (cases "str_find (\<lambda>c. c = DOMAIN_SEPARATOR \<or> c = VERSION_SEPARATOR) s")
  case None
  then show ?thesis by (simp add: Name_parse_def Name_debug_def)
next
  case (Some i)
  note i = str_find_SomeD [OF Some]
  show ?thesis
  proof (cases "s ! i = DOMAIN_SEPARATOR")
    case dom: True
    let ?t = "drop (Suc i) s"
    have s: "s = take i s @ DOMAIN_SEPARATOR # ?t"
      using i dom take_nth_drop_Suc [of i s] by simp
    show ?thesis
    proof (cases "str_find (\<lambda>c. c = VERSION_SEPARATOR) ?t")
      case None
      then show ?thesis using Some dom by (subst (2) s) (simp add: Name_parse_def Name_debug_def)
    next
      case (Some j)
      note j = str_find_SomeD [OF Some]
      obtain v p where vp: "parse_version (drop (Suc j) ?t) = (v, p)" by fastforce
      obtain w where w: "v = Some w" and t: "w @ (case p of Some q \<Rightarrow> POD_ID_SEPARATOR # q | None \<Rightarrow> []) = drop (Suc j) ?t"
        using parse_version_print [OF vp] by blast
      have t': "?t = take j ?t @ VERSION_SEPARATOR # drop (Suc j) ?t"
        using j take_nth_drop_Suc [of j ?t] by simp
      have "Name_debug (Name_parse s) = CHR 0x22 # (take i s @ DOMAIN_SEPARATOR # take j ?t @ VERSION_SEPARATOR # drop (Suc j) ?t) @ [CHR 0x22]"
        using \<open>str_find _ s = Some i\<close> Some dom vp w t
        by (simp add: Name_parse_def Name_debug_def Let_def add.commute [of j] del: append_assoc)
      also have "\<dots> = CHR 0x22 # s @ [CHR 0x22]"
        using s t' by simp
      finally show ?thesis .
    qed
  next
    case False
    then have ver: "s ! i = VERSION_SEPARATOR" using i by blast
    obtain v p where vp: "parse_version (drop (Suc i) s) = (v, p)" by fastforce
    obtain w where w: "v = Some w" and t: "w @ (case p of Some q \<Rightarrow> POD_ID_SEPARATOR # q | None \<Rightarrow> []) = drop (Suc i) s"
      using parse_version_print [OF vp] by blast
    have "Name_debug (Name_parse s) = CHR 0x22 # (take i s @ VERSION_SEPARATOR # drop (Suc i) s) @ [CHR 0x22]"
      using Some False vp w t by (simp add: Name_parse_def Name_debug_def Let_def)
    also have "take i s @ VERSION_SEPARATOR # drop (Suc i) s = s"
      using take_nth_drop_Suc [of i s] i ver by simp
    finally show ?thesis .
  qed
qed

lemma Name_parse_versioned:
  assumes "\<forall>c \<in> set d. c \<noteq> DOMAIN_SEPARATOR \<and> c \<noteq> VERSION_SEPARATOR" "\<forall>c \<in> set s. c \<noteq> VERSION_SEPARATOR"
  shows "Name_parse (d @ DOMAIN_SEPARATOR # s @ VERSION_SEPARATOR # t) =
    \<lparr>nm_domain = Some d, nm_server = s, nm_version = fst (parse_version t), nm_pod = snd (parse_version t)\<rparr>"
  using assms str_find_append [of d "\<lambda>c. c = DOMAIN_SEPARATOR \<or> c = VERSION_SEPARATOR" DOMAIN_SEPARATOR]
    str_find_append [of s "\<lambda>c. c = VERSION_SEPARATOR" VERSION_SEPARATOR]
  by (simp add: Name_parse_def Let_def nth_append case_prod_beta)

lemma parse_version_no_pod: "\<forall>c \<in> set v. c \<noteq> POD_ID_SEPARATOR \<Longrightarrow> parse_version v = (Some v, None)"
  using str_find_None [of "\<lambda>c. c = POD_ID_SEPARATOR" v] by (auto simp: parse_version_def)

lemma parse_version_pod:
  "\<forall>c \<in> set v. c \<noteq> POD_ID_SEPARATOR \<Longrightarrow> parse_version (v @ POD_ID_SEPARATOR # p) = (Some v, Some p)"
  by (simp add: parse_version_def str_find_append)

lemma domain_string_chars:
  assumes "domain_wf d" "c \<in> set (DomainUuid_to_string d)"
  shows "c \<notin> {CHR '':'', CHR ''@'', CHR ''#''}"
proof -
  from assms obtain h where h: "h \<in> set (hex_code (uuid d))" and c: "c = char_of_u8 h"
    by (auto simp: domain_wf_def DomainUuid_to_string_def from_bytes_def hexify_hex_code)
  from h have "is_hex h" by (rule hex_code_is_hex)
  then have "h \<noteq> 58 \<and> h \<noteq> 64 \<and> h \<noteq> 35" by (auto simp: is_hex_def)
  moreover have "u8_of_char c = h" using c by simp
  ultimately show ?thesis by (auto simp: u8_of_char_def)
qed

lemma numeric_chars: "numeric_identifier s \<Longrightarrow> c \<in> set s \<Longrightarrow> digit c"
  by (auto simp: numeric_identifier_def class_defs)

lemma version_chars:
  assumes "version_doc v" "c \<in> set v"
  shows "c \<noteq> POD_ID_SEPARATOR"
proof -
  have "alnum_dash c \<or> c = CHR ''.''"
    using assms by (auto simp: version_doc_def prerelease_doc_def alnum_dash_def alnum_def dest: numeric_chars)
  then show ?thesis using class_not_separator(1) [of c] by (auto simp: POD_ID_SEPARATOR_def)
qed

lemma server_chars: "server_name_doc s \<Longrightarrow> c \<in> set s \<Longrightarrow> c \<noteq> VERSION_SEPARATOR"
  by (auto simp: server_name_doc_def VERSION_SEPARATOR_def class_defs)

context regex_engine
begin

lemma Name_parse_component_string:
  assumes "component_wf is_match c"
  shows "Name_parse (ComponentName_to_string c) =
      \<lparr>nm_domain = Some (DomainUuid_to_string (sn_domain (cn_server c))),
       nm_server = sn_server (cn_server c), nm_version = Some (cn_version c), nm_pod = None\<rparr>"
    and "Name_parse (ComponentName_to_string c @ POD_ID_SEPARATOR # p) =
      \<lparr>nm_domain = Some (DomainUuid_to_string (sn_domain (cn_server c))),
       nm_server = sn_server (cn_server c), nm_version = Some (cn_version c), nm_pod = Some p\<rparr>"
proof -
  have d: "\<forall>x \<in> set (DomainUuid_to_string (sn_domain (cn_server c))). x \<noteq> DOMAIN_SEPARATOR \<and> x \<noteq> VERSION_SEPARATOR"
    using assms domain_string_chars by (fastforce simp: component_wf_def separator_defs)
  have s: "\<forall>x \<in> set (sn_server (cn_server c)). x \<noteq> VERSION_SEPARATOR"
    using assms server_chars by (auto simp: component_wf_def server_name_iff)
  have v: "\<forall>x \<in> set (cn_version c). x \<noteq> POD_ID_SEPARATOR"
    using assms version_chars by (auto simp: component_wf_def version_iff)
  show "Name_parse (ComponentName_to_string c) =
      \<lparr>nm_domain = Some (DomainUuid_to_string (sn_domain (cn_server c))),
       nm_server = sn_server (cn_server c), nm_version = Some (cn_version c), nm_pod = None\<rparr>"
    using Name_parse_versioned [OF d s] parse_version_no_pod [OF v]
    by (simp add: ComponentName_to_string_def ServerName_to_string_def)
  show "Name_parse (ComponentName_to_string c @ POD_ID_SEPARATOR # p) =
      \<lparr>nm_domain = Some (DomainUuid_to_string (sn_domain (cn_server c))),
       nm_server = sn_server (cn_server c), nm_version = Some (cn_version c), nm_pod = Some p\<rparr>"
    using Name_parse_versioned [OF d s] parse_version_pod [OF v]
    by (simp add: ComponentName_to_string_def ServerName_to_string_def)
qed

lemma component_parse_print_iff:
  "Name_component is_match (Name_parse s) = Inr c \<longleftrightarrow> component_wf is_match c \<and> s = ComponentName_to_string c"
proof
  assume "Name_component is_match (Name_parse s) = Inr c"
  then have "component_wf is_match c"
    and "Name_debug (Name_parse s) = CHR 0x22 # ComponentName_to_string c @ [CHR 0x22]"
    by (simp_all add: Name_component_iff Name_debug_def ComponentName_to_string_def ServerName_to_string_def)
  then show "component_wf is_match c \<and> s = ComponentName_to_string c"
    by (simp add: Name_debug_parse)
next
  assume "component_wf is_match c \<and> s = ComponentName_to_string c"
  then show "Name_component is_match (Name_parse s) = Inr c"
    by (simp add: Name_component_iff Name_parse_component_string)
qed

lemma pod_parse_print_iff:
  "Name_pod is_match (Name_parse (PodName_to_string p)) = Inr p \<longleftrightarrow> pod_wf is_match p"
proof
  assume "pod_wf is_match p"
  then show "Name_pod is_match (Name_parse (PodName_to_string p)) = Inr p"
    by (simp add: Name_pod_iff Name_parse_component_string PodName_to_string_def pod_wf_def
        usize_from_str_radix16_int_hex)
qed (auto simp: Name_pod_iff)

lemma pod_parse_canonical:
  "Name_pod is_match (Name_parse s) = Inr p \<Longrightarrow>
     pod_wf is_match p \<and> (\<exists>h. s = ComponentName_to_string (pn_component p) @ POD_ID_SEPARATOR # h
       \<and> usize_from_str_radix16 h = Some (pn_pod p))"
proof -
  assume "Name_pod is_match (Name_parse s) = Inr p"
  then obtain h where "pod_wf is_match p" "usize_from_str_radix16 h = Some (pn_pod p)"
    and "Name_debug (Name_parse s) = CHR 0x22 # (ComponentName_to_string (pn_component p) @ POD_ID_SEPARATOR # h) @ [CHR 0x22]"
    by (auto simp: Name_pod_iff Name_debug_def ComponentName_to_string_def ServerName_to_string_def)
  then show ?thesis by (auto simp: Name_debug_parse)
qed

end

section \<open>Dotted pre-releases\<close>

lemma prerelease_no_dot: "prerelease_doc p \<Longrightarrow> CHR ''.'' \<notin> set p"
  by (auto simp: prerelease_doc_def numeric_identifier_def alnum_defs class_defs)

lemma dash_dot_suffix:
  assumes "core @ CHR ''-'' # x = n @ rest" "CHR ''-'' \<notin> set n" "rest = [] \<or> (\<exists>p. rest = CHR ''-'' # p)"
  shows "\<exists>p. rest = CHR ''-'' # p \<and> set x \<subseteq> set p"
  using assms by (fastforce simp: append_eq_append_conv2 Cons_eq_append_conv append_eq_Cons_conv)

lemma version_doc_dotted: "\<not> version_doc (core @ ''-'' @ a @ ''.'' @ b)"
proof
  assume "version_doc (core @ ''-'' @ a @ ''.'' @ b)"
  then obtain major minor patch rest where
    eq: "core @ CHR ''-'' # (a @ ''.'' @ b) = (major @ ''.'' @ minor @ ''.'' @ patch) @ rest"
    and num: "numeric_identifier major" "numeric_identifier minor" "numeric_identifier patch"
    and rest: "rest = [] \<or> (\<exists>p. rest = CHR ''-'' # p \<and> prerelease_doc p)"
    unfolding version_doc_def by auto
  have "CHR ''-'' \<notin> set (major @ ''.'' @ minor @ ''.'' @ patch)"
    using num by (auto dest: numeric_chars simp: class_defs)
  from dash_dot_suffix [OF eq this] rest show False
    using prerelease_no_dot by fastforce
qed

context regex_engine
begin

lemma dotted_prerelease: "\<not> is_valid_version is_match (core @ ''-'' @ a @ ''.'' @ b)"
  unfolding version_iff by (rule version_doc_dotted)

end

section \<open>Properties\<close>

text \<open>
  C10: Converting a parsed name to a component name is the exact inverse of printing: it succeeds
  with \<open>c\<close> on the \<^verbatim>\<open>Display\<close> form of a well-formed \<open>c\<close> and on no other text, for every regex engine
  that implements the two patterns.
\<close>

theorem component_parse_inverse:
  assumes "regex_engine is_match"
  shows "Name_component is_match (Name_parse s) = Inr c \<longleftrightarrow>
    component_wf is_match c \<and> s = ComponentName_to_string c"
  using assms by (rule regex_engine.component_parse_print_iff)

definition sample_component :: component_name where
  "sample_component =
     \<lparr>cn_server = \<lparr>sn_domain = \<lparr>uuid = map of_nat [0..<16]\<rparr>, sn_server = ''web-1''\<rparr>,
      cn_version = ''1.0.2-rc''\<rparr>"

lemma sample_component_wf: "component_wf rx_matches sample_component"
  by code_simp

theorem component_parse_inverse_witness:
  "Name_component rx_matches (Name_parse (ComponentName_to_string sample_component)) = Inr sample_component"
  using component_parse_inverse [OF deriv_engine.regex_engine_axioms] sample_component_wf by blast

text \<open>
  C11: A pod name survives printing and parsing exactly when it is well-formed; the pod ID may be any
  \<^verbatim>\<open>usize\<close>.
\<close>

theorem pod_roundtrip:
  assumes "regex_engine is_match"
  shows "Name_pod is_match (Name_parse (PodName_to_string p)) = Inr p \<longleftrightarrow> pod_wf is_match p"
  using assms by (rule regex_engine.pod_parse_print_iff)

theorem pod_roundtrip_witness:
  "Name_pod rx_matches (Name_parse (PodName_to_string (PodName_new sample_component 0xa10f0)))
     = Inr (PodName_new sample_component 0xa10f0)"
  using pod_roundtrip [OF deriv_engine.regex_engine_axioms] sample_component_wf
  by (simp add: pod_wf_def PodName_new_def)

text \<open>
  Whatever text is accepted as a pod name names a well-formed component, and is that component's
  \<^verbatim>\<open>Display\<close> form followed by some radix-16 spelling of the pod ID: two accepted texts of the same
  pod differ at most in that spelling.
\<close>

theorem pod_parse_shape:
  assumes "regex_engine is_match" and "Name_pod is_match (Name_parse s) = Inr p"
  shows "pod_wf is_match p \<and> (\<exists>h. s = ComponentName_to_string (pn_component p) @ POD_ID_SEPARATOR # h
       \<and> usize_from_str_radix16 h = Some (pn_pod p))"
  using assms by (rule regex_engine.pod_parse_canonical)

theorem pod_parse_shape_witness:
  "\<exists>h. PodName_to_string (PodName_new sample_component 7)
         = ComponentName_to_string sample_component @ POD_ID_SEPARATOR # h
     \<and> usize_from_str_radix16 h = Some 7"
proof -
  have "Name_pod rx_matches (Name_parse (PodName_to_string (PodName_new sample_component 7)))
      = Inr (PodName_new sample_component 7)"
    using deriv_engine.pod_parse_print_iff sample_component_wf by (simp add: pod_wf_def PodName_new_def)
  from pod_parse_shape [OF deriv_engine.regex_engine_axioms this] show ?thesis
    by (simp add: PodName_new_def)
qed

text \<open>
  C19: \<open>is_valid_server_name\<close> accepts exactly the names its documentation describes: at most 63 bytes,
  lower-case alphanumerics and dashes, starting with a letter and ending with an alphanumeric.
\<close>

theorem server_name_exact:
  assumes "regex_engine is_match"
  shows "is_valid_server_name is_match s \<longleftrightarrow> server_name_doc s"
  using assms by (rule regex_engine.server_name_iff)

theorem server_name_exact_witness:
  "is_valid_server_name rx_matches ''some-server'' \<and> \<not> is_valid_server_name rx_matches ''9lives''"
proof -
  have "server_name_doc ''some-server'' \<and> \<not> server_name_doc ''9lives''" by code_simp
  then show ?thesis using server_name_exact [OF deriv_engine.regex_engine_axioms] by blast
qed

text \<open>
  \<open>is_valid_version\<close> accepts exactly the texts of at most 63 bytes that consist of three numeric
  identifiers (no leading zeros) and possibly one pre-release identifier, numeric or with a
  non-digit and not ending with a dash.
\<close>

theorem version_exact:
  assumes "regex_engine is_match"
  shows "is_valid_version is_match v \<longleftrightarrow> version_doc v"
  using assms by (rule regex_engine.version_iff)

theorem version_exact_witness: "version_doc ''1.2.3-00a'' \<and> \<not> version_doc ''1.0.00''"
proof -
  have "is_valid_version rx_matches ''1.2.3-00a'' \<and> \<not> is_valid_version rx_matches ''1.0.00''" by code_simp
  then show ?thesis using version_exact [OF deriv_engine.regex_engine_axioms] by blast
qed

text \<open>
  A SemVer pre-release made of two dot-separated identifiers is refused, whatever the
  identifiers: the documentation comment of \<open>is_valid_version\<close> calls accepted versions
  SemVer-compliant, but \<^verbatim>\<open>1.0.0-alpha.1\<close> is not accepted.
\<close>

theorem dotted_prerelease_refused:
  assumes "regex_engine is_match"
  shows "\<not> is_valid_version is_match (core @ ''-'' @ a @ ''.'' @ b)"
  using assms by (rule regex_engine.dotted_prerelease)

theorem dotted_prerelease_refused_witness: "\<not> is_valid_version rx_matches ''1.0.0-alpha.1''"
  using dotted_prerelease_refused [OF deriv_engine.regex_engine_axioms, of "''1.0.0''" "''alpha''" "''1''"]
  by simp

end
