(* ===== verification/Ip_Address.thy ===== *)
theory Ip_Address
  imports Prelude
begin

text \<open>
  \<^verbatim>\<open>std::net::IpAddr\<close>: the parser behind \<^verbatim>\<open>from_str\<close> and the text that \<^verbatim>\<open>Display\<close> writes. A parser returns what it read and the rest
  of the text, or \<^const>\<open>None\<close> and the caller goes on with the text it had.
\<close>

type_synonym u16 = "16 word"

text \<open>The eight groups of an IPv6 address are a list.\<close>

datatype ip_addr = V4 u8 u8 u8 u8 | V6 "u16 list"

section \<open>Parsing\<close>

definition digit_of :: "nat \<Rightarrow> char \<Rightarrow> nat option" where
  "digit_of radix c = (case to_digit16 c of Some d \<Rightarrow> if nat d < radix then Some (nat d) else None | None \<Rightarrow> None)"

text \<open>\<^verbatim>\<open>read_number\<close>: as many digits as there are, refused when there are more than allowed or the value is too large.\<close>

definition read_number :: "nat \<Rightarrow> nat \<Rightarrow> bool \<Rightarrow> nat \<Rightarrow> string \<Rightarrow> (nat \<times> string) option" where
  "read_number radix max_digits allow_zero_prefix max_value s =
     (let digits = takeWhile (\<lambda>c. digit_of radix c \<noteq> None) s;
          value = foldl (\<lambda>acc c. acc * radix + (case digit_of radix c of Some d \<Rightarrow> d | None \<Rightarrow> 0)) 0 digits
      in if digits = [] \<or> length digits > max_digits \<or> value > max_value
            \<or> \<not> allow_zero_prefix \<and> hd digits = CHR ''0'' \<and> length digits > 1
         then None else Some (value, drop (length digits) s))"

fun read_char :: "char \<Rightarrow> string \<Rightarrow> string option" where
  "read_char c [] = None"
| "read_char c (x # xs) = (if x = c then Some xs else None)"

text \<open>\<^verbatim>\<open>read_separator\<close>: every item but the first is after a separator.\<close>

definition read_separator :: "char \<Rightarrow> nat \<Rightarrow> (string \<Rightarrow> ('a \<times> string) option) \<Rightarrow> string \<Rightarrow> ('a \<times> string) option" where
  "read_separator sep i inner s = (if i > 0 then (case read_char sep s of None \<Rightarrow> None | Some s \<Rightarrow> inner s) else inner s)"

definition read_octet :: "nat \<Rightarrow> string \<Rightarrow> (u8 \<times> string) option" where
  "read_octet i s = map_option (\<lambda>(n, s). (of_nat n, s)) (read_separator CHR ''.'' i (read_number 10 3 False 255) s)"

definition read_ipv4_addr :: "string \<Rightarrow> ((u8 \<times> u8 \<times> u8 \<times> u8) \<times> string) option" where
  "read_ipv4_addr s =
     (case read_octet 0 s of None \<Rightarrow> None | Some (a, s) \<Rightarrow>
     (case read_octet 1 s of None \<Rightarrow> None | Some (b, s) \<Rightarrow>
     (case read_octet 2 s of None \<Rightarrow> None | Some (c, s) \<Rightarrow>
     (case read_octet 3 s of None \<Rightarrow> None | Some (d, s) \<Rightarrow> Some ((a, b, c, d), s)))))"

definition from_be_bytes16 :: "u8 \<Rightarrow> u8 \<Rightarrow> u16" where
  "from_be_bytes16 a b = of_nat (unat a * 256 + unat b)"

text \<open>\<^verbatim>\<open>read_groups\<close>: at most \<open>limit\<close> groups, the last two possibly written as an IPv4 address; \<open>i\<close> groups are read already.\<close>

fun read_groups :: "nat \<Rightarrow> nat \<Rightarrow> string \<Rightarrow> u16 list \<times> bool \<times> string" where
  "read_groups i 0 s = ([], False, s)"
| "read_groups i (Suc limit) s =
     (case (if limit > 0 then read_separator CHR '':'' i read_ipv4_addr s else None) of
        Some ((a, b, c, d), s) \<Rightarrow> ([from_be_bytes16 a b, from_be_bytes16 c d], True, s)
      | None \<Rightarrow>
          (case read_separator CHR '':'' i (read_number 16 4 True 0xFFFF) s of
             None \<Rightarrow> ([], False, s)
           | Some (g, s) \<Rightarrow>
               (case read_groups (Suc i) limit s of (groups, v4, s) \<Rightarrow> (of_nat g # groups, v4, s))))"

definition read_ipv6_addr :: "string \<Rightarrow> (u16 list \<times> string) option" where
  "read_ipv6_addr s =
     (case read_groups 0 8 s of (head, head_ipv4, s) \<Rightarrow>
        if length head = 8 then Some (head, s)
        else if head_ipv4 then None
        else
          (case read_char CHR '':'' s of None \<Rightarrow> None | Some s \<Rightarrow>
          (case read_char CHR '':'' s of None \<Rightarrow> None | Some s \<Rightarrow>
             (case read_groups 0 (8 - (length head + 1)) s of (tail, v4, s) \<Rightarrow>
                Some (head @ replicate (8 - length head - length tail) 0 @ tail, s)))))"

definition ip_addr_parse :: "string \<Rightarrow> ip_addr option" where
  "ip_addr_parse s =
     (case read_ipv4_addr s of
        Some ((a, b, c, d), rest) \<Rightarrow> if rest = [] then Some (V4 a b c d) else None
      | None \<Rightarrow> (case read_ipv6_addr s of Some (groups, []) \<Rightarrow> Some (V6 groups) | _ \<Rightarrow> None))"

text \<open>\<^verbatim>\<open>u8::from_str\<close>: decimal digits after a possible plus sign.\<close>

definition u8_parse :: "string \<Rightarrow> u8 option" where
  "u8_parse s =
     (let digits = (case s of c # cs \<Rightarrow> if c = CHR ''+'' then cs else s | [] \<Rightarrow> s);
          value = foldl (\<lambda>acc c. acc * 10 + (case digit_of 10 c of Some d \<Rightarrow> d | None \<Rightarrow> 0)) 0 digits
      in if digits = [] \<or> list_ex (\<lambda>c. digit_of 10 c = None) digits \<or> value > 255 then None else Some (of_nat value))"

section \<open>Display\<close>

definition u8_decimal :: "u8 \<Rightarrow> string" where
  "u8_decimal b = nat_decimal (unat b)"

definition ipv4_to_string :: "u8 \<Rightarrow> u8 \<Rightarrow> u8 \<Rightarrow> u8 \<Rightarrow> string" where
  "ipv4_to_string a b c d = u8_decimal a @ ''.'' @ u8_decimal b @ ''.'' @ u8_decimal c @ ''.'' @ u8_decimal d"

fun groups_to_string :: "u16 list \<Rightarrow> string" where
  "groups_to_string [] = []"
| "groups_to_string [g] = int_hex (uint g)"
| "groups_to_string (g # gs) = int_hex (uint g) @ '':'' @ groups_to_string gs"

text \<open>The first longest run of zero groups, as start and length; \<open>current\<close> ends before the rest of the list.\<close>

fun longest_zeros :: "nat \<Rightarrow> nat \<times> nat \<Rightarrow> nat \<times> nat \<Rightarrow> u16 list \<Rightarrow> nat \<times> nat" where
  "longest_zeros i current longest [] = longest"
| "longest_zeros i (start, len) longest (g # gs) =
     (if g = 0 then
        let current = (if len = 0 then i else start, len + 1)
        in longest_zeros (i + 1) current (if snd current > snd longest then current else longest) gs
      else longest_zeros (i + 1) (0, 0) longest gs)"

fun ip_to_string :: "ip_addr \<Rightarrow> string" where
  "ip_to_string (V4 a b c d) = ipv4_to_string a b c d"
| "ip_to_string (V6 gs) =
     (if length gs = 8 \<and> take 6 gs = [0, 0, 0, 0, 0, 0xFFFF] then
        ''::ffff:'' @ ipv4_to_string (of_nat (unat (gs ! 6) div 256)) (of_nat (unat (gs ! 6))) (of_nat (unat (gs ! 7) div 256)) (of_nat (unat (gs ! 7)))
      else
        case longest_zeros 0 (0, 0) (0, 0) gs of (start, len) \<Rightarrow>
          if len > 1 then groups_to_string (take start gs) @ ''::'' @ groups_to_string (drop (start + len) gs)
          else groups_to_string gs)"

section \<open>IPv4 texts can be read back\<close>

lemma digit_of_decimal: "d < 10 \<Longrightarrow> digit_of 10 (char_of (48 + d)) = Some d"
proof -
  assume "d < 10"
  then have "d \<in> set [0..<10]" by simp
  moreover have "list_all (\<lambda>d. digit_of 10 (char_of (48 + d)) = Some d) [0..<10]" by code_simp
  ultimately show ?thesis by (simp only: list_all_iff)
qed

lemma nat_decimal_digits:
  assumes "n < 1000"
  shows "\<exists>ds. nat_decimal n = map (\<lambda>d. char_of (48 + d)) ds \<and> (\<forall>d \<in> set ds. d < 10) \<and> ds \<noteq> [] \<and> length ds \<le> 3
    \<and> (hd ds = 0 \<longrightarrow> length ds = 1) \<and> foldl (\<lambda>acc d. acc * 10 + d) 0 ds = n"
proof -
  consider "n < 10" | "10 \<le> n" "n < 100" | "100 \<le> n" by linarith
  then show ?thesis
  proof cases
    case 1
    then show ?thesis by (intro exI [of _ "[n]"]) (simp add: nat_decimal.simps)
  next
    case 2
    then have "n div 10 < 10" "0 < n div 10" by simp_all
    with 2 show ?thesis by (intro exI [of _ "[n div 10, n mod 10]"]) (simp add: nat_decimal.simps)
  next
    case 3
    with assms have "n div 10 \<ge> 10" "n div 10 div 10 < 10" "n div 10 div 10 \<noteq> 0" by simp_all
    moreover have "(n div 10 div 10 * 10 + n div 10 mod 10) * 10 + n mod 10 = n" by presburger
    ultimately show ?thesis
      using 3 by (intro exI [of _ "[n div 10 div 10, n div 10 mod 10, n mod 10]"]) (simp add: nat_decimal.simps [of n] nat_decimal.simps [of "n div 10"] nat_decimal.simps [of "n div 10 div 10"])
  qed
qed

lemma read_octet_decimal:
  assumes "s = [] \<or> digit_of 10 (hd s) = None"
  shows "read_number 10 3 False 255 (u8_decimal b @ s) = Some (unat b, s)"
proof -
  have b: "unat b < 256" using unsigned_less [of b, where 'a = nat] by simp
  obtain ds where ds: "nat_decimal (unat b) = map (\<lambda>d. char_of (48 + d)) ds" "\<forall>d \<in> set ds. d < 10" "ds \<noteq> []" "length ds \<le> 3"
    "hd ds = 0 \<longrightarrow> length ds = 1" "foldl (\<lambda>acc d. acc * 10 + d) 0 ds = unat b"
    using nat_decimal_digits [of "unat b"] b by auto
  let ?cs = "map (\<lambda>d. char_of (48 + d)) ds :: string"
  have val: "foldl (\<lambda>acc c. acc * 10 + (case digit_of 10 c of Some d \<Rightarrow> d | None \<Rightarrow> 0)) k ?cs = foldl (\<lambda>acc d. acc * 10 + d) k ds" for k
    using ds(2) by (induction ds arbitrary: k) (simp_all add: digit_of_decimal)
  have "takeWhile (\<lambda>c. digit_of 10 c \<noteq> None) (?cs @ s) = ?cs"
    using ds(2)
  proof (induction ds)
    case Nil
    then show ?case using assms by (cases s) auto
  qed (simp add: digit_of_decimal)
  moreover have "hd ?cs = CHR ''0'' \<longrightarrow> hd ds = 0"
  proof -
    have "hd ds < 10" "hd ?cs = char_of (48 + hd ds)" using ds(2,3) by (simp_all add: hd_map)
    then have "digit_of 10 (hd ?cs) = Some (hd ds)" by (simp add: digit_of_decimal)
    moreover have "digit_of 10 CHR ''0'' = Some 0" by code_simp
    ultimately show ?thesis by auto
  qed
  ultimately show ?thesis
    using ds(3-6) b unfolding u8_decimal_def ds(1) by (auto simp: read_number_def val Let_def)
qed

lemma read_octet_dot [simp]:
  "read_octet 0 (u8_decimal b @ s) = Some (b, s)" "0 < i \<Longrightarrow> read_octet i (CHR ''.'' # u8_decimal b @ s) = Some (b, s)"
  if "s = [] \<or> digit_of 10 (hd s) = None"
  using read_octet_decimal [OF that] by (simp_all add: read_octet_def read_separator_def)

lemma digit_of_dot [simp]: "digit_of 10 CHR ''.'' = None"
  by code_simp

lemma ip_addr_parse_v4: "ip_addr_parse (ip_to_string (V4 a b c d)) = Some (V4 a b c d)"
  using read_octet_dot(2) [of "[]" 3 d] by (simp add: ip_addr_parse_def ipv4_to_string_def read_ipv4_addr_def)

end
