(* ===== verification/Pod_State.thy ===== *)
theory Pod_State
  imports Names Ip_Address "HOL-Library.Mapping" "HOL-Library.AList_Mapping"
begin

text \<open>
  The pod state machine (\<^verbatim>\<open>runtime/state.rs\<close>): pods with their life-cycle state, the runtime that keeps
  them in a concurrent map, and the operations the CRI service calls.

  Everything an operation shares with other tasks is explicit in the record \<open>runtime\<close>: the pod map, the
  contents of the \<^verbatim>\<open>SingleUse\<close> handles of killers (\<open>rt_cells\<close>, addressed by number, because clones of a
  pod share the handle), the shared futures of the pod initializer (\<open>rt_futures\<close>) and the servers that
  are still serving (\<open>rt_servers\<close>). An operation that the source splits into several atomic accesses to
  that state is a definition per access (\<open>start_claim\<close>, \<open>start_bind_error\<close>, \<open>start_finalize\<close>; \<open>stop_mark\<close>,
  \<open>take_killer\<close>; \<open>kill_mark\<close>), and the operation itself composes them. What comes from outside, the
  results of binding a socket and of the address manager and the clock, are arguments.

  The lock-free map of \<^verbatim>\<open>papaya\<close> is a parameter \<open>P\<close> of every definition that uses it; the locale
  \<open>pod_map\<close> states what its documentation promises. A \<^verbatim>\<open>compute\<close> runs its closure on the current entry
  and applies the resulting operation atomically.
\<close>

section \<open>Pods\<close>

datatype pod_state = Initiated | Created | Starting | Running | Stopped | Removed | Killed

type_synonym string_map = "(string, string) mapping"

record pod_sandbox_metadata =
  psm_name :: string
  psm_uid :: string
  psm_namespace :: string
  psm_attempt :: u32

record container_metadata =
  cm_name :: string
  cm_attempt :: u32

record image_spec =
  is_image :: string
  is_annotations :: string_map
  is_user_specified_image :: string
  is_runtime_handler :: string

record ip_address =
  ia_address :: ip_addr
  ia_prefix_length :: u8
  ia_pod_name :: pod_name

type_synonym future_ref = nat  \<comment> \<open>a shared future of the pod initializer\<close>
type_synonym cell_ref = nat  \<comment> \<open>a \<^verbatim>\<open>SingleUse\<close> handle\<close>
type_synonym server_ref = nat  \<comment> \<open>a server task, as its killer knows it\<close>
type_synonym routes_ref = nat

record pod =
  pod_state :: pod_state
  pod_ip_address :: ip_address
  pod_component_name :: component_name
  pod_sandbox_meta :: pod_sandbox_metadata
  pod_labels :: string_map
  pod_annotations :: string_map
  pod_created_at :: int
  pod_routes :: "future_ref option"
  container_created_at :: int
  container_meta :: "container_metadata option"
  container_labels :: string_map
  container_annotations :: string_map
  pod_environment :: string_map
  pod_image_spec :: "image_spec option"
  container_started_at :: int
  pod_killer :: cell_ref
  container_finished_at :: int

section \<open>The concurrent map\<close>

record 'm pod_map_lib =
  pm_new :: 'm
  pm_get :: "'m \<Rightarrow> pod_id \<Rightarrow> pod option"
  pm_insert :: "'m \<Rightarrow> pod_id \<Rightarrow> pod \<Rightarrow> 'm"
  pm_remove :: "'m \<Rightarrow> pod_id \<Rightarrow> 'm"
  pm_iter :: "'m \<Rightarrow> (pod_id \<times> pod) list"

datatype 'a operation = Insert pod | Remove | Abort 'a

datatype 'a computed = Inserted pod | Updated pod pod | RemovedEntry pod | Aborted 'a

text \<open>
  \<^verbatim>\<open>compute\<close>: the closure maps the entry to an operation and to the new values of the variables it
  captures. Removing an absent entry is an abort the sources never ask for.
\<close>

definition compute ::
    "'m pod_map_lib \<Rightarrow> 'm \<Rightarrow> pod_id \<Rightarrow> (pod option \<Rightarrow> 'a operation \<times> 'c) \<Rightarrow> 'm \<times> 'a computed option \<times> 'c" where
  "compute P m k f =
     (case f (pm_get P m k) of
        (Insert new, c) \<Rightarrow>
          (pm_insert P m k new,
           Some (case pm_get P m k of None \<Rightarrow> Inserted new | Some old \<Rightarrow> Updated old new), c)
      | (Remove, c) \<Rightarrow>
          (case pm_get P m k of None \<Rightarrow> (m, None, c) | Some old \<Rightarrow> (pm_remove P m k, Some (RemovedEntry old), c))
      | (Abort a, c) \<Rightarrow> (m, Some (Aborted a), c))"

locale pod_map =
  fixes P :: "'m pod_map_lib"
  assumes get_new: "pm_get P (pm_new P) k = None"
    and get_insert: "pm_get P (pm_insert P m k p) k' = (if k' = k then Some p else pm_get P m k')"
    and get_remove: "pm_get P (pm_remove P m k) k' = (if k' = k then None else pm_get P m k')"
    and iter_set: "(k, p) \<in> set (pm_iter P m) \<longleftrightarrow> pm_get P m k = Some p"
    and iter_distinct: "distinct (map fst (pm_iter P m))"

section \<open>The runtime\<close>

text \<open>The messages of an error, outermost context first.\<close>

type_synonym error_chain = "string list"

datatype init_error = Init_error error_chain

datatype future_state = Pending | Ready routes_ref | Failed "init_error option"

record 'm runtime =
  rt_pods :: 'm
  rt_next_pod_id :: usize
  rt_cells :: "cell_ref \<Rightarrow> server_ref option"
  rt_next_cell :: nat
  rt_futures :: "future_ref \<Rightarrow> future_state"
  rt_next_future :: nat
  rt_servers :: "server_ref \<Rightarrow> ip_addr option"  \<comment> \<open>the address a live server is bound to\<close>
  rt_next_server :: nat

datatype runtime_error =
    Ipam_failure error_chain
  | Pod_id_collision pod_id
  | Different_parameters
  | Bad_prior_state pod_state
  | Pod_not_found
  | Container_not_found
  | Routes_future_missing
  | Failed_starting_pod init_error
  | Failed_starting_cause_logged
  | Restart_not_implemented
  | Failed_binding
  | State_changed_while_starting pod_state
  | Disappeared_while_starting
  | Running_unkillable
  | Juggling_routes_future
  | Logical_impossibility string

definition WorkRuntime_new :: "'m pod_map_lib \<Rightarrow> 'm runtime" where
  "WorkRuntime_new P =
     \<lparr>rt_pods = pm_new P, rt_next_pod_id = 0, rt_cells = (\<lambda>_. None), rt_next_cell = 0,
      rt_futures = (\<lambda>_. Pending), rt_next_future = 0, rt_servers = (\<lambda>_. None), rt_next_server = 0\<rparr>"

text \<open>
  Nanoseconds since the epoch as \<^verbatim>\<open>i64\<close>: \<open>nanos\<close> is \<^verbatim>\<open>as_nanos()\<close>, a \<^verbatim>\<open>u128\<close>, or \<^const>\<open>None\<close> before 1970.
\<close>

definition now :: "nat option \<Rightarrow> int" where
  "now nanos = (int (case nanos of None \<Rightarrow> 0 | Some n \<Rightarrow> n) mod 2 ^ 64) mod (2 ^ 63 - 1)"

section \<open>Single-use handles\<close>

definition SingleUse_of :: "server_ref \<Rightarrow> 'm runtime \<Rightarrow> cell_ref \<times> 'm runtime" where
  "SingleUse_of v rt =
     (rt_next_cell rt, rt\<lparr>rt_cells := (rt_cells rt)(rt_next_cell rt := Some v), rt_next_cell := rt_next_cell rt + 1\<rparr>)"

definition SingleUse_default :: "'m runtime \<Rightarrow> cell_ref \<times> 'm runtime" where
  "SingleUse_default rt =
     (rt_next_cell rt, rt\<lparr>rt_cells := (rt_cells rt)(rt_next_cell rt := None), rt_next_cell := rt_next_cell rt + 1\<rparr>)"

definition take_killer :: "cell_ref \<Rightarrow> 'm runtime \<Rightarrow> server_ref option \<times> 'm runtime" where
  "take_killer c rt = (rt_cells rt c, rt\<lparr>rt_cells := (rt_cells rt)(c := None)\<rparr>)"

text \<open>
  \<^verbatim>\<open>kill_with_timeout\<close> and \<^verbatim>\<open>forcefully_abort\<close>: whether it ends gracefully or is aborted, the server no
  longer serves afterwards.
\<close>

definition kill_server :: "server_ref \<Rightarrow> 'm runtime \<Rightarrow> 'm runtime" where
  "kill_server s rt = rt\<lparr>rt_servers := (rt_servers rt)(s := None)\<rparr>"

section \<open>Initialization and creation\<close>

definition fetch_add_pod_id :: "'m runtime \<Rightarrow> pod_id \<times> 'm runtime" where
  "fetch_add_pod_id rt = (rt_next_pod_id rt, rt\<lparr>rt_next_pod_id := rt_next_pod_id rt + 1\<rparr>)"

definition initiated_pod ::
    "component_name \<Rightarrow> pod_sandbox_metadata \<Rightarrow> string_map \<Rightarrow> string_map \<Rightarrow> ip_address \<Rightarrow> int \<Rightarrow> cell_ref \<Rightarrow> pod" where
  "initiated_pod component meta labels annotations ip t cell =
     \<lparr>pod_state = Initiated, pod_ip_address = ip, pod_component_name = component, pod_sandbox_meta = meta,
      pod_labels = labels, pod_annotations = annotations, pod_created_at = t, pod_routes = None,
      container_created_at = 0, container_meta = None, container_labels = Mapping.empty,
      container_annotations = Mapping.empty, pod_environment = Mapping.empty, pod_image_spec = None,
      container_started_at = 0, pod_killer = cell, container_finished_at = 0\<rparr>"

definition init_pod_insert ::
    "'m pod_map_lib \<Rightarrow> component_name \<Rightarrow> pod_sandbox_metadata \<Rightarrow> string_map \<Rightarrow> string_map \<Rightarrow> pod_id \<Rightarrow> ip_address \<Rightarrow> int
      \<Rightarrow> 'm runtime \<Rightarrow> (runtime_error + pod_name) \<times> 'm runtime" where
  "init_pod_insert P component meta labels annotations pod_id ip t rt =
     (let (cell, rt) = SingleUse_default rt;
          p = initiated_pod component meta labels annotations ip t cell
      in (case pm_get P (rt_pods rt) pod_id of
            None \<Rightarrow> (Inr (PodName_new component pod_id), rt\<lparr>rt_pods := pm_insert P (rt_pods rt) pod_id p\<rparr>)
          | Some _ \<Rightarrow> (Inl (Pod_id_collision pod_id), rt)))"

definition init_pod ::
    "'m pod_map_lib \<Rightarrow> component_name \<Rightarrow> pod_sandbox_metadata \<Rightarrow> string_map \<Rightarrow> string_map \<Rightarrow> error_chain + ip_address \<Rightarrow> int
      \<Rightarrow> 'm runtime \<Rightarrow> (runtime_error + pod_name) \<times> 'm runtime" where
  "init_pod P component meta labels annotations ip t rt =
     (let (pod_id, rt) = fetch_add_pod_id rt
      in (case ip of
            Inl e \<Rightarrow> (Inl (Ipam_failure e), rt)
          | Inr ip \<Rightarrow> init_pod_insert P component meta labels annotations pod_id ip t rt))"

definition container_metadata_equal :: "container_metadata option \<Rightarrow> container_metadata option \<Rightarrow> bool" where
  "container_metadata_equal left right =
     (case left of
        Some left \<Rightarrow> (case right of Some right \<Rightarrow> left\<lparr>cm_attempt := 0\<rparr> = right\<lparr>cm_attempt := 0\<rparr> | None \<Rightarrow> False)
      | None \<Rightarrow> right = None)"

definition K8S_CONTAINER_RESTART_COUNT_ANNOTATION :: string where
  "K8S_CONTAINER_RESTART_COUNT_ANNOTATION = ''io.kubernetes.container.restartCount''"

definition container_annotations_equal :: "string_map \<Rightarrow> string_map \<Rightarrow> bool" where
  "container_annotations_equal left right =
     (Mapping.delete K8S_CONTAINER_RESTART_COUNT_ANNOTATION left
        = Mapping.delete K8S_CONTAINER_RESTART_COUNT_ANNOTATION right)"

definition VIMANA_LABEL_PREFIX :: string where
  "VIMANA_LABEL_PREFIX = ''vimana.host/''"

definition check_vimana_labels :: "string_map \<Rightarrow> string_map \<Rightarrow> bool" where
  "check_vimana_labels left right =
     (\<forall>k \<in> Mapping.keys left.
        \<not> (take (length VIMANA_LABEL_PREFIX) k = VIMANA_LABEL_PREFIX \<and> Mapping.lookup right k \<noteq> Mapping.lookup left k))"

text \<open>\<^verbatim>\<open>PodInitializer::grpc\<close>: a new shared future, pending until its background task finishes.\<close>

definition grpc :: "'m runtime \<Rightarrow> future_ref \<times> 'm runtime" where
  "grpc rt =
     (rt_next_future rt,
      rt\<lparr>rt_futures := (rt_futures rt)(rt_next_future rt := Pending), rt_next_future := rt_next_future rt + 1\<rparr>)"

datatype create_container_circumstance = Circumstance_Initial | Circumstance_Reattempt | Circumstance_Idempotent

definition routes_failed :: "'m runtime \<Rightarrow> future_ref option \<Rightarrow> bool" where
  "routes_failed rt r =
     (case r of None \<Rightarrow> True | Some f \<Rightarrow> (case rt_futures rt f of Pending \<Rightarrow> True | Ready _ \<Rightarrow> False | Failed _ \<Rightarrow> True))"

definition same_container ::
    "pod \<Rightarrow> container_metadata option \<Rightarrow> string_map \<Rightarrow> string_map \<Rightarrow> string_map \<Rightarrow> image_spec option \<Rightarrow> bool" where
  "same_container p meta labels annotations environment img \<longleftrightarrow>
     container_metadata_equal (container_meta p) meta \<and> container_labels p = labels
     \<and> container_annotations_equal (container_annotations p) annotations
     \<and> pod_environment p = environment \<and> pod_image_spec p = img"

definition subsequent_attempt :: "container_metadata option \<Rightarrow> container_metadata option \<Rightarrow> bool" where
  "subsequent_attempt old new =
     (case new of None \<Rightarrow> False | Some n \<Rightarrow> (case old of None \<Rightarrow> False | Some m \<Rightarrow> cm_attempt n > cm_attempt m))"

text \<open>The closure of \<open>create_container\<close>; it captures the runtime (for the initializer) and the circumstance.\<close>

definition create_closure ::
    "'m runtime \<Rightarrow> container_metadata option \<Rightarrow> string_map \<Rightarrow> string_map \<Rightarrow> string_map \<Rightarrow> image_spec option \<Rightarrow> int
      \<Rightarrow> pod option \<Rightarrow> runtime_error option operation \<times> create_container_circumstance \<times> 'm runtime" where
  "create_closure rt meta labels annotations environment img t entry =
     (case entry of
        None \<Rightarrow> (Abort (Some Pod_not_found), Circumstance_Initial, rt)
      | Some p \<Rightarrow>
          (if pod_state p = Initiated \<or> pod_state p = Removed then
             let (f, rt) = grpc rt
             in (Insert (p\<lparr>pod_routes := Some f, pod_state := Created, container_meta := meta, container_labels := labels,
                          container_annotations := annotations, pod_environment := environment,
                          pod_image_spec := img, container_created_at := t\<rparr>),
                 Circumstance_Initial, rt)
           else if pod_state p = Created \<or> pod_state p = Starting \<or> pod_state p = Running then
             (if same_container p meta labels annotations environment img then
                (if routes_failed rt (pod_routes p) \<and> subsequent_attempt (container_meta p) meta then
                   let (f, rt) = grpc rt
                   in (Insert (p\<lparr>pod_state := Created, pod_routes := Some f, container_meta := meta,
                                container_annotations := annotations, container_created_at := t\<rparr>),
                       Circumstance_Reattempt, rt)
                 else
                   (Insert (p\<lparr>pod_state := Created, container_meta := meta,
                             container_annotations := annotations, container_created_at := t\<rparr>),
                    Circumstance_Idempotent, rt))
              else (Abort (Some Different_parameters), Circumstance_Initial, rt))
           else (Abort (Some (Bad_prior_state (pod_state p))), Circumstance_Initial, rt)))"

definition create_container ::
    "'m pod_map_lib \<Rightarrow> pod_name \<Rightarrow> container_metadata option \<Rightarrow> string_map \<Rightarrow> string_map \<Rightarrow> string_map
      \<Rightarrow> image_spec option \<Rightarrow> int \<Rightarrow> 'm runtime \<Rightarrow> (runtime_error + unit) \<times> 'm runtime" where
  "create_container P name meta labels annotations environment img t rt =
     (let (m, r, circumstance, rt) =
            compute P (rt_pods rt) (pn_pod name) (create_closure rt meta labels annotations environment img t);
          rt = rt\<lparr>rt_pods := m\<rparr>
      in (case r of
            Some (Updated _ _) \<Rightarrow> (Inr (), rt)
          | Some (Aborted None) \<Rightarrow> (Inr (), rt)
          | Some (Aborted (Some e)) \<Rightarrow> (Inl e, rt)
          | _ \<Rightarrow> (Inl (Logical_impossibility ''State machine logical impossibility''), rt)))"

section \<open>Starting\<close>

datatype start_container_abort = Waiting future_ref | Start_error runtime_error | Start_done

text \<open>
  The first access: claim the pod by moving it to \<^verbatim>\<open>Starting\<close>. The closure captures the routes and the
  runtime, because the error of a failed future is taken out of its handle.
\<close>

definition start_closure ::
    "'m runtime \<Rightarrow> pod option \<Rightarrow> start_container_abort operation \<times> routes_ref option \<times> 'm runtime" where
  "start_closure rt entry =
     (case entry of
        None \<Rightarrow> (Abort (Start_error Container_not_found), None, rt)
      | Some p \<Rightarrow>
          (case pod_state p of
             Created \<Rightarrow>
               (case pod_routes p of
                  None \<Rightarrow> (Abort (Start_error Routes_future_missing), None, rt)
                | Some f \<Rightarrow>
                    (case rt_futures rt f of
                       Ready r \<Rightarrow> (Insert (p\<lparr>pod_state := Starting\<rparr>), Some r, rt)
                     | Failed (Some e) \<Rightarrow>
                         (Abort (Start_error (Failed_starting_pod e)), None,
                          rt\<lparr>rt_futures := (rt_futures rt)(f := Failed None)\<rparr>)
                     | Failed None \<Rightarrow> (Abort (Start_error Failed_starting_cause_logged), None, rt)
                     | Pending \<Rightarrow> (Abort (Waiting f), None, rt)))
           | Stopped \<Rightarrow> (Abort (Start_error Restart_not_implemented), None, rt)
           | Starting \<Rightarrow> (Abort Start_done, None, rt)
           | Running \<Rightarrow> (Abort Start_done, None, rt)
           | _ \<Rightarrow> (Abort (Start_error (Bad_prior_state (pod_state p))), None, rt)))"

datatype start_claim_result = Claimed pod routes_ref | Claim_waiting future_ref | Claim_done | Claim_error runtime_error

definition start_claim :: "'m pod_map_lib \<Rightarrow> pod_name \<Rightarrow> 'm runtime \<Rightarrow> start_claim_result \<times> 'm runtime" where
  "start_claim P name rt =
     (let (m, r, ready_routes, rt) = compute P (rt_pods rt) (pn_pod name) (start_closure rt);
          rt = rt\<lparr>rt_pods := m\<rparr>
      in (case r of
            Some (Updated _ p) \<Rightarrow>
              ((case ready_routes of Some routes \<Rightarrow> Claimed p routes | None \<Rightarrow> Claim_error (Logical_impossibility ''Logical impossibility (routes absent after checking)'')), rt)
          | Some (Aborted Start_done) \<Rightarrow> (Claim_done, rt)
          | Some (Aborted (Waiting f)) \<Rightarrow> (Claim_waiting f, rt)
          | Some (Aborted (Start_error e)) \<Rightarrow> (Claim_error e, rt)
          | _ \<Rightarrow> (Claim_error (Logical_impossibility ''State machine logical impossibility (initiating start)''), rt)))"

text \<open>After a failure to bind: unlock the pod unless another task changed its state.\<close>

definition unlock_closure :: "pod option \<Rightarrow> unit operation \<times> unit" where
  "unlock_closure entry =
     (case entry of
        Some p \<Rightarrow> (if pod_state p = Starting then Insert (p\<lparr>pod_state := Created\<rparr>) else Abort (), ())
      | None \<Rightarrow> (Abort (), ()))"

definition start_bind_error :: "'m pod_map_lib \<Rightarrow> pod_name \<Rightarrow> 'm runtime \<Rightarrow> (runtime_error + future_ref option) \<times> 'm runtime" where
  "start_bind_error P name rt =
     (let (m, r, u) = compute P (rt_pods rt) (pn_pod name) unlock_closure
      in (Inl Failed_binding, rt\<lparr>rt_pods := m\<rparr>))"

text \<open>After a successful bind: spawn the server, then make the pod \<^verbatim>\<open>Running\<close> if it is still \<^verbatim>\<open>Starting\<close>.\<close>

definition finalize_closure :: "pod \<Rightarrow> pod option \<Rightarrow> runtime_error operation \<times> unit" where
  "finalize_closure new entry =
     (case entry of
        Some p \<Rightarrow> (if pod_state p = Starting then Insert new else Abort (State_changed_while_starting (pod_state p)), ())
      | None \<Rightarrow> (Abort Disappeared_while_starting, ()))"

definition spawn_server :: "pod \<Rightarrow> 'm runtime \<Rightarrow> server_ref \<times> 'm runtime" where
  "spawn_server p rt =
     (rt_next_server rt,
      rt\<lparr>rt_servers := (rt_servers rt)(rt_next_server rt := Some (ia_address (pod_ip_address p))),
        rt_next_server := rt_next_server rt + 1\<rparr>)"

definition start_finalize ::
    "'m pod_map_lib \<Rightarrow> pod_name \<Rightarrow> pod \<Rightarrow> int \<Rightarrow> 'm runtime \<Rightarrow> (runtime_error + future_ref option) \<times> 'm runtime" where
  "start_finalize P name p t rt =
     (let (server, rt) = spawn_server p rt;
          (cell, rt) = SingleUse_of server rt;
          new = p\<lparr>pod_state := Running, pod_killer := cell, container_started_at := t\<rparr>;
          (m, r, u) = compute P (rt_pods rt) (pn_pod name) (finalize_closure new);
          rt = rt\<lparr>rt_pods := m\<rparr>;
          abort = (\<lambda>rt. case take_killer cell rt of
                     (Some s, rt) \<Rightarrow> kill_server s rt
                   | (None, rt) \<Rightarrow> rt)
      in (case r of
            Some (Updated _ _) \<Rightarrow> (Inr None, rt)
          | Some (Aborted e) \<Rightarrow> (Inl e, abort rt)
          | _ \<Rightarrow> (Inl (Logical_impossibility ''State machine logical impossibility (finalizing start)''), abort rt)))"

text \<open>\<open>bind\<close> is the outcome of \<^verbatim>\<open>TcpIncoming::new\<close>.\<close>

definition start_container_without_wait ::
    "'m pod_map_lib \<Rightarrow> pod_name \<Rightarrow> bool \<Rightarrow> int \<Rightarrow> 'm runtime \<Rightarrow> (runtime_error + future_ref option) \<times> 'm runtime" where
  "start_container_without_wait P name bind t rt =
     (case start_claim P name rt of
        (Claimed p routes, rt) \<Rightarrow> if bind then start_finalize P name p t rt else start_bind_error P name rt
      | (Claim_done, rt) \<Rightarrow> (Inr None, rt)
      | (Claim_waiting f, rt) \<Rightarrow> (Inr (Some f), rt)
      | (Claim_error e, rt) \<Rightarrow> (Inl e, rt))"

text \<open>
  \<open>start_container\<close> may wait for the future of the pod initializer in between: \<open>finished f\<close> is what it
  finished with.
\<close>

definition complete_future :: "future_ref \<Rightarrow> future_state \<Rightarrow> 'm runtime \<Rightarrow> 'm runtime" where
  "complete_future f s rt =
     (if rt_futures rt f = Pending \<and> s \<noteq> Pending then rt\<lparr>rt_futures := (rt_futures rt)(f := s)\<rparr> else rt)"

definition start_container ::
    "'m pod_map_lib \<Rightarrow> pod_name \<Rightarrow> bool \<Rightarrow> (future_ref \<Rightarrow> future_state) \<Rightarrow> int \<Rightarrow> 'm runtime
      \<Rightarrow> (runtime_error + unit) \<times> 'm runtime" where
  "start_container P name bind finished t rt =
     (case start_container_without_wait P name bind t rt of
        (Inl e, rt) \<Rightarrow> (Inl e, rt)
      | (Inr None, rt) \<Rightarrow> (Inr (), rt)
      | (Inr (Some f), rt) \<Rightarrow>
          (case start_container_without_wait P name bind t (complete_future f (finished f) rt) of
             (Inl e, rt) \<Rightarrow> (Inl e, rt)
           | (Inr None, rt) \<Rightarrow> (Inr (), rt)
           | (Inr (Some _), rt) \<Rightarrow> (Inl Juggling_routes_future, rt)))"

section \<open>Stopping and removing\<close>

definition stop_closure :: "pod option \<Rightarrow> runtime_error option operation \<times> pod_state" where
  "stop_closure entry =
     (case entry of
        None \<Rightarrow> (Abort (Some Container_not_found), Running)
      | Some p \<Rightarrow>
          (case pod_state p of
             Starting \<Rightarrow> (Insert (p\<lparr>pod_state := Stopped\<rparr>), Starting)
           | Running \<Rightarrow> (Insert (p\<lparr>pod_state := Stopped\<rparr>), Running)
           | Stopped \<Rightarrow> (Abort None, Running)
           | s \<Rightarrow> (Abort (Some (Bad_prior_state s)), Running)))"

datatype stop_mark_result = Stop_take cell_ref | Stop_nothing | Stop_error runtime_error

definition stop_mark :: "'m pod_map_lib \<Rightarrow> pod_name \<Rightarrow> 'm runtime \<Rightarrow> stop_mark_result \<times> 'm runtime" where
  "stop_mark P name rt =
     (let (m, r, prior_state) = compute P (rt_pods rt) (pn_pod name) stop_closure;
          rt = rt\<lparr>rt_pods := m\<rparr>
      in (case r of
            Some (Updated _ p) \<Rightarrow> (if prior_state = Running then Stop_take (pod_killer p) else Stop_nothing, rt)
          | Some (Aborted None) \<Rightarrow> (Stop_nothing, rt)
          | Some (Aborted (Some e)) \<Rightarrow> (Stop_error e, rt)
          | _ \<Rightarrow> (Stop_error (Logical_impossibility ''State machine logical impossibility''), rt)))"

definition stop_container_without_wait ::
    "'m pod_map_lib \<Rightarrow> pod_name \<Rightarrow> 'm runtime \<Rightarrow> (runtime_error + server_ref option) \<times> 'm runtime" where
  "stop_container_without_wait P name rt =
     (case stop_mark P name rt of
        (Stop_take c, rt) \<Rightarrow>
          (case take_killer c rt of
             (Some killer, rt) \<Rightarrow> (Inr (Some killer), rt)
           | (None, rt) \<Rightarrow> (Inl Running_unkillable, rt))
      | (Stop_nothing, rt) \<Rightarrow> (Inr None, rt)
      | (Stop_error e, rt) \<Rightarrow> (Inl e, rt))"

definition stop_container :: "'m pod_map_lib \<Rightarrow> pod_name \<Rightarrow> 'm runtime \<Rightarrow> (runtime_error + unit) \<times> 'm runtime" where
  "stop_container P name rt =
     (case stop_container_without_wait P name rt of
        (Inl e, rt) \<Rightarrow> (Inl e, rt)
      | (Inr None, rt) \<Rightarrow> (Inr (), rt)
      | (Inr (Some killer), rt) \<Rightarrow> (Inr (), kill_server killer rt))"

definition remove_closure :: "pod option \<Rightarrow> runtime_error option operation \<times> unit" where
  "remove_closure entry =
     (case entry of
        None \<Rightarrow> (Abort (Some Container_not_found), ())
      | Some p \<Rightarrow>
          (case pod_state p of
             Stopped \<Rightarrow> (Insert (p\<lparr>pod_state := Removed\<rparr>), ())
           | Removed \<Rightarrow> (Abort None, ())
           | s \<Rightarrow> (Abort (Some (Bad_prior_state s)), ())))"

definition remove_container :: "'m pod_map_lib \<Rightarrow> pod_name \<Rightarrow> 'm runtime \<Rightarrow> (runtime_error + unit) \<times> 'm runtime" where
  "remove_container P name rt =
     (let (m, r, u) = compute P (rt_pods rt) (pn_pod name) remove_closure;
          rt = rt\<lparr>rt_pods := m\<rparr>
      in (case r of
            Some (Updated _ _) \<Rightarrow> (Inr (), rt)
          | Some (Aborted None) \<Rightarrow> (Inr (), rt)
          | Some (Aborted (Some e)) \<Rightarrow> (Inl e, rt)
          | _ \<Rightarrow> (Inl (Logical_impossibility ''State machine logical impossibility''), rt)))"

section \<open>Killing and deleting\<close>

definition kill_closure :: "pod option \<Rightarrow> runtime_error option operation \<times> unit" where
  "kill_closure entry =
     (case entry of
        None \<Rightarrow> (Abort (Some Pod_not_found), ())
      | Some p \<Rightarrow> (if pod_state p = Killed then Abort None else Insert (p\<lparr>pod_state := Killed\<rparr>), ()))"

definition kill_pod_without_wait ::
    "'m pod_map_lib \<Rightarrow> pod_name \<Rightarrow> 'm runtime \<Rightarrow> (runtime_error + (cell_ref \<times> ip_address) option) \<times> 'm runtime" where
  "kill_pod_without_wait P name rt =
     (let (m, r, u) = compute P (rt_pods rt) (pn_pod name) kill_closure;
          rt = rt\<lparr>rt_pods := m\<rparr>
      in (case r of
            Some (Updated _ p) \<Rightarrow> (Inr (Some (pod_killer p, pod_ip_address p)), rt)
          | Some (Aborted None) \<Rightarrow> (Inr None, rt)
          | Some (Aborted (Some e)) \<Rightarrow> (Inl e, rt)
          | _ \<Rightarrow> (Inl (Logical_impossibility ''State machine logical impossibility''), rt)))"

text \<open>\<open>deactivated\<close> and \<open>deallocated\<close> are the results of the address manager.\<close>

definition kill_pod ::
    "'m pod_map_lib \<Rightarrow> pod_name \<Rightarrow> error_chain + unit \<Rightarrow> error_chain + unit \<Rightarrow> 'm runtime \<Rightarrow> (runtime_error + unit) \<times> 'm runtime" where
  "kill_pod P name deactivated deallocated rt =
     (case kill_pod_without_wait P name rt of
        (Inl e, rt) \<Rightarrow> (Inl e, rt)
      | (Inr None, rt) \<Rightarrow> (Inr (), rt)
      | (Inr (Some (c, ip)), rt) \<Rightarrow>
          let rt = (case take_killer c rt of (Some s, rt) \<Rightarrow> kill_server s rt | (None, rt) \<Rightarrow> rt)
          in (case deactivated of
                Inl e \<Rightarrow> (Inl (Ipam_failure e), rt)
              | Inr _ \<Rightarrow> (case deallocated of Inl e \<Rightarrow> (Inl (Ipam_failure e), rt) | Inr _ \<Rightarrow> (Inr (), rt))))"

definition delete_closure :: "pod option \<Rightarrow> runtime_error operation \<times> unit" where
  "delete_closure entry =
     (case entry of
        None \<Rightarrow> (Abort Pod_not_found, ())
      | Some p \<Rightarrow> (if pod_state p = Killed then Remove else Abort (Bad_prior_state (pod_state p)), ()))"

definition delete_pod :: "'m pod_map_lib \<Rightarrow> pod_name \<Rightarrow> 'm runtime \<Rightarrow> (runtime_error + unit) \<times> 'm runtime" where
  "delete_pod P name rt =
     (let (m, r, u) = compute P (rt_pods rt) (pn_pod name) delete_closure;
          rt = rt\<lparr>rt_pods := m\<rparr>
      in (case r of
            Some (RemovedEntry _) \<Rightarrow> (Inr (), rt)
          | Some (Aborted e) \<Rightarrow> (Inl e, rt)
          | _ \<Rightarrow> (Inl (Logical_impossibility ''State machine logical impossibility''), rt)))"

section \<open>Queries\<close>

definition match_labels :: "string_map \<Rightarrow> (string \<times> string) list \<Rightarrow> bool" where
  "match_labels actual expected = list_all (\<lambda>(key, v). Mapping.lookup actual key = Some v) expected"

definition match_pod ::
    "pod_id \<Rightarrow> pod \<Rightarrow> (string \<times> string) list \<Rightarrow> bool option \<Rightarrow> (pod_name \<Rightarrow> pod \<Rightarrow> 't) \<Rightarrow> 't list \<Rightarrow> 't list" where
  "match_pod pod_id p labels readiness transform results =
     (if (case readiness of None \<Rightarrow> True | Some ready \<Rightarrow> ready \<noteq> (pod_state p = Killed)) \<and> match_labels (pod_labels p) labels
      then results @ [transform (PodName_new (pod_component_name p) pod_id) p]
      else results)"

definition list_pods ::
    "'m pod_map_lib \<Rightarrow> 'm runtime \<Rightarrow> (string \<times> string) list \<Rightarrow> bool option \<Rightarrow> (pod_name \<Rightarrow> pod \<Rightarrow> 't) \<Rightarrow> 't list \<Rightarrow> 't list" where
  "list_pods P rt labels readiness transform results =
     foldl (\<lambda>results (pod_id, p). match_pod pod_id p labels readiness transform results) results (pm_iter P (rt_pods rt))"

definition get_pod ::
    "'m pod_map_lib \<Rightarrow> 'm runtime \<Rightarrow> pod_name \<Rightarrow> (string \<times> string) list \<Rightarrow> bool option \<Rightarrow> (pod_name \<Rightarrow> pod \<Rightarrow> 't)
      \<Rightarrow> 't list \<Rightarrow> 't list" where
  "get_pod P rt name labels readiness transform results =
     (case pm_get P (rt_pods rt) (pn_pod name) of
        Some p \<Rightarrow> match_pod (pn_pod name) p labels readiness transform results
      | None \<Rightarrow> results)"

definition match_container ::
    "pod_id \<Rightarrow> pod \<Rightarrow> (string \<times> string) list \<Rightarrow> pod_state list \<Rightarrow> (pod_name \<Rightarrow> pod \<Rightarrow> 't) \<Rightarrow> 't list \<Rightarrow> 't list" where
  "match_container pod_id p labels states transform results =
     (if pod_state p \<in> set states \<and> match_labels (container_labels p) labels
      then results @ [transform (PodName_new (pod_component_name p) pod_id) p]
      else results)"

definition list_containers ::
    "'m pod_map_lib \<Rightarrow> 'm runtime \<Rightarrow> (string \<times> string) list \<Rightarrow> pod_state list \<Rightarrow> (pod_name \<Rightarrow> pod \<Rightarrow> 't) \<Rightarrow> 't list \<Rightarrow> 't list" where
  "list_containers P rt labels states transform results =
     foldl (\<lambda>results (pod_id, p). match_container pod_id p labels states transform results) results (pm_iter P (rt_pods rt))"

definition get_container ::
    "'m pod_map_lib \<Rightarrow> 'm runtime \<Rightarrow> pod_name \<Rightarrow> (string \<times> string) list \<Rightarrow> pod_state list \<Rightarrow> (pod_name \<Rightarrow> pod \<Rightarrow> 't)
      \<Rightarrow> 't list \<Rightarrow> 't list" where
  "get_container P rt name labels states transform results =
     (case pm_get P (rt_pods rt) (pn_pod name) of
        Some p \<Rightarrow> match_container (pn_pod name) p labels states transform results
      | None \<Rightarrow> results)"

section \<open>A reference map\<close>

definition alist_pods :: "(pod_id \<times> pod) list pod_map_lib" where
  "alist_pods =
     \<lparr>pm_new = [], pm_get = map_of, pm_insert = (\<lambda>m k p. (k, p) # filter (\<lambda>e. fst e \<noteq> k) m),
      pm_remove = (\<lambda>m k. filter (\<lambda>e. fst e \<noteq> k) m),
      pm_iter = (\<lambda>m. map (\<lambda>k. (k, the (map_of m k))) (remdups (map fst m)))\<rparr>"

lemma map_of_filter_key: "map_of (filter (\<lambda>e. fst e \<noteq> k) m) k' = (if k' = k then None else map_of m k')"
  by (induction m) auto

interpretation alist: pod_map alist_pods
proof
  fix k p and m :: "(pod_id \<times> pod) list"
  show "(k, p) \<in> set (pm_iter alist_pods m) \<longleftrightarrow> pm_get alist_pods m k = Some p"
  proof -
    have "(k \<in> fst ` set m) \<longleftrightarrow> (\<exists>q. map_of m k = Some q)"
      using map_of_eq_None_iff [of m k] by (metis not_None_eq)
    then show ?thesis by (auto simp: alist_pods_def image_iff)
  qed
  show "distinct (map fst (pm_iter alist_pods m))"
    by (simp add: alist_pods_def o_def)
qed (auto simp: alist_pods_def map_of_filter_key)

end
