(* ===== verification/Filesystem.thy ===== *)
theory Filesystem
  imports Prelude "HOL-Library.AList" "HOL-Library.Sublist"
begin

text \<open>
  The part of \<^verbatim>\<open>std::fs\<close> that the container store uses, on a disk that maps absolute paths (lists of components) to directories and
  files. What only the operating system decides, such as a full disk, is in \<open>io_env\<close>: a call may fail with an error after part of its
  work, which the number beside the error measures (directories created, bytes written).
\<close>

section \<open>Disks\<close>

type_synonym path = "string list"

datatype node = Dir | File bytes

type_synonym disk = "(path \<times> node) list"

datatype io_error =
    NotFound | AlreadyExists | NotADirectory | IsADirectory | DirectoryNotEmpty | UnexpectedEof | StorageFull | AddrInUse | Other_io_error nat

text \<open>The calls of the container store and of process start-up, by what they are for.\<close>

datatype io_call =
    Create_root | Create_component_dir | Create_container | Create_image_spec
  | Write_length | Write_component | Write_metadata | Write_image_spec | Sync_container | Sync_image_spec
  | Open_container | Read_length | Read_component | Read_metadata
  | Stat_container | Open_image_spec | Read_image_spec | Stat_image_spec
  | Remove_container_file | Remove_image_spec_file | Remove_directory path
  | Create_socket_dir | Bind_socket | Remove_socket

record io_env =
  io_fault :: "io_call \<Rightarrow> (io_error \<times> nat) option"
  io_dir_len :: nat  \<comment> \<open>the length that the metadata of a directory has\<close>

definition is_dir :: "disk \<Rightarrow> path \<Rightarrow> bool" where
  "is_dir d p \<longleftrightarrow> p = [] \<or> map_of d p = Some Dir"

definition exists_path :: "disk \<Rightarrow> path \<Rightarrow> bool" where
  "exists_path d p \<longleftrightarrow> p = [] \<or> map_of d p \<noteq> None"

text \<open>The error of a lookup that finds nothing: whether a file stands in the way.\<close>

definition lookup_error :: "disk \<Rightarrow> path \<Rightarrow> io_error" where
  "lookup_error d p =
     (if list_ex (\<lambda>i. exists_path d (take i p) \<and> \<not> is_dir d (take i p)) [0..<length p] then NotADirectory else NotFound)"

section \<open>Operations\<close>

fun create_dirs :: "path \<Rightarrow> string list \<Rightarrow> disk \<Rightarrow> (io_error + unit) \<times> disk" where
  "create_dirs base [] d = (Inr (), d)"
| "create_dirs base (c # cs) d =
     (case map_of d (base @ [c]) of
        None \<Rightarrow> create_dirs (base @ [c]) cs (AList.update (base @ [c]) Dir d)
      | Some Dir \<Rightarrow> create_dirs (base @ [c]) cs d
      | Some (File _) \<Rightarrow> (Inl (if cs = [] then AlreadyExists else NotADirectory), d))"

definition create_dir_all :: "io_env \<Rightarrow> io_call \<Rightarrow> path \<Rightarrow> disk \<Rightarrow> (io_error + unit) \<times> disk" where
  "create_dir_all env call p d =
     (case io_fault env call of
        Some (e, n) \<Rightarrow> (Inl e, snd (create_dirs [] (take n p) d))
      | None \<Rightarrow> create_dirs [] p d)"

text \<open>\<^verbatim>\<open>File::create\<close> truncates a file that exists.\<close>

definition create_file :: "io_env \<Rightarrow> io_call \<Rightarrow> path \<Rightarrow> disk \<Rightarrow> (io_error + unit) \<times> disk" where
  "create_file env call p d =
     (case io_fault env call of
        Some (e, n) \<Rightarrow> (Inl e, d)
      | None \<Rightarrow>
          if is_dir d p then (Inl IsADirectory, d)
          else if is_dir d (butlast p) then (Inr (), AList.update p (File []) d)
          else (Inl (lookup_error d p), d))"

text \<open>\<^verbatim>\<open>write_all\<close> on a file that is written from its start on, so that the position is the end.\<close>

definition append_file :: "path \<Rightarrow> bytes \<Rightarrow> disk \<Rightarrow> disk" where
  "append_file p bs d = (case map_of d p of Some (File old) \<Rightarrow> AList.update p (File (old @ bs)) d | _ \<Rightarrow> d)"

definition write_all :: "io_env \<Rightarrow> io_call \<Rightarrow> path \<Rightarrow> bytes \<Rightarrow> disk \<Rightarrow> (io_error + unit) \<times> disk" where
  "write_all env call p bs d =
     (case io_fault env call of
        Some (e, n) \<Rightarrow> (Inl e, append_file p (take n bs) d)
      | None \<Rightarrow> (Inr (), append_file p bs d))"

definition sync_all :: "io_env \<Rightarrow> io_call \<Rightarrow> disk \<Rightarrow> (io_error + unit) \<times> disk" where
  "sync_all env call d = (case io_fault env call of Some (e, n) \<Rightarrow> Inl e | None \<Rightarrow> Inr (), d)"

definition metadata_len :: "io_env \<Rightarrow> io_call \<Rightarrow> path \<Rightarrow> disk \<Rightarrow> io_error + u64" where
  "metadata_len env call p d =
     (case io_fault env call of
        Some (e, n) \<Rightarrow> Inl e
      | None \<Rightarrow>
          (case map_of d p of
             None \<Rightarrow> if p = [] then Inr (of_nat (io_dir_len env)) else Inl (lookup_error d p)
           | Some Dir \<Rightarrow> Inr (of_nat (io_dir_len env))
           | Some (File bs) \<Rightarrow> Inr (of_nat (length bs))))"

text \<open>Opening for reading succeeds on a directory too; reading it does not.\<close>

definition open_file :: "io_env \<Rightarrow> io_call \<Rightarrow> path \<Rightarrow> disk \<Rightarrow> io_error + node" where
  "open_file env call p d =
     (case io_fault env call of
        Some (e, n) \<Rightarrow> Inl e
      | None \<Rightarrow> (case map_of d p of None \<Rightarrow> if p = [] then Inr Dir else Inl (lookup_error d p) | Some node \<Rightarrow> Inr node))"

fun read_exact :: "io_env \<Rightarrow> io_call \<Rightarrow> nat \<Rightarrow> node \<Rightarrow> io_error + bytes \<times> node" where
  "read_exact env call n Dir = Inl IsADirectory"
| "read_exact env call n (File bs) =
     (case io_fault env call of
        Some (e, k) \<Rightarrow> Inl e
      | None \<Rightarrow> if length bs < n then Inl UnexpectedEof else Inr (take n bs, File (drop n bs)))"

fun read_to_end :: "io_env \<Rightarrow> io_call \<Rightarrow> node \<Rightarrow> io_error + bytes" where
  "read_to_end env call Dir = Inl IsADirectory"
| "read_to_end env call (File bs) = (case io_fault env call of Some (e, k) \<Rightarrow> Inl e | None \<Rightarrow> Inr bs)"

definition remove_file :: "io_env \<Rightarrow> io_call \<Rightarrow> path \<Rightarrow> disk \<Rightarrow> (io_error + unit) \<times> disk" where
  "remove_file env call p d =
     (case io_fault env call of
        Some (e, n) \<Rightarrow> (Inl e, d)
      | None \<Rightarrow>
          (case map_of d p of
             None \<Rightarrow> (Inl (lookup_error d p), d)
           | Some Dir \<Rightarrow> (Inl IsADirectory, d)
           | Some (File _) \<Rightarrow> (Inr (), AList.delete p d)))"

text \<open>\<^verbatim>\<open>UnixListener::bind\<close> makes an entry that is not a directory, as an empty file is; an existing entry is in use.\<close>

definition bind_socket :: "io_env \<Rightarrow> io_call \<Rightarrow> path \<Rightarrow> disk \<Rightarrow> (io_error + unit) \<times> disk" where
  "bind_socket env call p d =
     (case io_fault env call of
        Some (e, n) \<Rightarrow> (Inl e, d)
      | None \<Rightarrow>
          if exists_path d p then (Inl AddrInUse, d)
          else if is_dir d (butlast p) then (Inr (), AList.update p (File []) d)
          else (Inl (lookup_error d p), d))"

definition has_entries :: "disk \<Rightarrow> path \<Rightarrow> bool" where
  "has_entries d p = list_ex (\<lambda>(q, n). q \<noteq> [] \<and> butlast q = p) d"

definition remove_dir :: "io_env \<Rightarrow> io_call \<Rightarrow> path \<Rightarrow> disk \<Rightarrow> (io_error + unit) \<times> disk" where
  "remove_dir env call p d =
     (case io_fault env call of
        Some (e, n) \<Rightarrow> (Inl e, d)
      | None \<Rightarrow>
          (case map_of d p of
             None \<Rightarrow> (Inl (lookup_error d p), d)
           | Some (File _) \<Rightarrow> (Inl NotADirectory, d)
           | Some Dir \<Rightarrow> if has_entries d p then (Inl DirectoryNotEmpty, d) else (Inr (), AList.delete p d)))"

section \<open>Well-formed disks\<close>

text \<open>Everything that exists is in a directory, and the root is not an entry.\<close>

definition disk_ok :: "disk \<Rightarrow> bool" where
  "disk_ok d \<longleftrightarrow> map_of d [] = None \<and> (\<forall>p n. map_of d p = Some n \<longrightarrow> is_dir d (butlast p))"

lemma has_entries_iff: "has_entries d p \<longleftrightarrow> (\<exists>q. q \<noteq> [] \<and> butlast q = p \<and> map_of d q \<noteq> None)"
proof
  assume "has_entries d p"
  then obtain q n where "(q, n) \<in> set d" "q \<noteq> []" "butlast q = p"
    by (auto simp: has_entries_def list_ex_iff)
  then show "\<exists>q. q \<noteq> [] \<and> butlast q = p \<and> map_of d q \<noteq> None"
    by (metis weak_map_of_SomeI option.distinct(1))
qed (fastforce simp: has_entries_def list_ex_iff dest: map_of_SomeD)

lemma map_of_update [simp]: "map_of (AList.update k v al) = (map_of al)(k \<mapsto> v)"
  by (rule update_conv')

lemma map_of_delete [simp]: "map_of (AList.delete k al) = (map_of al)(k := None)"
  by (rule delete_conv')

lemma is_dir_Nil [simp]: "is_dir d []"
  by (simp add: is_dir_def)

lemma disk_ok_parent:
  assumes "disk_ok d" "map_of d p = Some n"
  shows "is_dir d (butlast p)"
  using assms by (auto simp: disk_ok_def)

lemma disk_ok_child:
  assumes "disk_ok d" "map_of d (p @ [c]) = Some n"
  shows "is_dir d p"
  using disk_ok_parent [OF assms] by simp

lemma disk_ok_insert:
  assumes "disk_ok d" "is_dir d p" "map_of d (p @ [c]) = None \<or> map_of d (p @ [c]) = Some (File old) \<and> n \<noteq> Dir"
  shows "disk_ok (AList.update (p @ [c]) n d)"
proof -
  have "is_dir d (butlast q) \<Longrightarrow> is_dir (AList.update (p @ [c]) n d) (butlast q)" for q
    using assms(3) by (auto simp: is_dir_def)
  with assms show ?thesis by (auto simp: disk_ok_def is_dir_def split: if_splits)
qed

lemma disk_ok_delete:
  assumes "disk_ok d" "\<not> has_entries d p"
  shows "disk_ok (AList.delete p d)"
  using assms by (auto simp: disk_ok_def is_dir_def has_entries_iff split: if_splits)

lemma file_no_entries:
  assumes "disk_ok d" "map_of d p = Some (File bs)"
  shows "\<not> has_entries d p"
proof
  assume "has_entries d p"
  then obtain q where "q \<noteq> []" "butlast q = p" "map_of d q \<noteq> None" by (auto simp: has_entries_iff)
  with assms(1) have "is_dir d p" by (auto simp: disk_ok_def)
  with assms show False by (auto simp: is_dir_def disk_ok_def)
qed

text \<open>Below something that does not exist nothing exists.\<close>

lemma nothing_below:
  assumes "disk_ok d" "map_of d p = None" "p \<noteq> []"
  shows "map_of d (p @ q) = None"
proof (induction q rule: rev_induct)
  case (snoc c q)
  show ?case
  proof (rule ccontr)
    assume "map_of d (p @ q @ [c]) \<noteq> None"
    then have "is_dir d (p @ q)" using disk_ok_child [OF assms(1), of "p @ q" c] by auto
    with snoc assms(3) show False by (simp add: is_dir_def)
  qed
qed (simp add: assms)

end
