(* ===== verification/Containers.thy ===== *)
theory Containers
  imports Pod_State Wire Filesystem
begin

text \<open>
  The container store (\<^verbatim>\<open>runtime/containers.rs\<close>): a client that fetches a component and its metadata from a registry, and a cache of
  compiled components on disk with an account of the bytes and inodes it uses.

  The account and the disk are in the record \<open>store\<close>. A blocking section of the source is a sequence of steps on that record, each of
  which may end the section with an error (\<open>andThen\<close>); the mutex keeps the sections of \<^verbatim>\<open>pull\<close> and \<^verbatim>\<open>remove\<close> apart, so that they are
  atomic for each other. Arithmetic on the account wraps, as in a release build. Wasmtime, the registry and the codecs of the messages
  are parameters: \<open>container_lib\<close> and \<open>http\<close>, the response to a \<^verbatim>\<open>GET\<close> with a possible \<^verbatim>\<open>Accept\<close> header.
\<close>

section \<open>Libraries\<close>

record descriptor =
  ds_mediaType :: string
  ds_digest :: string
  ds_size :: u64
  ds_urls :: "string list"
  ds_annotations :: string_map

record image_manifest =
  im_schemaVersion :: usize
  im_mediaType :: string
  im_config :: descriptor
  im_layers :: "descriptor list"
  im_annotations :: string_map

record ('c, 'm) container_lib =
  cl_component_new :: "bytes \<Rightarrow> 'c option"  \<comment> \<open>compile\<close>
  cl_serialize :: "'c \<Rightarrow> bytes option"
  cl_deserialize :: "bytes \<Rightarrow> 'c option"
  cl_metadata_encode :: "'m \<Rightarrow> bytes"
  cl_metadata_decode :: "bytes \<Rightarrow> 'm option"
  cl_image_spec_encode :: "image_spec \<Rightarrow> bytes"
  cl_image_spec_decode :: "bytes \<Rightarrow> image_spec option"
  cl_manifest_json :: "bytes \<Rightarrow> image_manifest option"

text \<open>What is serialized can be read back; the annotations of a message are a finite map.\<close>

locale container_codecs =
  fixes L :: "('c, 'm) container_lib"
  assumes deserialize_serialize: "cl_serialize L c = Some bs \<Longrightarrow> cl_deserialize L bs = Some c"
    and metadata_decode_encode: "cl_metadata_decode L (cl_metadata_encode L m) = Some m"
    and image_spec_decode_encode:
      "finite (Mapping.keys (is_annotations spec)) \<Longrightarrow> cl_image_spec_decode L (cl_image_spec_encode L spec) = Some spec"

datatype http_result = Send_error | Response nat "bytes option"  \<comment> \<open>status and body, \<^const>\<open>None\<close> when reading it fails\<close>

type_synonym http = "string \<Rightarrow> string option \<Rightarrow> http_result"

datatype blob_error = Blob_send | Blob_read | Blob_http nat

datatype store_error =
    Io_at string path io_error  \<comment> \<open>\<^verbatim>\<open>with_context\<close> on a path\<close>
  | Io_in string io_error  \<comment> \<open>\<^verbatim>\<open>context\<close>\<close>
  | Lock_poisoned
  | Join_failed string
  | Manifest_send string | Manifest_decode string | Manifest_layers nat string | Manifest_http nat string
  | Component_fetch string blob_error | Component_compilation
  | Metadata_fetch string blob_error | Metadata_decoding
  | Serialize_failure | Deserialize_failure nat | Stored_metadata_decoding | Stored_image_spec_decoding

record ('c, 'm) container =
  ctn_component :: 'c
  ctn_metadata :: 'm

section \<open>The client\<close>

definition MANIFEST_MIME :: string where
  "MANIFEST_MIME = ''application/vnd.oci.image.manifest.v1+json''"

definition server_url :: "string set \<Rightarrow> string \<Rightarrow> component_name \<Rightarrow> string" where
  "server_url insecure_registries registry name =
     (if registry \<in> insecure_registries then ''http'' else ''https'') @ ''://'' @ registry @ ''/v2/''
       @ DomainUuid_to_string (sn_domain (cn_server name)) @ ''/'' @ sn_server (cn_server name)"

definition fetch_blob :: "http \<Rightarrow> string \<Rightarrow> blob_error + bytes" where
  "fetch_blob http url =
     (case http url None of
        Send_error \<Rightarrow> Inl Blob_send
      | Response status body \<Rightarrow>
          if status = 200 then (case body of None \<Rightarrow> Inl Blob_read | Some bs \<Rightarrow> Inr bs) else Inl (Blob_http status))"

definition fetch_component :: "('c, 'm) container_lib \<Rightarrow> http \<Rightarrow> string \<Rightarrow> store_error + 'c" where
  "fetch_component L http url =
     ebind (emap_err (Component_fetch url) (fetch_blob http url))
       (\<lambda>bs. case cl_component_new L bs of None \<Rightarrow> Inl Component_compilation | Some c \<Rightarrow> Inr c)"

definition fetch_metadata :: "('c, 'm) container_lib \<Rightarrow> http \<Rightarrow> string \<Rightarrow> store_error + 'm" where
  "fetch_metadata L http url =
     ebind (emap_err (Metadata_fetch url) (fetch_blob http url))
       (\<lambda>bs. case cl_metadata_decode L bs of None \<Rightarrow> Inl Metadata_decoding | Some m \<Rightarrow> Inr m)"

text \<open>The two layers are fetched in parallel; an error of the component is reported before one of the metadata.\<close>

definition fetch ::
    "('c, 'm) container_lib \<Rightarrow> http \<Rightarrow> string set \<Rightarrow> string \<Rightarrow> component_name \<Rightarrow> store_error + ('c, 'm) container" where
  "fetch L http insecure_registries registry name =
     (let url = server_url insecure_registries registry name;
          manifest_url = url @ ''/manifests/'' @ cn_version name
      in (case http manifest_url (Some MANIFEST_MIME) of
            Send_error \<Rightarrow> Inl (Manifest_send manifest_url)
          | Response status body \<Rightarrow>
              if status = 200 then
                (case (case body of None \<Rightarrow> None | Some bs \<Rightarrow> cl_manifest_json L bs) of
                   None \<Rightarrow> Inl (Manifest_decode manifest_url)
                 | Some manifest \<Rightarrow>
                     if length (im_layers manifest) = 2 then
                       let component = fetch_component L http (url @ ''/blobs/'' @ ds_digest (im_layers manifest ! 0));
                           metadata = fetch_metadata L http (url @ ''/blobs/'' @ ds_digest (im_layers manifest ! 1))
                       in ebind component (\<lambda>c. ebind metadata (\<lambda>m. Inr \<lparr>ctn_component = c, ctn_metadata = m\<rparr>))
                     else Inl (Manifest_layers (length (im_layers manifest)) manifest_url))
              else Inl (Manifest_http status manifest_url)))"

section \<open>The store\<close>

definition CONTAINER_FILENAME :: string where "CONTAINER_FILENAME = ''container''"
definition IMAGE_SPEC_FILENAME :: string where "IMAGE_SPEC_FILENAME = ''image-spec.binpb''"

record filesystem_usage =
  fu_bytes :: u64
  fu_inodes :: u64

record store =
  st_root :: path
  st_insecure_registries :: "string set"
  st_usage :: filesystem_usage
  st_poisoned :: bool
  st_disk :: disk

definition ContainerStore_new :: "io_env \<Rightarrow> path \<Rightarrow> string set \<Rightarrow> disk \<Rightarrow> (store_error + store) \<times> disk" where
  "ContainerStore_new env root insecure_registries d =
     (case create_dir_all env Create_root root d of
        (Inl e, d) \<Rightarrow> (Inl (Io_at ''Failed to create image root directory'' root e), d)
      | (Inr _, d) \<Rightarrow>
          (Inr \<lparr>st_root = root, st_insecure_registries = insecure_registries, st_usage = \<lparr>fu_bytes = 0, fu_inodes = 0\<rparr>,
                st_poisoned = False, st_disk = d\<rparr>, d))"

definition mountpoint :: "store \<Rightarrow> string" where
  "mountpoint st = concat (map (\<lambda>c. CHR ''/'' # c) (st_root st))"

definition component_path :: "store \<Rightarrow> component_name \<Rightarrow> path" where
  "component_path st name =
     st_root st @ [DomainUuid_to_string (sn_domain (cn_server name)), sn_server (cn_server name), cn_version name]"

definition container_path :: "store \<Rightarrow> component_name \<Rightarrow> path" where
  "container_path st name = component_path st name @ [CONTAINER_FILENAME]"

definition image_spec_path :: "store \<Rightarrow> component_name \<Rightarrow> path" where
  "image_spec_path st name = component_path st name @ [IMAGE_SPEC_FILENAME]"

text \<open>Steps of a blocking section.\<close>

type_synonym 'a step = "store \<Rightarrow> (store_error + 'a) \<times> store"

definition andThen :: "'a step \<Rightarrow> ('a \<Rightarrow> 'b step) \<Rightarrow> 'b step" where
  "andThen m f st = (case m st of (Inl e, st) \<Rightarrow> (Inl e, st) | (Inr v, st) \<Rightarrow> f v st)"

definition on_disk :: "(io_error \<Rightarrow> store_error) \<Rightarrow> (disk \<Rightarrow> (io_error + 'a) \<times> disk) \<Rightarrow> 'a step" where
  "on_disk ctx f st = (let (r, d) = f (st_disk st) in (emap_err ctx r, st\<lparr>st_disk := d\<rparr>))"

definition read_disk :: "(io_error \<Rightarrow> store_error) \<Rightarrow> (disk \<Rightarrow> io_error + 'a) \<Rightarrow> 'a step" where
  "read_disk ctx f st = (emap_err ctx (f (st_disk st)), st)"

definition count_inodes :: "u64 \<Rightarrow> unit step" where
  "count_inodes n st = (Inr (), st\<lparr>st_usage := st_usage st\<lparr>fu_inodes := fu_inodes (st_usage st) + n\<rparr>\<rparr>)"

definition count_bytes :: "u64 \<Rightarrow> unit step" where
  "count_bytes n st = (Inr (), st\<lparr>st_usage := st_usage st\<lparr>fu_bytes := fu_bytes (st_usage st) + n\<rparr>\<rparr>)"

definition locked :: "'a step \<Rightarrow> 'a step" where
  "locked m st = (if st_poisoned st then (Inl Lock_poisoned, st) else m st)"

definition new_inodes :: "store \<Rightarrow> component_name \<Rightarrow> u64 \<times> u64 \<times> u64" where
  "new_inodes st name =
     (let p = component_path st name; d = st_disk st
      in if exists_path d p then
           (0, if exists_path d (container_path st name) then 0 else 1, if exists_path d (image_spec_path st name) then 0 else 1)
         else if exists_path d (butlast p) then (1, 1, 1)
         else if exists_path d (butlast (butlast p)) then (2, 1, 1)
         else (3, 1, 1))"

definition to_le_bytes :: "u64 \<Rightarrow> bytes" where
  "to_le_bytes n = le_put 8 (uint n)"

definition from_le_bytes :: "bytes \<Rightarrow> u64" where
  "from_le_bytes bs = (case le_get 8 bs of Some (n, r) \<Rightarrow> of_int n | None \<Rightarrow> 0)"

definition pull_blocking :: "io_env \<Rightarrow> component_name \<Rightarrow> bytes \<Rightarrow> bytes \<Rightarrow> bytes \<Rightarrow> unit step" where
  "pull_blocking env name component meta spec =
     locked (\<lambda>st.
       let (dir_inodes, container_inode, image_spec_inode) = new_inodes st name;
           p = component_path st name; c = container_path st name; i = image_spec_path st name
       in andThen (on_disk (Io_at ''Failed to create image directory'' p) (create_dir_all env Create_component_dir p)) (\<lambda>_.
          andThen (count_inodes dir_inodes) (\<lambda>_.
          andThen (on_disk (Io_at ''Failed to create container file'' c) (create_file env Create_container c)) (\<lambda>_.
          andThen (count_inodes container_inode) (\<lambda>_.
          andThen (on_disk (Io_at ''Failed to create image spec file'' i) (create_file env Create_image_spec i)) (\<lambda>_.
          andThen (count_inodes image_spec_inode) (\<lambda>_.
          andThen (on_disk (Io_in ''Failed writing length to container file'')
                     (write_all env Write_length c (to_le_bytes (of_nat (length component))))) (\<lambda>_.
          andThen (count_bytes 8) (\<lambda>_.
          andThen (on_disk (Io_in ''Failed writing component to container file'') (write_all env Write_component c component)) (\<lambda>_.
          andThen (count_bytes (of_nat (length component))) (\<lambda>_.
          andThen (on_disk (Io_in ''Failed writing metadata to container file'') (write_all env Write_metadata c meta)) (\<lambda>_.
          andThen (count_bytes (of_nat (length meta))) (\<lambda>_.
          andThen (on_disk (Io_in ''Failed writing to image spec file'') (write_all env Write_image_spec i spec)) (\<lambda>_.
          andThen (count_bytes (of_nat (length spec))) (\<lambda>_.
          andThen (on_disk (Io_in ''Failed syncing container file'') (sync_all env Sync_container)) (\<lambda>_.
            on_disk (Io_in ''Failed syncing image spec file'') (sync_all env Sync_image_spec)))))))))))))))) st)"

definition pull ::
    "('c, 'm) container_lib \<Rightarrow> io_env \<Rightarrow> http \<Rightarrow> string \<Rightarrow> component_name \<Rightarrow> image_spec \<Rightarrow> unit step" where
  "pull L env http registry name image_spec st =
     (case fetch L http (st_insecure_registries st) registry name of
        Inl e \<Rightarrow> (Inl e, st)
      | Inr ctn \<Rightarrow>
          (case cl_serialize L (ctn_component ctn) of
             None \<Rightarrow> (Inl Serialize_failure, st)
           | Some component \<Rightarrow>
               pull_blocking env name component (cl_metadata_encode L (ctn_metadata ctn)) (cl_image_spec_encode L image_spec) st))"

text \<open>
  A length above \<^verbatim>\<open>isize::MAX\<close> makes \<^verbatim>\<open>Vec::with_capacity\<close> panic, which joining the blocking task reports as an error. Memory for a
  shorter length is taken to be available.
\<close>

definition read_container :: "io_env \<Rightarrow> path \<Rightarrow> disk \<Rightarrow> store_error + bytes \<times> bytes" where
  "read_container env c d =
     ebind (emap_err (Io_at ''Failed to open container file'' c) (open_file env Open_container c d)) (\<lambda>file.
     ebind (emap_err (Io_in ''Failed reading length from container file'') (read_exact env Read_length 8 file)) (\<lambda>(size, file).
       let component_size = from_le_bytes size
       in if component_size > 0x7FFFFFFFFFFFFFFF then Inl (Join_failed ''Failed joining blocking thread to read image'')
          else
            ebind (emap_err (Io_in ''Failed reading component from container file'')
                     (read_exact env Read_component (unat component_size) file)) (\<lambda>(component, file).
            ebind (emap_err (Io_in ''Failed reading metadata from container file'') (read_to_end env Read_metadata file)) (\<lambda>meta.
              Inr (component, meta)))))"

definition get_container_file ::
    "('c, 'm) container_lib \<Rightarrow> io_env \<Rightarrow> component_name \<Rightarrow> store \<Rightarrow> store_error + ('c, 'm) container" where
  "get_container_file L env name st =
     ebind (read_container env (container_path st name) (st_disk st)) (\<lambda>(serialized_component, serialized_metadata).
       (case cl_deserialize L serialized_component of
          None \<Rightarrow> Inl (Deserialize_failure (length serialized_component))
        | Some component \<Rightarrow>
            (case cl_metadata_decode L serialized_metadata of
               None \<Rightarrow> Inl Stored_metadata_decoding
             | Some meta \<Rightarrow> Inr \<lparr>ctn_component = component, ctn_metadata = meta\<rparr>)))"

record image =
  img_id :: string
  img_repo_tags :: "string list"
  img_repo_digests :: "string list"
  img_size :: u64
  img_uid :: "int option"
  img_username :: string
  img_spec :: "image_spec option"
  img_pinned :: bool

definition get_image :: "('c, 'm) container_lib \<Rightarrow> io_env \<Rightarrow> component_name \<Rightarrow> store \<Rightarrow> store_error + image" where
  "get_image L env name st =
     (let c = container_path st name; i = image_spec_path st name
      in ebind (emap_err (Io_at ''Failed to get metadata for container file'' c) (metadata_len env Stat_container c (st_disk st))) (\<lambda>size.
         ebind (emap_err (Io_at ''Failed to open image spec file'' i) (open_file env Open_image_spec i (st_disk st))) (\<lambda>file.
         ebind (emap_err (Io_in ''Failed reading image spec from file'') (read_to_end env Read_image_spec file)) (\<lambda>bs.
           (case cl_image_spec_decode L bs of
              None \<Rightarrow> Inl Stored_image_spec_decoding
            | Some spec \<Rightarrow>
                Inr \<lparr>img_id = ComponentName_to_string name, img_repo_tags = [], img_repo_digests = [], img_size = size, img_uid = None,
                     img_username = [], img_spec = Some spec, img_pinned = False\<rparr>)))))"

text \<open>The component's, the server's and the domain's directory, as long as they are empty.\<close>

fun remove_dirs :: "io_env \<Rightarrow> path list \<Rightarrow> store \<Rightarrow> store" where
  "remove_dirs env [] st = st"
| "remove_dirs env (p # ps) st =
     (case on_disk (Io_in []) (remove_dir env (Remove_directory p) p) st of
        (Inl e, st) \<Rightarrow> st
      | (Inr _, st) \<Rightarrow> remove_dirs env ps (snd (count_inodes (- 1) st)))"

definition remove_image_files :: "io_env \<Rightarrow> component_name \<Rightarrow> unit step" where
  "remove_image_files env name =
     locked (\<lambda>st.
       let p = component_path st name; c = container_path st name; i = image_spec_path st name
       in andThen (read_disk (Io_at ''Failed to get metadata for container file'' c) (metadata_len env Stat_container c)) (\<lambda>container_len.
          andThen (on_disk (Io_at ''Failed removing container file'' c) (remove_file env Remove_container_file c)) (\<lambda>_.
          andThen (count_bytes (- container_len)) (\<lambda>_.
          andThen (count_inodes (- 1)) (\<lambda>_.
          andThen (read_disk (Io_at ''Failed to get metadata for image spec file'' i) (metadata_len env Stat_image_spec i)) (\<lambda>image_spec_len.
          andThen (on_disk (Io_at ''Failed removing image spec file'' i) (remove_file env Remove_image_spec_file i)) (\<lambda>_.
          andThen (count_bytes (- image_spec_len)) (\<lambda>_.
          andThen (count_inodes (- 1)) (\<lambda>_ st.
            (Inr (), remove_dirs env [p, butlast p, butlast (butlast p)] st))))))))) st)"

definition filesystem_usage_of :: "store \<Rightarrow> store_error + filesystem_usage" where
  "filesystem_usage_of st = fst (locked (\<lambda>st. (Inr (st_usage st), st)) st)"

section \<open>Lemmas\<close>

lemma andThen_Inr: "andThen m f st = (Inr v, st') \<longleftrightarrow> (\<exists>u st1. m st = (Inr u, st1) \<and> f u st1 = (Inr v, st'))"
  by (auto simp: andThen_def split: prod.splits sum.splits)

lemma on_disk_Inr: "on_disk ctx f st = (Inr v, st') \<longleftrightarrow> (\<exists>d. f (st_disk st) = (Inr v, d) \<and> st' = st\<lparr>st_disk := d\<rparr>)"
  by (auto simp: on_disk_def split: prod.splits)

lemma read_disk_Inr: "read_disk ctx f st = (Inr v, st') \<longleftrightarrow> f (st_disk st) = Inr v \<and> st' = st"
  by (auto simp: read_disk_def)

lemmas step_Inr = andThen_Inr on_disk_Inr read_disk_Inr

lemma paths_eq [simp]:
  "component_path (st\<lparr>st_disk := d\<rparr>) name = component_path st name" "component_path (st\<lparr>st_usage := u\<rparr>) name = component_path st name"
  "container_path (st\<lparr>st_disk := d\<rparr>) name = container_path st name" "container_path (st\<lparr>st_usage := u\<rparr>) name = container_path st name"
  "image_spec_path (st\<lparr>st_disk := d\<rparr>) name = image_spec_path st name" "image_spec_path (st\<lparr>st_usage := u\<rparr>) name = image_spec_path st name"
  by (simp_all add: component_path_def container_path_def image_spec_path_def)

lemma paths_distinct [simp]: "container_path st name \<noteq> image_spec_path st name'" "image_spec_path st name' \<noteq> container_path st name"
  by (simp_all add: container_path_def image_spec_path_def CONTAINER_FILENAME_def IMAGE_SPEC_FILENAME_def)

lemma butlast_paths [simp]:
  "butlast (container_path st name) = component_path st name" "butlast (image_spec_path st name) = component_path st name"
  by (simp_all add: container_path_def image_spec_path_def)

lemma le_bytes [simp]: "from_le_bytes (to_le_bytes n) = n" "length (to_le_bytes n) = 8"
proof -
  have "uint n < 256 ^ 8" using unsigned_less [of n, where 'a = int] by simp
  then show "from_le_bytes (to_le_bytes n) = n"
    using le_get_put [of "uint n" 8 "[]"] by (simp add: from_le_bytes_def to_le_bytes_def)
qed (simp add: to_le_bytes_def)

end
