(* ===== verification/Pods.thy ===== *)
theory Pods
  imports Containers Encode_Compound Decode_Compound
begin

text \<open>
  The pod initializer (\<^verbatim>\<open>runtime/pods.rs\<close>, \<^verbatim>\<open>runtime/host.rs\<close> and the services of \<^verbatim>\<open>runtime/metadata.proto\<close>): from a stored container
  to the routes of its gRPC methods, each with its codec, and the call of a component's function. Wasmtime (\<open>wasm_lib\<close>) and the
  axum router (\<open>router_lib\<close>, locale \<open>router\<close>) are parameters; a router that refuses a route panics. An instance is used for one
  call and host functions have no state, so that a call is a function of its parameters.
\<close>

section \<open>Metadata\<close>

record grpc_method =
  gm_function :: string
  gm_arity :: int
  gm_request :: "field option"
  gm_response :: "field option"

text \<open>The methods are a \<^verbatim>\<open>HashMap\<close>, here with its entries in iteration order.\<close>

record grpc_service =
  gs_name :: string
  gs_methods :: "(string \<times> grpc_method) list"

record metadata =
  md_service :: "grpc_service list"

section \<open>Wasmtime and host functions\<close>

datatype host_function = Host_get_environment | Host_exit

definition get_environment :: "(string \<times> string) list" where
  "get_environment = []"

record ('c, 'l, 'i, 'n, 'f, 'g) wasm_lib =
  wl_linker_new :: 'l
  wl_instance :: "string \<Rightarrow> 'l \<Rightarrow> 'l option"
  wl_func_wrap_async :: "string \<Rightarrow> string \<Rightarrow> host_function \<Rightarrow> 'l \<Rightarrow> 'l option"
  wl_instantiate_pre :: "'l \<Rightarrow> 'c \<Rightarrow> 'i option"
  wl_get_export_index :: "'c \<Rightarrow> string \<Rightarrow> 'f option"
  wl_instantiate_async :: "'i \<Rightarrow> 'n option"
  wl_get_func :: "'n \<Rightarrow> 'f \<Rightarrow> 'g option"
  wl_call_async :: "'g \<Rightarrow> val list \<Rightarrow> val list \<Rightarrow> val list option"

definition grpc_linker :: "('c, 'l, 'i, 'n, 'f, 'g) wasm_lib \<Rightarrow> 'l option" where
  "grpc_linker W =
     Option.bind (wl_instance W ''wasi:cli/environment@0.2.1'' (wl_linker_new W)) (\<lambda>l.
     Option.bind (wl_func_wrap_async W ''wasi:cli/environment@0.2.1'' ''get-environment'' Host_get_environment l) (\<lambda>l.
     Option.bind (wl_instance W ''wasi:cli/exit@0.2.1'' l)
       (wl_func_wrap_async W ''wasi:cli/exit@0.2.1'' ''exit'' Host_exit)))"

section \<open>Codecs and methods\<close>

record codec =
  cd_decoder :: merger
  cd_encoder :: encoder

record ('i, 'f) grpc_handler =
  mt_codec :: codec
  mt_function :: 'f
  mt_instantiator :: 'i
  mt_component :: component_name

datatype initialize_error =
    Init_store store_error | Init_linker | Init_linking
  | Metadata_missing_request | Metadata_missing_response | Init_decoder merger_error | Init_encoder compile_error
  | Function_not_found string

definition Codec_new :: "field \<Rightarrow> field \<Rightarrow> initialize_error + codec" where
  "Codec_new decoder encoder =
     ebind (emap_err Init_decoder (RequestDecoder_new decoder)) (\<lambda>d.
     ebind (emap_err Init_encoder (ResponseEncoder_new encoder)) (\<lambda>e. Inr \<lparr>cd_decoder = d, cd_encoder = e\<rparr>))"

definition GRPC_PORT :: "16 word" where "GRPC_PORT = 80"

definition MAX_DECODING_MESSAGE_SIZE :: "nat option" where "MAX_DECODING_MESSAGE_SIZE = Some (1024 * 1024)"
definition MAX_ENCODING_MESSAGE_SIZE :: "nat option" where "MAX_ENCODING_MESSAGE_SIZE = Some (1024 * 1024)"

section \<open>Routes\<close>

record ('r, 'h) router_lib =
  rl_default :: 'r
  rl_route :: "string \<Rightarrow> 'h \<Rightarrow> 'r \<Rightarrow> 'r option"
  rl_nest :: "string \<Rightarrow> 'r \<Rightarrow> 'r \<Rightarrow> 'r option"
  rl_lookup :: "'r \<Rightarrow> string \<Rightarrow> 'h option"

definition method_handler ::
    "('c, 'l, 'i, 'n, 'f, 'g) wasm_lib \<Rightarrow> component_name \<Rightarrow> 'c \<Rightarrow> 'i \<Rightarrow> grpc_method \<Rightarrow> initialize_error + ('i, 'f) grpc_handler" where
  "method_handler W name component instantiator m =
     (case gm_request m of
        None \<Rightarrow> Inl Metadata_missing_request
      | Some request \<Rightarrow>
          (case gm_response m of
             None \<Rightarrow> Inl Metadata_missing_response
           | Some response \<Rightarrow>
               ebind (Codec_new request response) (\<lambda>codec.
               (case wl_get_export_index W component (gm_function m) of
                  None \<Rightarrow> Inl (Function_not_found (gm_function m))
                | Some export_index \<Rightarrow>
                    Inr \<lparr>mt_codec = codec, mt_function = export_index, mt_instantiator = instantiator, mt_component = name\<rparr>))))"

fun method_routes ::
    "('r, 'h) router_lib \<Rightarrow> (grpc_method \<Rightarrow> initialize_error + 'h)
      \<Rightarrow> (string \<times> grpc_method) list \<Rightarrow> 'r \<Rightarrow> ('r, initialize_error) outcome" where
  "method_routes R handler [] method_router = Ok method_router"
| "method_routes R handler ((method_name, m) # methods) method_router =
     (case handler m of
        Inl e \<Rightarrow> Err e
      | Inr h \<Rightarrow>
          (case rl_route R (''/'' @ method_name) h method_router of
             None \<Rightarrow> Panic
           | Some method_router \<Rightarrow> method_routes R handler methods method_router))"

fun service_routes ::
    "('r, 'h) router_lib \<Rightarrow> (grpc_method \<Rightarrow> initialize_error + 'h)
      \<Rightarrow> grpc_service list \<Rightarrow> 'r \<Rightarrow> ('r, initialize_error) outcome" where
  "service_routes R handler [] service_router = Ok service_router"
| "service_routes R handler (service # services) service_router =
     obind (method_routes R handler (gs_methods service) (rl_default R)) (\<lambda>method_router.
       (case rl_nest R (''/'' @ gs_name service) method_router service_router of
          None \<Rightarrow> Panic
        | Some service_router \<Rightarrow> service_routes R handler services service_router))"

definition initialize_grpc ::
    "('c, metadata) container_lib \<Rightarrow> ('c, 'l, 'i, 'n, 'f, 'g) wasm_lib \<Rightarrow> ('r, ('i, 'f) grpc_handler) router_lib \<Rightarrow> io_env
      \<Rightarrow> store \<Rightarrow> component_name \<Rightarrow> ('r, initialize_error) outcome" where
  "initialize_grpc L W R env containers name =
     (case get_container_file L env name containers of
        Inl e \<Rightarrow> Err (Init_store e)
      | Inr ctn \<Rightarrow>
          (case grpc_linker W of
             None \<Rightarrow> Err Init_linker
           | Some linker \<Rightarrow>
               (case wl_instantiate_pre W linker (ctn_component ctn) of
                  None \<Rightarrow> Err Init_linking
                | Some instantiator \<Rightarrow>
                    service_routes R (method_handler W name (ctn_component ctn) instantiator) (md_service (ctn_metadata ctn)) (rl_default R))))"

text \<open>
  What the shared future of the background task delivers; \<open>routes\<close> is a reference to the routes, and of the messages of an error only the
  context that the initializer adds is kept.
\<close>

definition grpc_result :: "routes_ref \<Rightarrow> ('r, initialize_error) outcome \<Rightarrow> future_state" where
  "grpc_result routes r =
     (case r of
        Ok _ \<Rightarrow> Ready routes
      | Err _ \<Rightarrow> Failed (Some (Init_error [''Failure initializing gRPC pod'']))
      | _ \<Rightarrow> Failed (Some (Init_error [''Failure joining initialize-gRPC background task''])))"

section \<open>Calls\<close>

text \<open>A header of a request: the value of a text header if it is ASCII, or a binary header.\<close>

datatype header = Ascii_header string "string option" | Binary_header string bytes

fun header_vals :: "header list \<Rightarrow> val list" where
  "header_vals [] = []"
| "header_vals (Ascii_header key (Some v) # headers) = Val_Tuple [Val_String key, Val_String v] # header_vals headers"
| "header_vals (_ # headers) = header_vals headers"

datatype call_status = Module_instantiation_error | Function_selection_error | Function_invocation_error

definition Method_call ::
    "('c, 'l, 'i, 'n, 'f, 'g) wasm_lib \<Rightarrow> ('i, 'f) grpc_handler \<Rightarrow> header list \<Rightarrow> val \<Rightarrow> (val, call_status) outcome" where
  "Method_call W h headers request =
     (case wl_instantiate_async W (mt_instantiator h) of
        None \<Rightarrow> Err Module_instantiation_error
      | Some inst \<Rightarrow>
          (case wl_get_func W inst (mt_function h) of
             None \<Rightarrow> Err Function_selection_error
           | Some f \<Rightarrow>
               let ctx = Val_Record [(''headers'', Val_List (header_vals headers))]
               in (case wl_call_async W f [ctx, request] [Val_Option None] of
                     None \<Rightarrow> Err Function_invocation_error
                   | Some results \<Rightarrow> if results = [] then Panic else Ok (last results))))"

section \<open>The router\<close>

text \<open>
  A route or a nested router is accepted when it does not clash with what exists and its path is literal, without the characters that the
  router gives a meaning to; \<open>nested\<close> are the prefixes of nested routers.
\<close>

locale router =
  fixes R :: "('r, 'h) router_lib" and nested :: "'r \<Rightarrow> string set" and literal :: "string \<Rightarrow> bool"
  assumes new_router: "rl_lookup R (rl_default R) p = None" "nested (rl_default R) = {}"
    and route_Some: "rl_route R p h r = Some r' \<Longrightarrow>
      rl_lookup R r p = None \<and> rl_lookup R r' = (rl_lookup R r)(p \<mapsto> h) \<and> nested r' = nested r"
    and route_succeeds: "rl_lookup R r p = None \<Longrightarrow> literal p \<Longrightarrow> \<exists>r'. rl_route R p h r = Some r'"
    and nest_Some: "rl_nest R p sub r = Some r' \<Longrightarrow> nested r' = insert p (nested r)
      \<and> (rl_lookup R r' path = Some h \<longleftrightarrow> rl_lookup R r path = Some h \<or> (\<exists>q. path = p @ q \<and> rl_lookup R sub q = Some h))"
    and nest_succeeds: "p \<notin> nested r \<Longrightarrow> literal p \<Longrightarrow> (\<And>q. rl_lookup R sub q \<noteq> None \<Longrightarrow> rl_lookup R r (p @ q) = None)
      \<Longrightarrow> \<exists>r'. rl_nest R p sub r = Some r'"

text \<open>A router as a list of routes and a list of prefixes.\<close>

definition list_router :: "((string \<times> 'h) list \<times> string list, 'h) router_lib" where
  "list_router =
     \<lparr>rl_default = ([], []), rl_route = (\<lambda>p h (r, ps). if map_of r p = None then Some ((p, h) # r, ps) else None),
      rl_nest = (\<lambda>p (sub, qs) (r, ps).
        if p \<in> set ps \<or> list_ex (\<lambda>(q, h). map_of r (p @ q) \<noteq> None) sub then None
        else Some (map (\<lambda>(q, h). (p @ q, h)) sub @ r, p # ps)),
      rl_lookup = (\<lambda>(r, ps). map_of r)\<rparr>"

lemma map_of_nested: "map_of (map (\<lambda>(q, h). (p @ q, h)) sub) path = (if prefix p path then map_of sub (drop (length p) path) else None)"
  by (induction sub) (auto simp: prefix_def)

lemma nested_routes:
  assumes "list_all (\<lambda>(q, h). map_of r (p @ q) = None) sub"
  shows "map_of (map (\<lambda>(q, h). (p @ q, h)) sub @ r) path = Some h \<longleftrightarrow>
    map_of r path = Some h \<or> (\<exists>q. path = p @ q \<and> map_of sub q = Some h)"
proof (cases "prefix p path")
  case True
  then obtain q where q: "path = p @ q" by (auto simp: prefix_def)
  have "map_of sub q \<noteq> None \<Longrightarrow> map_of r (p @ q) = None" using assms by (auto simp: list_all_iff dest: map_of_SomeD)
  with q show ?thesis by (auto simp: map_add_def map_of_nested split: option.splits)
qed (auto simp: map_add_def map_of_nested)

interpretation list_router: router list_router "\<lambda>(r, ps). set ps" "\<lambda>_. True"
proof
  fix p path h and sub r r' :: "(string \<times> 'h) list \<times> string list"
  assume nest: "rl_nest list_router p sub r = Some r'"
  show "(case r' of (r, ps) \<Rightarrow> set ps) = insert p (case r of (r, ps) \<Rightarrow> set ps)
      \<and> (rl_lookup list_router r' path = Some h \<longleftrightarrow>
          rl_lookup list_router r path = Some h \<or> (\<exists>q. path = p @ q \<and> rl_lookup list_router sub q = Some h))"
  proof (cases sub, cases r)
    fix a qs b ps
    assume lists: "sub = (a, qs)" "r = (b, ps)"
    then have r': "r' = (map (\<lambda>(q, h). (p @ q, h)) a @ b, p # ps)" and "\<not> list_ex (\<lambda>(q, h). map_of b (p @ q) \<noteq> None) a"
      using nest by (simp_all add: list_router_def split: if_splits)
    then have "list_all (\<lambda>(q, h). map_of b (p @ q) = None) a" by (auto simp: list_ex_iff list_all_iff)
    from nested_routes [OF this] show ?thesis by (simp add: list_router_def lists r' del: map_of_append)
  qed
next
  fix p and sub r :: "(string \<times> 'h) list \<times> string list"
  assume free: "p \<notin> (case r of (r, ps) \<Rightarrow> set ps)" "\<And>q. rl_lookup list_router sub q \<noteq> None \<Longrightarrow> rl_lookup list_router r (p @ q) = None"
  have "list_all (\<lambda>(q, h). map_of (fst r) (p @ q) = None) (fst sub)"
    using free(2) by (force simp: list_router_def list_all_iff case_prod_beta dest: weak_map_of_SomeI)
  with free(1) show "\<exists>r'. rl_nest list_router p sub r = Some r'"
    by (auto simp: list_router_def case_prod_beta list_all_iff list_ex_iff)
qed (auto simp: list_router_def split: if_splits)

end
