(* ===== verification/Pod_Machine.thy ===== *)
theory Pod_Machine
  imports Pod_State "HOL-Library.Multiset"
begin

text \<open>
  The runtime as a transition system: the CRI calls of several tasks interleave between the atomic accesses
  of \<open>Pod_State\<close>. A configuration is the runtime and the multiset of what tasks still have to do. The
  invariant of the reachable configurations says that a running pod always has a live server that its killer
  can reach, and that no server is ever leaked.

  Binding a socket, spawning the server and finalizing the start are one step, which the operating
  system only allows when no live server is bound to the address; so are drawing an ID and inserting the
  new pod. The ID counter is assumed not to wrap (it would take \<open>2\<^sup>6\<^sup>4\<close> pods).
\<close>

section \<open>Effects of the operations\<close>

definition addr :: "pod \<Rightarrow> ip_addr" where
  "addr p = ia_address (pod_ip_address p)"

text \<open>The changes of state a step may make to a pod that stays in the map.\<close>

fun pod_transition :: "pod_state \<Rightarrow> pod_state \<Rightarrow> bool" where
  "pod_transition Initiated s \<longleftrightarrow> s = Created \<or> s = Killed"
| "pod_transition Created s \<longleftrightarrow> s = Starting \<or> s = Killed"
| "pod_transition Starting s \<longleftrightarrow> s = Running \<or> s = Created \<or> s = Stopped \<or> s = Killed"
| "pod_transition Running s \<longleftrightarrow> s = Stopped \<or> s = Created \<or> s = Killed"
| "pod_transition Stopped s \<longleftrightarrow> s = Removed \<or> s = Killed"
| "pod_transition Removed s \<longleftrightarrow> s = Created \<or> s = Killed"
| "pod_transition Killed s \<longleftrightarrow> False"

text \<open>
  An access that replaces a pod by one that is neither running nor killed and has the same killer, address
  and stop time, and that touches no handle and no server.
\<close>

definition gentle :: "pod \<Rightarrow> pod \<Rightarrow> bool" where
  "gentle p q \<longleftrightarrow> pod_killer q = pod_killer p \<and> pod_ip_address q = pod_ip_address p
     \<and> pod_state q \<noteq> Running \<and> pod_state q \<noteq> Killed
     \<and> (pod_state q = pod_state p \<or> pod_transition (pod_state p) (pod_state q))
     \<and> container_finished_at q = container_finished_at p"

definition same_heap :: "'m runtime \<Rightarrow> 'm runtime \<Rightarrow> bool" where
  "same_heap rt rt' \<longleftrightarrow> rt_cells rt' = rt_cells rt \<and> rt_next_cell rt' = rt_next_cell rt
     \<and> rt_servers rt' = rt_servers rt \<and> rt_next_server rt' = rt_next_server rt \<and> rt_next_pod_id rt' = rt_next_pod_id rt"

definition gentle_change :: "'m pod_map_lib \<Rightarrow> 'm runtime \<Rightarrow> 'm runtime \<Rightarrow> bool" where
  "gentle_change P rt rt' \<longleftrightarrow> same_heap rt rt' \<and>
     (pm_get P (rt_pods rt') = pm_get P (rt_pods rt)
      \<or> (\<exists>k p q. pm_get P (rt_pods rt) k = Some p \<and> gentle p q \<and> pm_get P (rt_pods rt') = (pm_get P (rt_pods rt))(k \<mapsto> q)))"

lemma gentle_change_refl [simp]: "gentle_change P rt rt"
  by (simp add: gentle_change_def same_heap_def)

lemma gentle_change_futures [simp]:
  "gentle_change P rt (rt'\<lparr>rt_futures := f\<rparr>) \<longleftrightarrow> gentle_change P rt rt'"
  "gentle_change P rt (rt'\<lparr>rt_next_future := n\<rparr>) \<longleftrightarrow> gentle_change P rt rt'"
  by (simp_all add: gentle_change_def same_heap_def)

context pod_map
begin

lemma get_insert_upd: "pm_get P (pm_insert P m k p) = (pm_get P m)(k \<mapsto> p)"
  by (auto simp: get_insert)

lemma get_remove_upd: "pm_get P (pm_remove P m k) = (pm_get P m)(k := None)"
  by (auto simp: get_remove)

lemma gentle_change_insert:
  assumes "pm_get P (rt_pods rt) k = Some p" "gentle p q"
  shows "gentle_change P rt (rt\<lparr>rt_pods := pm_insert P (rt_pods rt) k q\<rparr>)"
    and "gentle_change P rt (rt\<lparr>rt_futures := f, rt_next_future := n, rt_pods := pm_insert P (rt_pods rt) k q\<rparr>)"
  using assms by (auto simp: gentle_change_def get_insert_upd same_heap_def)

lemma create_gentle: "create_container P name meta labels annotations env img t rt = (r, rt') \<Longrightarrow> gentle_change P rt rt'"
  by (cases "pm_get P (rt_pods rt) (pn_pod name)")
    (auto simp: create_container_def compute_def create_closure_def grpc_def Let_def gentle_def
      intro: gentle_change_insert split: if_splits)

lemma claim_gentle: "start_claim P name rt = (r, rt') \<Longrightarrow> gentle_change P rt rt'"
  by (cases "pm_get P (rt_pods rt) (pn_pod name)")
    (auto simp: start_claim_def compute_def start_closure_def Let_def gentle_def
      intro: gentle_change_insert split: option.splits pod_state.splits future_state.splits)

lemma bind_error_gentle: "start_bind_error P name rt = (r, rt') \<Longrightarrow> gentle_change P rt rt'"
  by (cases "pm_get P (rt_pods rt) (pn_pod name)")
    (auto simp: start_bind_error_def compute_def unlock_closure_def Let_def gentle_def
      intro: gentle_change_insert split: if_splits)

lemma stop_gentle: "stop_mark P name rt = (r, rt') \<Longrightarrow> gentle_change P rt rt'"
  by (cases "pm_get P (rt_pods rt) (pn_pod name)")
    (auto simp: stop_mark_def compute_def stop_closure_def Let_def gentle_def
      intro: gentle_change_insert split: pod_state.splits)

lemma remove_gentle: "remove_container P name rt = (r, rt') \<Longrightarrow> gentle_change P rt rt'"
  by (cases "pm_get P (rt_pods rt) (pn_pod name)")
    (auto simp: remove_container_def compute_def remove_closure_def Let_def gentle_def
      intro: gentle_change_insert split: pod_state.splits)

lemma kill_other: "kill_pod_without_wait P name rt = (r, rt') \<Longrightarrow> (\<And>c ip. r \<noteq> Inr (Some (c, ip))) \<Longrightarrow> rt' = rt"
  by (cases "pm_get P (rt_pods rt) (pn_pod name)")
    (auto simp: kill_pod_without_wait_def compute_def kill_closure_def Let_def split: if_splits)

lemma claim_claimed:
  "start_claim P name rt = (Claimed p r, rt') \<Longrightarrow>
     pm_get P (rt_pods rt') (pn_pod name) = Some p \<and> pod_state p = Starting
     \<and> (\<exists>q. pm_get P (rt_pods rt) (pn_pod name) = Some q \<and> pod_state q = Created \<and> p = q\<lparr>pod_state := Starting\<rparr>)"
  by (cases "pm_get P (rt_pods rt) (pn_pod name)")
    (auto simp: start_claim_def compute_def start_closure_def Let_def get_insert_upd
      split: if_splits prod.splits option.splits pod_state.splits future_state.splits)

lemma stop_take_cell:
  "stop_mark P name rt = (Stop_take c, rt') \<Longrightarrow>
     \<exists>p. pm_get P (rt_pods rt) (pn_pod name) = Some p \<and> pod_state p = Running \<and> pod_killer p = c
       \<and> pm_get P (rt_pods rt') = (pm_get P (rt_pods rt))(pn_pod name \<mapsto> p\<lparr>pod_state := Stopped\<rparr>)"
  by (cases "pm_get P (rt_pods rt) (pn_pod name)")
    (auto simp: stop_mark_def compute_def stop_closure_def Let_def get_insert_upd split: if_splits pod_state.splits)

lemma kill_take_cell:
  "kill_pod_without_wait P name rt = (Inr (Some (c, ip)), rt') \<Longrightarrow>
     \<exists>p. pm_get P (rt_pods rt) (pn_pod name) = Some p \<and> pod_state p \<noteq> Killed \<and> pod_killer p = c \<and> pod_ip_address p = ip
       \<and> pm_get P (rt_pods rt') = (pm_get P (rt_pods rt))(pn_pod name \<mapsto> p\<lparr>pod_state := Killed\<rparr>)"
  by (cases "pm_get P (rt_pods rt) (pn_pod name)")
    (auto simp: kill_pod_without_wait_def compute_def kill_closure_def Let_def get_insert_upd split: if_splits)

lemma kill_heap: "kill_pod_without_wait P name rt = (r, rt') \<Longrightarrow> same_heap rt rt'"
  by (cases "pm_get P (rt_pods rt) (pn_pod name)")
    (auto simp: kill_pod_without_wait_def compute_def kill_closure_def Let_def same_heap_def split: if_splits)

lemma delete_effect:
  "delete_pod P name rt = (r, rt') \<Longrightarrow>
     same_heap rt rt' \<and> rt_futures rt' = rt_futures rt
     \<and> (pm_get P (rt_pods rt') = pm_get P (rt_pods rt)
        \<or> (\<exists>p. pm_get P (rt_pods rt) (pn_pod name) = Some p \<and> pod_state p = Killed
             \<and> pm_get P (rt_pods rt') = (pm_get P (rt_pods rt))(pn_pod name := None)))"
  by (cases "pm_get P (rt_pods rt) (pn_pod name)")
    (auto simp: delete_pod_def compute_def delete_closure_def Let_def same_heap_def get_remove_upd split: if_splits)

text \<open>Finalizing replaces a starting pod by the running one, or kills the server it spawned.\<close>

lemma finalize_effect:
  assumes "start_finalize P name p t rt = (r, rt')"
  shows "(\<exists>q. pm_get P (rt_pods rt) (pn_pod name) = Some q \<and> pod_state q = Starting \<and> r = Inr None
        \<and> pm_get P (rt_pods rt') = (pm_get P (rt_pods rt))(pn_pod name \<mapsto>
            p\<lparr>pod_state := Running, pod_killer := rt_next_cell rt, container_started_at := t\<rparr>)
        \<and> rt_cells rt' = (rt_cells rt)(rt_next_cell rt := Some (rt_next_server rt))
        \<and> rt_servers rt' = (rt_servers rt)(rt_next_server rt := Some (addr p)))
      \<or> (pm_get P (rt_pods rt') = pm_get P (rt_pods rt) \<and> (\<exists>e. r = Inl e)
        \<and> rt_cells rt' = (rt_cells rt)(rt_next_cell rt := None)
        \<and> rt_servers rt' = (rt_servers rt)(rt_next_server rt := None))"
    and "rt_next_cell rt' = rt_next_cell rt + 1" "rt_next_server rt' = rt_next_server rt + 1"
    and "rt_next_pod_id rt' = rt_next_pod_id rt" "rt_futures rt' = rt_futures rt"
  using assms
  by (cases "pm_get P (rt_pods rt) (pn_pod name)";
      auto simp: start_finalize_def spawn_server_def SingleUse_of_def take_killer_def kill_server_def compute_def
        finalize_closure_def Let_def addr_def get_insert_upd split: if_splits)+

lemma init_insert_effect:
  assumes "init_pod_insert P component meta labels annotations k ip t rt = (r, rt')" "pm_get P (rt_pods rt) k = None"
  shows "rt_next_pod_id rt' = rt_next_pod_id rt" "rt_servers rt' = rt_servers rt" "rt_next_server rt' = rt_next_server rt"
    and "rt_cells rt' = (rt_cells rt)(rt_next_cell rt := None)" "rt_next_cell rt' = rt_next_cell rt + 1"
    and "pm_get P (rt_pods rt') =
           (pm_get P (rt_pods rt))(k \<mapsto> initiated_pod component meta labels annotations ip t (rt_next_cell rt))"
  using assms by (auto simp: init_pod_insert_def SingleUse_default_def Let_def get_insert_upd)

end

section \<open>Steps\<close>

text \<open>What a task has still to do after one of its atomic accesses.\<close>

datatype task =
    Task_init pod_id  \<comment> \<open>insert the pod once it has an address\<close>
  | Task_start pod_name pod  \<comment> \<open>bind and serve the claimed pod\<close>
  | Task_stop cell_ref  \<comment> \<open>take the killer for \<^verbatim>\<open>StopContainer\<close>\<close>
  | Task_kill cell_ref  \<comment> \<open>take the killer for \<^verbatim>\<open>StopPodSandbox\<close>\<close>
  | Task_kill_server server_ref  \<comment> \<open>shut down the server of a killer it took\<close>

type_synonym 'm configuration = "'m runtime \<times> task multiset"

inductive rt_step :: "'m pod_map_lib \<Rightarrow> 'm configuration \<Rightarrow> 'm configuration \<Rightarrow> bool" for P where
  step_pod_id:
    "fetch_add_pod_id rt = (k, rt') \<Longrightarrow> k \<noteq> - 1 \<Longrightarrow> rt_step P (rt, T) (rt', add_mset (Task_init k) T)"
| step_no_address:
    "rt_step P (rt, add_mset (Task_init k) T) (rt, T)"
| step_insert:
    "init_pod_insert P component meta labels annotations k ip t rt = (r, rt')
       \<Longrightarrow> rt_step P (rt, add_mset (Task_init k) T) (rt', T)"
| step_create:
    "create_container P name cmeta labels annotations env img t rt = (r, rt') \<Longrightarrow> rt_step P (rt, T) (rt', T)"
| step_future:
    "rt_step P (rt, T) (complete_future f s rt, T)"
| step_claim:
    "start_claim P name rt = (Claimed p routes, rt') \<Longrightarrow> rt_step P (rt, T) (rt', add_mset (Task_start name p) T)"
| step_claim_other:
    "start_claim P name rt = (r, rt') \<Longrightarrow> (\<And>p routes. r \<noteq> Claimed p routes) \<Longrightarrow> rt_step P (rt, T) (rt', T)"
| step_bind_error:
    "start_bind_error P name rt = (r, rt') \<Longrightarrow> rt_step P (rt, add_mset (Task_start name p) T) (rt', T)"
| step_bind:
    "(\<And>s. rt_servers rt s \<noteq> Some (addr p)) \<Longrightarrow> start_finalize P name p t rt = (r, rt')
       \<Longrightarrow> rt_step P (rt, add_mset (Task_start name p) T) (rt', T)"
| step_stop:
    "stop_mark P name rt = (Stop_take c, rt') \<Longrightarrow> rt_step P (rt, T) (rt', add_mset (Task_stop c) T)"
| step_stop_other:
    "stop_mark P name rt = (r, rt') \<Longrightarrow> (\<And>c. r \<noteq> Stop_take c) \<Longrightarrow> rt_step P (rt, T) (rt', T)"
| step_stop_take:
    "take_killer c rt = (k, rt')
       \<Longrightarrow> rt_step P (rt, add_mset (Task_stop c) T) (rt', (case k of Some s \<Rightarrow> add_mset (Task_kill_server s) T | None \<Rightarrow> T))"
| step_remove:
    "remove_container P name rt = (r, rt') \<Longrightarrow> rt_step P (rt, T) (rt', T)"
| step_kill:
    "kill_pod_without_wait P name rt = (Inr (Some (c, ip)), rt') \<Longrightarrow> rt_step P (rt, T) (rt', add_mset (Task_kill c) T)"
| step_kill_other:
    "kill_pod_without_wait P name rt = (r, rt') \<Longrightarrow> (\<And>c ip. r \<noteq> Inr (Some (c, ip))) \<Longrightarrow> rt_step P (rt, T) (rt', T)"
| step_kill_take:
    "take_killer c rt = (k, rt')
       \<Longrightarrow> rt_step P (rt, add_mset (Task_kill c) T) (rt', (case k of Some s \<Rightarrow> add_mset (Task_kill_server s) T | None \<Rightarrow> T))"
| step_kill_server:
    "rt_step P (rt, add_mset (Task_kill_server s) T) (kill_server s rt, T)"
| step_delete:
    "delete_pod P name rt = (r, rt') \<Longrightarrow> rt_step P (rt, T) (rt', T)"

inductive reachable :: "'m pod_map_lib \<Rightarrow> 'm configuration \<Rightarrow> bool" for P where
  reachable_new: "reachable P (WorkRuntime_new P, {#})"
| reachable_step: "reachable P c \<Longrightarrow> rt_step P c d \<Longrightarrow> reachable P d"

section \<open>The invariant\<close>

text \<open>
  Over the view \<open>M\<close> of the pod map, the handles \<open>C\<close> below \<open>nc\<close>, the live servers \<open>S\<close> below \<open>ns\<close>, the next pod
  ID and the tasks.
\<close>

definition taking :: "task multiset \<Rightarrow> cell_ref \<Rightarrow> bool" where
  "taking T c \<longleftrightarrow> Task_stop c \<in># T \<or> Task_kill c \<in># T"

definition pod_ok ::
    "(cell_ref \<Rightarrow> server_ref option) \<Rightarrow> nat \<Rightarrow> (server_ref \<Rightarrow> ip_addr option) \<Rightarrow> pod_id \<Rightarrow> task multiset \<Rightarrow> pod_id \<Rightarrow> pod \<Rightarrow> bool" where
  "pod_ok C nc S next T k p \<longleftrightarrow>
     k < next \<and> pod_killer p < nc \<and> container_finished_at p = 0
     \<and> (pod_state p = Running \<longrightarrow> C (pod_killer p) \<noteq> None \<and> \<not> taking T (pod_killer p))
     \<and> (pod_state p = Killed \<longrightarrow> C (pod_killer p) \<noteq> None \<longrightarrow> taking T (pod_killer p))
     \<and> (\<forall>s. C (pod_killer p) = Some s \<longrightarrow> S s = Some (addr p))"

definition cells_ok ::
    "(cell_ref \<Rightarrow> server_ref option) \<Rightarrow> nat \<Rightarrow> (server_ref \<Rightarrow> ip_addr option) \<Rightarrow> nat \<Rightarrow> bool" where
  "cells_ok C nc S ns \<longleftrightarrow>
     (\<forall>c s. C c = Some s \<longrightarrow> c < nc \<and> s < ns \<and> S s \<noteq> None \<and> (\<forall>c'. C c' = Some s \<longrightarrow> c' = c))
     \<and> (\<forall>s. S s \<noteq> None \<longrightarrow> s < ns)"

definition task_ok ::
    "(pod_id \<Rightarrow> pod option) \<Rightarrow> (cell_ref \<Rightarrow> server_ref option) \<Rightarrow> nat \<Rightarrow> nat \<Rightarrow> pod_id \<Rightarrow> task \<Rightarrow> bool" where
  "task_ok M C nc ns next t =
     (case t of
        Task_init k \<Rightarrow> k < next \<and> M k = None
      | Task_start name p \<Rightarrow>
          pn_pod name < next \<and> container_finished_at p = 0 \<and> (\<forall>q. M (pn_pod name) = Some q \<longrightarrow> addr q = addr p)
      | Task_stop c \<Rightarrow> c < nc
      | Task_kill c \<Rightarrow> c < nc
      | Task_kill_server s \<Rightarrow> s < ns \<and> (\<forall>c. C c \<noteq> Some s))"

text \<open>A new ID belongs to one task only, and no task has claimed the pod yet.\<close>

definition ids_ok :: "task multiset \<Rightarrow> bool" where
  "ids_ok T \<longleftrightarrow> (\<forall>k. Task_init k \<in># T \<longrightarrow> count T (Task_init k) = 1 \<and> (\<forall>name p. Task_start name p \<in># T \<longrightarrow> pn_pod name \<noteq> k))"

definition killers_distinct :: "(pod_id \<Rightarrow> pod option) \<Rightarrow> bool" where
  "killers_distinct M \<longleftrightarrow> (\<forall>k k' p p'. M k = Some p \<longrightarrow> M k' = Some p' \<longrightarrow> pod_killer p = pod_killer p' \<longrightarrow> k = k')"

text \<open>Every live server is owned: by a pod of the map, by a task about to take its killer, or by the task shutting it down.\<close>

definition servers_owned ::
    "(pod_id \<Rightarrow> pod option) \<Rightarrow> (cell_ref \<Rightarrow> server_ref option) \<Rightarrow> (server_ref \<Rightarrow> ip_addr option) \<Rightarrow> task multiset \<Rightarrow> bool" where
  "servers_owned M C S T \<longleftrightarrow>
     (\<forall>s. S s \<noteq> None \<longrightarrow>
        (\<exists>k p. M k = Some p \<and> C (pod_killer p) = Some s) \<or> (\<exists>c. taking T c \<and> C c = Some s) \<or> Task_kill_server s \<in># T)"

definition view_ok where
  "view_ok M C nc S ns next T \<longleftrightarrow>
     (\<forall>k p. M k = Some p \<longrightarrow> pod_ok C nc S next T k p) \<and> cells_ok C nc S ns \<and> (\<forall>t \<in># T. task_ok M C nc ns next t)
     \<and> ids_ok T \<and> killers_distinct M \<and> servers_owned M C S T"

definition rt_ok :: "'m pod_map_lib \<Rightarrow> 'm configuration \<Rightarrow> bool" where
  "rt_ok P c \<longleftrightarrow>
     (case c of (rt, T) \<Rightarrow>
        view_ok (pm_get P (rt_pods rt)) (rt_cells rt) (rt_next_cell rt) (rt_servers rt) (rt_next_server rt)
          (rt_next_pod_id rt) T)"

lemma taking_add_mset:
  "taking (add_mset t T) c \<longleftrightarrow> t = Task_stop c \<or> t = Task_kill c \<or> taking T c"
  by (auto simp: taking_def)

lemma view_okI:
  "(\<And>k p. M k = Some p \<Longrightarrow> pod_ok C nc S next T k p) \<Longrightarrow> cells_ok C nc S ns \<Longrightarrow> (\<And>t. t \<in># T \<Longrightarrow> task_ok M C nc ns next t)
     \<Longrightarrow> ids_ok T \<Longrightarrow> killers_distinct M \<Longrightarrow> servers_owned M C S T \<Longrightarrow> view_ok M C nc S ns next T"
  by (simp add: view_ok_def)

lemma view_okD:
  assumes "view_ok M C nc S ns next T"
  shows "M k = Some p \<Longrightarrow> pod_ok C nc S next T k p" "cells_ok C nc S ns" "t \<in># T \<Longrightarrow> task_ok M C nc ns next t"
    "ids_ok T" "killers_distinct M" "servers_owned M C S T"
  using assms by (simp_all add: view_ok_def)

lemma task_ok_update:
  "task_ok M C nc ns next t \<Longrightarrow> M k = Some p \<Longrightarrow> pod_ip_address q = pod_ip_address p \<Longrightarrow> task_ok (M(k \<mapsto> q)) C nc ns next t"
  by (auto simp: task_ok_def addr_def split: task.splits)

lemma killers_distinct_update:
  "killers_distinct M \<Longrightarrow> M k = Some p \<Longrightarrow> pod_killer q = pod_killer p \<Longrightarrow> killers_distinct (M(k \<mapsto> q))"
  by (simp add: killers_distinct_def) metis

lemma killers_distinctD: "killers_distinct M \<Longrightarrow> M k = Some p \<Longrightarrow> M k' = Some p' \<Longrightarrow> pod_killer p = pod_killer p' \<Longrightarrow> k = k'"
  by (auto simp: killers_distinct_def)

lemma servers_ownedE:
  assumes "servers_owned M C S T" "S s \<noteq> None"
  obtains (pod) k p where "M k = Some p" "C (pod_killer p) = Some s"
    | (task) c where "taking T c" "C c = Some s" | (kill) "Task_kill_server s \<in># T"
  using assms by (auto simp: servers_owned_def)

lemma servers_ownedI:
  assumes "\<And>s. S s \<noteq> None \<Longrightarrow> (\<exists>k p. M k = Some p \<and> C (pod_killer p) = Some s) \<or> (\<exists>c. taking T c \<and> C c = Some s) \<or> Task_kill_server s \<in># T"
  shows "servers_owned M C S T"
  using assms by (auto simp: servers_owned_def)

lemma servers_owned_change:
  assumes owned: "servers_owned M C S T"
    and pods: "\<And>k p s. M k = Some p \<Longrightarrow> C (pod_killer p) = Some s \<Longrightarrow> \<exists>k' p'. M' k' = Some p' \<and> pod_killer p' = pod_killer p"
    and tasks: "T \<subseteq># T'"
  shows "servers_owned M' C S T'"
proof (rule servers_ownedI)
  fix s
  assume "S s \<noteq> None"
  with owned show "(\<exists>k p. M' k = Some p \<and> C (pod_killer p) = Some s) \<or> (\<exists>c. taking T' c \<and> C c = Some s) \<or> Task_kill_server s \<in># T'"
  proof (cases rule: servers_ownedE)
    case (pod k p)
    from pods [OF this] pod(2) show ?thesis by metis
  next
    case (task c)
    with tasks show ?thesis by (auto simp: taking_def dest: mset_subset_eqD)
  next
    case kill
    with tasks show ?thesis by (auto dest: mset_subset_eqD)
  qed
qed

lemma servers_owned_update:
  assumes "servers_owned M C S T" "M k = Some p" "pod_killer q = pod_killer p" "T \<subseteq># T'"
  shows "servers_owned (M(k \<mapsto> q)) C S T'"
proof (rule servers_owned_change [OF assms(1) _ assms(4)])
  fix k' p' s
  assume "M k' = Some p'"
  then show "\<exists>k'' p''. (M(k \<mapsto> q)) k'' = Some p'' \<and> pod_killer p'' = pod_killer p'"
    using assms(2,3) by (cases "k' = k") (auto intro: exI [of _ k] exI [of _ k'])
qed

lemma view_gentle:
  assumes "view_ok M C nc S ns next T" "M k = Some p" "gentle p q"
  shows "view_ok (M(k \<mapsto> q)) C nc S ns next T"
proof (rule view_okI)
  fix k' p'
  assume "(M(k \<mapsto> q)) k' = Some p'"
  then show "pod_ok C nc S next T k' p'"
    using view_okD(1) [OF assms(1)] assms(2,3)
    by (cases "k' = k") (auto simp: gentle_def pod_ok_def addr_def)
qed (use view_okD [OF assms(1)] assms(2,3) in
      \<open>auto simp: gentle_def intro: task_ok_update killers_distinct_update servers_owned_update\<close>)

lemma view_pod_id:
  assumes "view_ok M C nc S ns next T" "next \<noteq> - 1"
  shows "view_ok M C nc S ns (next + 1) (add_mset (Task_init next) T)"
proof -
  have less: "k < next \<Longrightarrow> k < next + 1" "next < next + 1" for k
    using assms(2) unatSuc [of "next"] by (auto simp: word_less_nat_alt add.commute minus_equation_iff eq_commute [of "- 1"] add_eq_0_iff)
  have fresh: "M next = None" "Task_init next \<notin># T" "\<And>n p. Task_start n p \<in># T \<Longrightarrow> pn_pod n \<noteq> next"
    using view_okD(1) [OF assms(1), of "next"] view_okD(3) [OF assms(1), of "Task_init next"]
      view_okD(3) [OF assms(1), of "Task_start n p" for n p]
    by (auto simp: pod_ok_def task_ok_def dest: less_imp_neq) (cases "M next"; simp)
  show ?thesis
  proof (rule view_okI)
    show "task_ok M C nc ns (next + 1) t" if "t \<in># add_mset (Task_init next) T" for t
      using that view_okD(3) [OF assms(1), of t] less fresh by (auto simp: task_ok_def split: task.splits)
    show "pod_ok C nc S (next + 1) (add_mset (Task_init next) T) k p" if "M k = Some p" for k p
      using view_okD(1) [OF assms(1) that] less by (auto simp: pod_ok_def taking_add_mset)
    show "ids_ok (add_mset (Task_init next) T)"
      using view_okD(4) [OF assms(1)] fresh by (auto simp: ids_ok_def not_in_iff)
    show "servers_owned M C S (add_mset (Task_init next) T)"
      using view_okD(6) [OF assms(1)] by (simp add: servers_owned_def taking_add_mset)
  qed (use view_okD [OF assms(1)] in auto)
qed

lemma ids_ok_drop:
  assumes "ids_ok (add_mset t T)"
  shows "ids_ok T"
  unfolding ids_ok_def
proof (intro allI impI)
  fix k
  assume k: "Task_init k \<in># T"
  with assms have "count (add_mset t T) (Task_init k) = 1" "\<forall>name p. Task_start name p \<in># add_mset t T \<longrightarrow> pn_pod name \<noteq> k"
    unfolding ids_ok_def by auto
  with k show "count T (Task_init k) = 1 \<and> (\<forall>name p. Task_start name p \<in># T \<longrightarrow> pn_pod name \<noteq> k)"
    by (auto simp flip: count_greater_zero_iff split: if_splits)
qed

lemma view_drop:
  assumes "view_ok M C nc S ns next (add_mset t T)" "\<And>c. t \<noteq> Task_stop c" "\<And>c. t \<noteq> Task_kill c" "\<And>s. t \<noteq> Task_kill_server s"
  shows "view_ok M C nc S ns next T"
proof (rule view_okI)
  show "servers_owned M C S T"
    using view_okD(6) [OF assms(1)] assms(2-) [symmetric] assms(2-) by (simp add: servers_owned_def taking_add_mset)
  show "pod_ok C nc S next T k p" if "M k = Some p" for k p
    using view_okD(1) [OF assms(1) that] assms(2-) by (simp add: pod_ok_def taking_add_mset)
qed (use view_okD [OF assms(1)] in \<open>auto intro: ids_ok_drop\<close>)

lemma cells_okD:
  assumes "cells_ok C nc S ns"
  shows "C c = Some s \<Longrightarrow> c < nc" "C c = Some s \<Longrightarrow> s < ns" "C c = Some s \<Longrightarrow> S s \<noteq> None"
    "C c = Some s \<Longrightarrow> C c' = Some s \<Longrightarrow> c' = c" "S s \<noteq> None \<Longrightarrow> s < ns"
  using assms by (auto simp: cells_ok_def)

lemma cells_okI:
  assumes "\<And>c s. C c = Some s \<Longrightarrow> c < nc \<and> s < ns \<and> S s \<noteq> None" "\<And>c c' s. C c = Some s \<Longrightarrow> C c' = Some s \<Longrightarrow> c' = c"
    "\<And>s. S s \<noteq> None \<Longrightarrow> s < ns"
  shows "cells_ok C nc S ns"
  using assms by (auto simp: cells_ok_def)

lemma cells_fresh:
  assumes "cells_ok C nc S ns"
  shows "C nc = None" "S ns = None"
proof -
  show "C nc = None" using cells_okD(1) [OF assms, of nc] by (cases "C nc") auto
  show "S ns = None" using cells_okD(5) [OF assms, of ns] by (cases "S ns") auto
qed

lemma cells_ok_bind:
  assumes "cells_ok C nc S ns"
  shows "cells_ok (C(nc := Some ns)) (nc + 1) (S(ns := Some a)) (ns + 1)"
proof (rule cells_okI)
  show "c' = c" if "(C(nc := Some ns)) c = Some s" "(C(nc := Some ns)) c' = Some s" for c c' s
    using that cells_okD(2,4) [OF assms] by (auto split: if_splits)
  show "s < ns + 1" if "(S(ns := Some a)) s \<noteq> None" for s
    using that cells_okD(5) [OF assms, of s] by (auto split: if_splits)
qed (auto split: if_splits dest: cells_okD [OF assms])

lemma cells_ok_grow: "cells_ok C nc S ns \<Longrightarrow> cells_ok C (nc + 1) S ns" "cells_ok C nc S ns \<Longrightarrow> cells_ok C nc S (ns + 1)"
  by (auto simp: cells_ok_def less_Suc_eq)

lemma cells_ok_take: "cells_ok C nc S ns \<Longrightarrow> cells_ok (C(c := None)) nc S ns"
  by (auto simp: cells_ok_def)

lemma cells_ok_kill: "cells_ok C nc S ns \<Longrightarrow> (\<And>c. C c \<noteq> Some s) \<Longrightarrow> cells_ok C nc (S(s := None)) ns"
  by (auto simp: cells_ok_def)

lemma task_ok_bind:
  assumes "task_ok M C nc ns next t" "M k = Some q" "addr r = addr q"
  shows "task_ok (M(k \<mapsto> r)) (C(nc := Some ns)) (nc + 1) (ns + 1) next t"
  using assms by (auto simp: task_ok_def split: task.splits)

lemma servers_owned_bind:
  assumes "servers_owned M C S T" "M k = Some q" "C (pod_killer q) = None" "pod_killer r = nc" "C nc = None"
  shows "servers_owned (M(k \<mapsto> r)) (C(nc := Some ns)) (S(ns := Some a)) T"
proof (rule servers_ownedI)
  fix s
  assume s: "(S(ns := Some a)) s \<noteq> None"
  show "(\<exists>k' p'. (M(k \<mapsto> r)) k' = Some p' \<and> (C(nc := Some ns)) (pod_killer p') = Some s)
      \<or> (\<exists>c. taking T c \<and> (C(nc := Some ns)) c = Some s) \<or> Task_kill_server s \<in># T"
  proof (cases "s = ns")
    case True
    then show ?thesis using assms(4) by (auto intro: exI [of _ k])
  next
    case False
    with s have "S s \<noteq> None" by simp
    with assms(1) show ?thesis
    proof (cases rule: servers_ownedE)
      case (pod k' p')
      then have "k' \<noteq> k" "pod_killer p' \<noteq> nc" using assms by auto
      with pod show ?thesis by (auto intro: exI [of _ k'])
    next
      case (task c)
      then have "c \<noteq> nc" using assms(5) by auto
      with task show ?thesis by auto
    qed simp
  qed
qed

lemma killer_fresh: "view_ok M C nc S ns next T \<Longrightarrow> M k = Some p \<Longrightarrow> pod_killer p < nc"
  by (auto simp: view_ok_def pod_ok_def)

lemma killers_distinct_fresh:
  "killers_distinct M \<Longrightarrow> (\<And>k p. M k = Some p \<Longrightarrow> pod_killer p < nc) \<Longrightarrow> pod_killer q = nc \<Longrightarrow> killers_distinct (M(k \<mapsto> q))"
  by (simp add: killers_distinct_def) (metis less_irrefl)

lemma view_inserted:
  assumes "view_ok M C nc S ns next (add_mset (Task_init k) T)"
    and q: "pod_killer q = nc" "pod_state q = Initiated" "container_finished_at q = 0"
  shows "view_ok (M(k \<mapsto> q)) (C(nc := None)) (nc + 1) S ns next T"
proof -
  have M: "M k = None" "k < next"
    using view_okD(3) [OF assms(1), of "Task_init k"] by (auto simp: task_ok_def)
  have T: "Task_init k \<notin># T" "\<And>n p. Task_start n p \<in># T \<Longrightarrow> pn_pod n \<noteq> k"
    using view_okD(4) [OF assms(1)] by (auto simp: ids_ok_def count_eq_zero_iff)
  note old = view_drop [OF assms(1), simplified]
  have cells: "cells_ok C (nc + 1) S ns" "C nc = None"
    using view_okD(2) [OF old] by (rule cells_ok_grow cells_fresh)+
  then have C: "C(nc := None) = C" by auto
  show ?thesis
    unfolding C
  proof (rule view_okI)
    show "pod_ok C (nc + 1) S next T k' p" if "(M(k \<mapsto> q)) k' = Some p" for k' p
      using that view_okD(1) [OF old, of k' p] q M cells(2) by (cases "k' = k") (auto simp: pod_ok_def)
    show "task_ok (M(k \<mapsto> q)) C (nc + 1) ns next t" if "t \<in># T" for t
      using that view_okD(3) [OF old that] T by (auto simp: task_ok_def split: task.splits)
    show "killers_distinct (M(k \<mapsto> q))"
      using view_okD(5) [OF old] killer_fresh [OF old] q(1) by (rule killers_distinct_fresh)
    show "servers_owned (M(k \<mapsto> q)) C S T"
      using view_okD(6) [OF old]
    proof (rule servers_owned_change)
      show "\<exists>k'' p''. (M(k \<mapsto> q)) k'' = Some p'' \<and> pod_killer p'' = pod_killer p'" if "M k' = Some p'" for k' p'
        using that M(1) by (intro exI [of _ k']) auto
    qed auto
  qed (use view_okD [OF old] cells in auto)
qed

lemma view_claimed:
  assumes "view_ok M C nc S ns next T" "M (pn_pod name) = Some p"
  shows "view_ok M C nc S ns next (add_mset (Task_start name p) T)"
proof (rule view_okI)
  note old = view_okD [OF assms(1)]
  show "pod_ok C nc S next (add_mset (Task_start name p) T) k q" if "M k = Some q" for k q
    using old(1) [OF that] by (simp add: pod_ok_def taking_add_mset)
  show "task_ok M C nc ns next t" if "t \<in># add_mset (Task_start name p) T" for t
    using that old(3) [of t] old(1) [OF assms(2)] assms(2) by (auto simp: task_ok_def pod_ok_def)
  show "ids_ok (add_mset (Task_start name p) T)"
    using old(4) old(3) [of "Task_init (pn_pod name)"] assms(2) by (auto simp: ids_ok_def task_ok_def)
  show "servers_owned M C S (add_mset (Task_start name p) T)"
    using old(6) by (simp add: servers_owned_def taking_add_mset)
qed (use view_okD [OF assms(1)] in auto)

text \<open>A successful bind: the address was free, so the handle the pod had before is empty.\<close>

lemma view_bound:
  assumes "view_ok M C nc S ns next (add_mset (Task_start name p) T)" "M (pn_pod name) = Some q"
    and free: "\<And>s. S s \<noteq> Some (addr p)"
    and r: "pod_state r = Running" "pod_killer r = nc" "addr r = addr p" "container_finished_at r = container_finished_at p"
  shows "view_ok (M(pn_pod name \<mapsto> r)) (C(nc := Some ns)) (nc + 1) (S(ns := Some (addr p))) (ns + 1) next T"
proof -
  note old = view_drop [OF assms(1), simplified]
  note fresh = cells_fresh [OF view_okD(2) [OF old]]
  have start: "container_finished_at p = 0" "addr q = addr p" "pn_pod name < next"
    using view_okD(3) [OF assms(1), of "Task_start name p"] assms(2) by (auto simp: task_ok_def)
  have empty: "C (pod_killer q) = None"
    using view_okD(1) [OF old assms(2)] free start(2) by (cases "C (pod_killer q)") (auto simp: pod_ok_def)
  have untaken: "\<not> taking T nc"
    using view_okD(3) [OF old, of "Task_stop nc"] view_okD(3) [OF old, of "Task_kill nc"] by (auto simp: taking_def task_ok_def)
  have below: "s < ns" "c < nc" if "C c = Some s" for c s
    using view_okD(2) [OF old] that by (auto simp: cells_ok_def)
  show ?thesis
  proof (rule view_okI)
    show "pod_ok (C(nc := Some ns)) (nc + 1) (S(ns := Some (addr p))) next T k p'" if "(M(pn_pod name \<mapsto> r)) k = Some p'" for k p'
    proof (cases "k = pn_pod name")
      case True
      then show ?thesis using that r start untaken by (auto simp: pod_ok_def)
    next
      case False
      with that have "M k = Some p'" by simp
      from view_okD(1) [OF old this] killer_fresh [OF old this] show ?thesis
        by (auto simp: pod_ok_def dest: below)
    qed
    show "cells_ok (C(nc := Some ns)) (nc + 1) (S(ns := Some (addr p))) (ns + 1)"
      using view_okD(2) [OF old] by (rule cells_ok_bind)
    show "task_ok (M(pn_pod name \<mapsto> r)) (C(nc := Some ns)) (nc + 1) (ns + 1) next t" if "t \<in># T" for t
      using view_okD(3) [OF old that] assms(2) by (rule task_ok_bind) (simp add: r start)
    show "killers_distinct (M(pn_pod name \<mapsto> r))"
      using view_okD(5) [OF old] killer_fresh [OF old] r(2) by (rule killers_distinct_fresh)
    show "servers_owned (M(pn_pod name \<mapsto> r)) (C(nc := Some ns)) (S(ns := Some (addr p))) T"
      using view_okD(6) [OF old] assms(2) empty r(2) fresh(1) by (rule servers_owned_bind)
  qed (use view_okD [OF old] in auto)
qed

text \<open>A bind whose pod was stopped, killed or deleted meanwhile: the new handle and server are gone again.\<close>

lemma view_aborted:
  assumes "view_ok M C nc S ns next T"
  shows "view_ok M (C(nc := None)) (nc + 1) (S(ns := None)) (ns + 1) next T"
proof -
  note old = view_okD [OF assms]
  have same: "C(nc := None) = C" "S(ns := None) = S" using cells_fresh [OF old(2)] by auto
  show ?thesis
    unfolding same
  proof (rule view_okI)
    show "pod_ok C (nc + 1) S next T k p" if "M k = Some p" for k p
      using old(1) [OF that] by (auto simp: pod_ok_def)
    show "task_ok M C (nc + 1) (ns + 1) next t" if "t \<in># T" for t
      using old(3) [OF that] by (auto simp: task_ok_def split: task.splits)
    show "cells_ok C (nc + 1) S (ns + 1)" using old(2) by (intro cells_ok_grow)
  qed (use old in auto)
qed

lemma view_stopping:
  assumes "view_ok M C nc S ns next T" "M k = Some p" "pod_state p \<noteq> Running"
  shows "view_ok M C nc S ns next (add_mset (Task_stop (pod_killer p)) T)"
proof (rule view_okI)
  note old = view_okD [OF assms(1)]
  show "pod_ok C nc S next (add_mset (Task_stop (pod_killer p)) T) k' q" if "M k' = Some q" for k' q
  proof -
    have "pod_killer p \<noteq> pod_killer q" if "pod_state q = Running"
      using killers_distinctD [OF old(5) assms(2) \<open>M k' = Some q\<close>] assms(2,3) \<open>M k' = Some q\<close> that by fastforce
    with old(1) [OF that] show ?thesis by (auto simp: pod_ok_def taking_add_mset)
  qed
  show "task_ok M C nc ns next t" if "t \<in># add_mset (Task_stop (pod_killer p)) T" for t
    using that old(3) killer_fresh [OF assms(1,2)] by (auto simp: task_ok_def)
  show "ids_ok (add_mset (Task_stop (pod_killer p)) T)" using old(4) by (auto simp: ids_ok_def)
  show "servers_owned M C S (add_mset (Task_stop (pod_killer p)) T)"
    using old(6) by (auto simp: servers_owned_def taking_add_mset)
qed (use view_okD [OF assms(1)] in auto)

lemma view_killing:
  assumes "view_ok M C nc S ns next T" "M k = Some p"
    and q: "q = p\<lparr>pod_state := Killed\<rparr>"
  shows "view_ok (M(k \<mapsto> q)) C nc S ns next (add_mset (Task_kill (pod_killer p)) T)"
proof (rule view_okI)
  note old = view_okD [OF assms(1)]
  show "pod_ok C nc S next (add_mset (Task_kill (pod_killer p)) T) k' p'" if "(M(k \<mapsto> q)) k' = Some p'" for k' p'
  proof (cases "k' = k")
    case True
    then have "p' = p\<lparr>pod_state := Killed\<rparr>" using that q by simp
    with old(1) [OF assms(2)] True show ?thesis by (simp add: pod_ok_def taking_add_mset addr_def)
  next
    case False
    with that have "M k' = Some p'" by simp
    moreover from this False have "pod_killer p \<noteq> pod_killer p'"
      using killers_distinctD [OF old(5) assms(2), of k' p'] by blast
    ultimately show ?thesis using old(1) [of k' p'] by (simp add: pod_ok_def taking_add_mset)
  qed
  show "task_ok (M(k \<mapsto> q)) C nc ns next t" if "t \<in># add_mset (Task_kill (pod_killer p)) T" for t
    using that old(3) [of t] killer_fresh [OF assms(1,2)] q assms(2)
    by (auto simp: task_ok_def [of _ _ _ _ _ "Task_kill c" for c] intro: task_ok_update)
  show "ids_ok (add_mset (Task_kill (pod_killer p)) T)" using old(4) by (auto simp: ids_ok_def)
  show "servers_owned (M(k \<mapsto> q)) C S (add_mset (Task_kill (pod_killer p)) T)"
    by (rule servers_owned_update [OF old(6) assms(2)]) (simp_all add: q)
  show "killers_distinct (M(k \<mapsto> q))" by (rule killers_distinct_update [OF old(5) assms(2)]) (simp add: q)
qed (use view_okD [OF assms(1)] in auto)

lemma taking_other: "t = Task_stop c \<or> t = Task_kill c \<Longrightarrow> taking (add_mset t T) c' \<longleftrightarrow> c' = c \<or> taking T c'"
  by (auto simp: taking_add_mset)

text \<open>A task takes a killer out of its handle and goes on to shut the server down.\<close>

lemma view_take:
  assumes "view_ok M C nc S ns next (add_mset t T)" and t: "t = Task_stop c \<or> t = Task_kill c"
  shows "view_ok M (C(c := None)) nc S ns next (case C c of Some s \<Rightarrow> add_mset (Task_kill_server s) T | None \<Rightarrow> T)"
    (is "view_ok M ?C nc S ns next ?T")
proof (rule view_okI)
  note old = view_okD [OF assms(1)]
  have taking: "taking ?T c' \<longleftrightarrow> taking T c'" for c' by (auto simp: taking_add_mset split: option.splits)
  show "pod_ok ?C nc S next ?T k p" if "M k = Some p" for k p
    using old(1) [OF that] by (auto simp: pod_ok_def taking taking_other [OF t])
  show "task_ok M ?C nc ns next u" if "u \<in># ?T" for u
  proof -
    from that consider "u \<in># T" | s where "u = Task_kill_server s" "C c = Some s" by (auto split: option.splits)
    then show ?thesis
    proof cases
      case 1
      with old(3) [of u] show ?thesis by (auto simp: task_ok_def split: task.splits)
    next
      case 2
      with cells_okD(2,4) [OF old(2)] show ?thesis by (auto simp: task_ok_def)
    qed
  qed
  show "ids_ok ?T"
    using ids_ok_drop [OF old(4)] by (auto simp: ids_ok_def split: option.splits)
  show "servers_owned M ?C S ?T"
  proof (rule servers_ownedI)
    fix s
    assume "S s \<noteq> None"
    with old(6) show "(\<exists>k p. M k = Some p \<and> ?C (pod_killer p) = Some s) \<or> (\<exists>c. taking ?T c \<and> ?C c = Some s) \<or> Task_kill_server s \<in># ?T"
    proof (cases rule: servers_ownedE)
      case (pod k p)
      then show ?thesis by (cases "pod_killer p = c") auto
    next
      case (task c')
      then show ?thesis using t by (cases "c' = c") (auto simp: taking taking_other [OF t])
    next
      case kill
      with t show ?thesis by (auto split: option.splits)
    qed
  qed
qed (use view_okD [OF assms(1)] cells_ok_take in auto)

lemma view_killed_server:
  assumes "view_ok M C nc S ns next (add_mset (Task_kill_server s) T)"
  shows "view_ok M C nc (S(s := None)) ns next T"
proof (rule view_okI)
  note old = view_okD [OF assms]
  have free: "C c \<noteq> Some s" for c using old(3) [of "Task_kill_server s"] by (auto simp: task_ok_def)
  show "pod_ok C nc (S(s := None)) next T k p" if "M k = Some p" for k p
    using old(1) [OF that] free by (auto simp: pod_ok_def taking_add_mset)
  show "cells_ok C nc (S(s := None)) ns" using old(2) free by (rule cells_ok_kill)
  show "servers_owned M C (S(s := None)) T"
    using old(6) by (auto simp: servers_owned_def taking_add_mset)
  show "ids_ok T" using old(4) by (rule ids_ok_drop)
qed (use view_okD [OF assms] in auto)

lemma view_deleted:
  assumes "view_ok M C nc S ns next T" "M k = Some p" "pod_state p = Killed"
  shows "view_ok (M(k := None)) C nc S ns next T"
proof (rule view_okI)
  note old = view_okD [OF assms(1)]
  show "task_ok (M(k := None)) C nc ns next t" if "t \<in># T" for t
    using old(3) [OF that] by (auto simp: task_ok_def split: task.splits)
  show "killers_distinct (M(k := None))" using old(5) by (auto simp: killers_distinct_def)
  show "servers_owned (M(k := None)) C S T"
  proof (rule servers_ownedI)
    fix s
    assume "S s \<noteq> None"
    with old(6) show "(\<exists>k' p'. (M(k := None)) k' = Some p' \<and> C (pod_killer p') = Some s) \<or> (\<exists>c. taking T c \<and> C c = Some s) \<or> Task_kill_server s \<in># T"
    proof (cases rule: servers_ownedE)
      case (pod k' p')
      show ?thesis
      proof (cases "k' = k")
        case True
        with pod assms(2,3) old(1) [OF assms(2)] show ?thesis by (auto simp: pod_ok_def)
      next
        case False
        with pod show ?thesis by (auto intro!: exI [of _ k'])
      qed
    qed auto
  qed
qed (use view_okD [OF assms(1)] in \<open>auto split: if_splits\<close>)

lemma rt_ok_gentle: "rt_ok P (rt, T) \<Longrightarrow> gentle_change P rt rt' \<Longrightarrow> rt_ok P (rt', T)"
  by (auto simp: rt_ok_def gentle_change_def same_heap_def intro: view_gentle)

lemma view_start: "view_ok Map.empty C 0 (\<lambda>_. None) 0 0 {#} \<longleftrightarrow> C = (\<lambda>_. None)"
  by (auto simp: view_ok_def cells_ok_def ids_ok_def killers_distinct_def servers_owned_def)

context pod_map
begin

lemma rt_ok_new: "rt_ok P (WorkRuntime_new P, {#})"
proof -
  have "pm_get P (pm_new P) = Map.empty" by (auto simp: get_new)
  then show ?thesis by (simp add: rt_ok_def WorkRuntime_new_def view_start)
qed

lemma rt_ok_bind:
  assumes "rt_ok P (rt, add_mset (Task_start name p) T)" "\<And>s. rt_servers rt s \<noteq> Some (addr p)"
    and "start_finalize P name p t rt = (r, rt')"
  shows "rt_ok P (rt', T)"
proof -
  let ?view = "\<lambda>rt T. view_ok (pm_get P (rt_pods rt)) (rt_cells rt) (rt_next_cell rt) (rt_servers rt) (rt_next_server rt) (rt_next_pod_id rt) T"
  from assms(1) have old: "?view rt (add_mset (Task_start name p) T)" by (simp add: rt_ok_def)
  from finalize_effect(1) [OF assms(3)] have "?view rt' T"
  proof (elim disjE exE conjE)
    fix q
    assume q: "pm_get P (rt_pods rt) (pn_pod name) = Some q"
      and rt': "pm_get P (rt_pods rt') = (pm_get P (rt_pods rt))(pn_pod name \<mapsto>
            p\<lparr>pod_state := Running, pod_killer := rt_next_cell rt, container_started_at := t\<rparr>)"
        "rt_cells rt' = (rt_cells rt)(rt_next_cell rt := Some (rt_next_server rt))"
        "rt_servers rt' = (rt_servers rt)(rt_next_server rt := Some (addr p))"
    show "?view rt' T"
      unfolding rt' finalize_effect(2-4) [OF assms(3)]
      by (rule view_bound [OF old q assms(2)]) (simp_all add: addr_def)
  next
    assume rt': "pm_get P (rt_pods rt') = pm_get P (rt_pods rt)" "rt_cells rt' = (rt_cells rt)(rt_next_cell rt := None)"
      "rt_servers rt' = (rt_servers rt)(rt_next_server rt := None)"
    show "?view rt' T"
      unfolding rt' finalize_effect(2-4) [OF assms(3)] by (rule view_aborted, rule view_drop [OF old]) simp_all
  qed
  then show ?thesis by (simp add: rt_ok_def)
qed

lemma rt_ok_step:
  assumes "rt_step P c d" "rt_ok P c"
  shows "rt_ok P d"
  using assms
proof (induction rule: rt_step.induct)
  case (step_pod_id rt k rt' T)
  then show ?case by (auto simp: fetch_add_pod_id_def rt_ok_def intro: view_pod_id)
next
  case (step_no_address rt k T)
  then show ?case by (auto simp: rt_ok_def dest: view_drop)
next
  case (step_insert component meta labels annotations k ip t rt r rt' T)
  then have "pm_get P (rt_pods rt) k = None" by (auto simp: rt_ok_def view_ok_def task_ok_def)
  note effect = init_insert_effect [OF step_insert(1) this]
  from step_insert(2) show ?case
    unfolding rt_ok_def prod.case effect by (rule view_inserted) (simp_all add: initiated_pod_def)
next
  case (step_create name cmeta labels annotations env img t rt r rt' T)
  then show ?case by (blast intro: rt_ok_gentle create_gentle)
next
  case (step_future rt T f s)
  then show ?case by (simp add: complete_future_def rt_ok_def)
next
  case (step_claim name rt p routes rt' T)
  then have "rt_ok P (rt', T)" by (blast intro: rt_ok_gentle claim_gentle)
  with claim_claimed [OF step_claim(1)] show ?case by (auto simp: rt_ok_def intro: view_claimed)
next
  case (step_claim_other name rt r rt' T)
  then show ?case by (blast intro: rt_ok_gentle claim_gentle)
next
  case (step_bind_error name rt r rt' p T)
  then have "rt_ok P (rt, T)" by (auto simp: rt_ok_def dest: view_drop)
  with step_bind_error(1) show ?case by (blast intro: rt_ok_gentle bind_error_gentle)
next
  case (step_bind rt p name t r rt' T)
  then show ?case by (blast intro: rt_ok_bind)
next
  case (step_stop name rt c rt' T)
  then have ok: "rt_ok P (rt', T)" by (blast intro: rt_ok_gentle stop_gentle)
  from stop_take_cell [OF step_stop(1)] obtain p where p: "pod_killer p = c"
      "pm_get P (rt_pods rt') = (pm_get P (rt_pods rt))(pn_pod name \<mapsto> p\<lparr>pod_state := Stopped\<rparr>)" by blast
  then have "pm_get P (rt_pods rt') (pn_pod name) = Some (p\<lparr>pod_state := Stopped\<rparr>)" by simp
  with view_stopping [of "pm_get P (rt_pods rt')", where k = "pn_pod name" and p = "p\<lparr>pod_state := Stopped\<rparr>"] ok p(1)
  show ?case by (simp add: rt_ok_def)
next
  case (step_stop_other name rt r rt' T)
  then show ?case by (blast intro: rt_ok_gentle stop_gentle)
next
  case (step_stop_take c rt k rt' T)
  then show ?case by (auto simp: take_killer_def rt_ok_def intro: view_take)
next
  case (step_remove name rt r rt' T)
  then show ?case by (blast intro: rt_ok_gentle remove_gentle)
next
  case (step_kill name rt c ip rt' T)
  from kill_take_cell [OF step_kill(1)] obtain p where p: "pm_get P (rt_pods rt) (pn_pod name) = Some p" "pod_killer p = c"
      "pm_get P (rt_pods rt') = (pm_get P (rt_pods rt))(pn_pod name \<mapsto> p\<lparr>pod_state := Killed\<rparr>)" by blast
  from view_killing [of "pm_get P (rt_pods rt)", OF _ p(1) refl] step_kill(2) kill_heap [OF step_kill(1)] p(2,3) show ?case
    by (simp add: rt_ok_def same_heap_def)
next
  case (step_kill_other name rt r rt' T)
  then show ?case by (blast dest: kill_other)
next
  case (step_kill_take c rt k rt' T)
  then show ?case by (auto simp: take_killer_def rt_ok_def intro: view_take)
next
  case (step_kill_server rt s T)
  then show ?case by (auto simp: kill_server_def rt_ok_def intro: view_killed_server)
next
  case (step_delete name rt r rt' T)
  from delete_effect [OF step_delete(1)] step_delete(2) show ?case
    by (auto simp: rt_ok_def same_heap_def intro: view_deleted)
qed

theorem reachable_ok: "reachable P c \<Longrightarrow> rt_ok P c"
  by (induction rule: reachable.induct) (auto intro: rt_ok_new rt_ok_step)

end

end
