(* ===== verification/Pod_Claims.thy ===== *)
theory Pod_Claims
  imports Pod_Machine
begin

text \<open>
  What the pod state machine guarantees: of the reachable configurations of \<open>Pod_Machine\<close>, and of the operations
  of \<open>Pod_State\<close> run without interference. The concurrent map is an arbitrary one that satisfies \<open>pod_map\<close>;
  the witnesses run the association list.
\<close>

section \<open>Runs of whole calls\<close>

context pod_map
begin

lemma stop_running:
  assumes "pm_get P (rt_pods rt) (pn_pod name) = Some p" "pod_state p = Running" "rt_cells rt (pod_killer p) = Some s"
  shows "stop_container P name rt =
    (Inr (), rt\<lparr>rt_pods := pm_insert P (rt_pods rt) (pn_pod name) (p\<lparr>pod_state := Stopped\<rparr>),
                rt_cells := (rt_cells rt)(pod_killer p := None), rt_servers := (rt_servers rt)(s := None)\<rparr>)"
  using assms
  by (simp add: stop_container_def stop_container_without_wait_def stop_mark_def compute_def stop_closure_def
      take_killer_def kill_server_def)

lemma running_cell:
  assumes "reachable P (rt, T)" "pm_get P (rt_pods rt) k = Some p" "pod_state p = Running"
  obtains s where "rt_cells rt (pod_killer p) = Some s" "rt_servers rt s = Some (addr p)"
  using reachable_ok [OF assms(1)] assms(2,3) by (force simp: rt_ok_def view_ok_def pod_ok_def)

text \<open>A whole \<^verbatim>\<open>StopPodSandbox\<close> call, as steps.\<close>

lemma kill_pod_reachable:
  assumes "reachable P (rt, T)"
  shows "reachable P (snd (kill_pod P name deactivated deallocated rt), T)"
proof -
  obtain r rt1 where call: "kill_pod_without_wait P name rt = (r, rt1)" by fastforce
  show ?thesis
  proof (cases "\<exists>c ip. r = Inr (Some (c, ip))")
    case False
    then have "rt1 = rt" using kill_other [OF call] by blast
    with call False assms show ?thesis
      by (cases r) (auto simp: kill_pod_def split: option.splits)
  next
    case True
    then obtain c ip where r: "r = Inr (Some (c, ip))" by blast
    then have marked: "reachable P (rt1, add_mset (Task_kill c) T)"
      using reachable_step [OF assms] step_kill [of P name rt c ip rt1 T] call by simp
    obtain k rt2 where take: "take_killer c rt1 = (k, rt2)" by fastforce
    from reachable_step [OF marked step_kill_take [OF take]]
    have "reachable P (rt2, case k of Some s \<Rightarrow> add_mset (Task_kill_server s) T | None \<Rightarrow> T)" .
    then have "reachable P (case k of Some s \<Rightarrow> kill_server s rt2 | None \<Rightarrow> rt2, T)"
      by (cases k) (auto intro: reachable_step step_kill_server)
    with call r take show ?thesis
      by (cases k) (simp_all add: kill_pod_def Let_def split: sum.splits)
  qed
qed

lemma kill_pod_killed:
  "pm_get P (rt_pods (snd (kill_pod P name deactivated deallocated rt))) (pn_pod name) = Some q \<Longrightarrow> pod_state q = Killed"
  by (cases "pm_get P (rt_pods rt) (pn_pod name)")
    (auto simp: kill_pod_def kill_pod_without_wait_def compute_def kill_closure_def take_killer_def kill_server_def
      get_insert Let_def split: if_splits option.splits sum.splits)

lemma owner:
  assumes "reachable P (rt, T)" "rt_servers rt s = Some a"
  shows "(\<exists>k p. pm_get P (rt_pods rt) k = Some p \<and> pod_state p \<noteq> Killed \<and> rt_cells rt (pod_killer p) = Some s \<and> addr p = a)
    \<or> (\<exists>c. taking T c \<and> rt_cells rt c = Some s) \<or> Task_kill_server s \<in># T"
proof -
  from reachable_ok [OF assms(1)] have ok: "view_ok (pm_get P (rt_pods rt)) (rt_cells rt) (rt_next_cell rt) (rt_servers rt)
      (rt_next_server rt) (rt_next_pod_id rt) T" by (simp add: rt_ok_def)
  from assms(2) have "rt_servers rt s \<noteq> None" by simp
  with view_okD(6) [OF ok] show ?thesis
  proof (cases rule: servers_ownedE)
    case (pod k p)
    with view_okD(1) [OF ok pod(1)] assms(2) show ?thesis by (cases "pod_state p = Killed") (auto simp: pod_ok_def)
  qed auto
qed

lemma gentle_life_cycle:
  assumes "gentle_change P rt rt'" "pm_get P (rt_pods rt) k = Some p"
  shows "\<exists>q. pm_get P (rt_pods rt') k = Some q \<and> (pod_state q = pod_state p \<or> pod_transition (pod_state p) (pod_state q))"
  using assms by (auto simp: gentle_change_def gentle_def)

lemma killed_transition: "pod_transition s Killed \<longleftrightarrow> s \<noteq> Killed"
  by (cases s) auto

lemma step_life_cycle:
  assumes "rt_step P (rt, T) (rt', T')" "pm_get P (rt_pods rt) k = Some p"
  shows "case pm_get P (rt_pods rt') k of
      Some q \<Rightarrow> pod_state q = pod_state p \<or> pod_transition (pod_state p) (pod_state q)
    | None \<Rightarrow> pod_state p = Killed" (is ?life)
proof -
  have gentle: ?life if "gentle_change P rt rt'" using gentle_life_cycle [OF that assms(2)] by auto
  from assms(1) show ?life
  proof (cases rule: rt_step.cases)
    case (step_insert component meta labels annotations k' ip t r)
    show ?thesis
      using step_insert(2) assms(2)
      by (cases "pm_get P (rt_pods rt) k'") (auto simp: init_pod_insert_def SingleUse_default_def Let_def get_insert_upd)
  next
    case (step_bind p' name t r)
    from finalize_effect(1) [OF step_bind(3)] assms(2) show ?thesis by auto
  next
    case (step_kill name c ip)
    from kill_take_cell [OF step_kill(2)] assms(2) show ?thesis by (auto simp: killed_transition)
  next
    case (step_kill_other name r)
    with kill_other [OF step_kill_other(2)] assms(2) show ?thesis by simp
  next
    case (step_delete name r)
    from delete_effect [OF step_delete(2)] assms(2) show ?thesis by auto
  qed (use assms(2) in \<open>auto intro: gentle create_gentle claim_gentle bind_error_gentle stop_gentle remove_gentle
      simp: fetch_add_pod_id_def complete_future_def take_killer_def kill_server_def\<close>)
qed

lemma init_pod_reachable:
  assumes "reachable P (rt, T)" "rt_next_pod_id rt \<noteq> - 1"
  shows "reachable P (snd (init_pod P component meta labels annotations ip t rt), T)"
proof -
  let ?rt = "rt\<lparr>rt_next_pod_id := rt_next_pod_id rt + 1\<rparr>"
  have id: "reachable P (?rt, add_mset (Task_init (rt_next_pod_id rt)) T)"
    using reachable_step [OF assms(1) step_pod_id] assms(2) by (simp add: fetch_add_pod_id_def)
  show ?thesis
  proof (cases ip)
    case (Inl e)
    with reachable_step [OF id step_no_address] show ?thesis by (simp add: init_pod_def fetch_add_pod_id_def)
  next
    case (Inr a)
    have "reachable P (snd (init_pod_insert P component meta labels annotations (rt_next_pod_id rt) a t ?rt), T)"
      by (rule reachable_step [OF id step_insert]) (rule surjective_pairing)
    with Inr show ?thesis by (simp add: init_pod_def fetch_add_pod_id_def)
  qed
qed

lemma create_container_reachable:
  "reachable P (rt, T) \<Longrightarrow> reachable P (snd (create_container P name meta labels annotations env img t rt), T)"
  by (rule reachable_step, assumption, rule step_create) (rule surjective_pairing)

lemma start_container_reachable:
  assumes "reachable P (rt, T)" "bind \<Longrightarrow> \<forall>s. rt_servers rt s = None"
  shows "reachable P (snd (start_container_without_wait P name bind t rt), T)"
proof -
  obtain r rt1 where claim: "start_claim P name rt = (r, rt1)" by fastforce
  show ?thesis
  proof (cases r)
    case (Claimed p routes)
    have claimed: "reachable P (rt1, add_mset (Task_start name p) T)"
      using reachable_step [OF assms(1) step_claim] claim Claimed by blast
    have servers: "rt_servers rt1 = rt_servers rt"
      using claim_gentle [OF claim] by (simp add: gentle_change_def same_heap_def)
    show ?thesis
    proof (cases bind)
      case True
      have "reachable P (snd (start_finalize P name p t rt1), T)"
        by (rule reachable_step [OF claimed step_bind [OF _ surjective_pairing]]) (use assms(2) True servers in auto)
      with claim Claimed True show ?thesis by (simp add: start_container_without_wait_def)
    next
      case False
      have "reachable P (snd (start_bind_error P name rt1), T)"
        by (rule reachable_step [OF claimed step_bind_error]) (rule surjective_pairing)
      with claim Claimed False show ?thesis by (simp add: start_container_without_wait_def)
    qed
  next
    case (Claim_waiting f)
    then show ?thesis using reachable_step [OF assms(1) step_claim_other] claim
      by (simp add: start_container_without_wait_def)
  next
    case Claim_done
    then show ?thesis using reachable_step [OF assms(1) step_claim_other] claim
      by (simp add: start_container_without_wait_def)
  next
    case (Claim_error e)
    then show ?thesis using reachable_step [OF assms(1) step_claim_other] claim
      by (simp add: start_container_without_wait_def)
  qed
qed

end

section \<open>A sample run\<close>

definition sample_name :: pod_name where
  "sample_name = PodName_new sample_component 0"

definition sample_ip :: ip_address where
  "sample_ip = \<lparr>ia_address = V4 10 0 0 1, ia_prefix_length = 32, ia_pod_name = sample_name\<rparr>"

definition sample_sandbox :: pod_sandbox_metadata where
  "sample_sandbox = \<lparr>psm_name = ''pod'', psm_uid = ''u'', psm_namespace = ''default'', psm_attempt = 0\<rparr>"

definition sample_initiated :: "(pod_id \<times> pod) list runtime" where
  "sample_initiated =
     snd (init_pod alist_pods sample_component sample_sandbox Mapping.empty Mapping.empty (Inr sample_ip) 5
       (WorkRuntime_new alist_pods))"

definition sample_create :: "u32 \<Rightarrow> (pod_id \<times> pod) list runtime \<Rightarrow> (runtime_error + unit) \<times> (pod_id \<times> pod) list runtime" where
  "sample_create attempt rt =
     create_container alist_pods sample_name (Some \<lparr>cm_name = ''main'', cm_attempt = attempt\<rparr>) Mapping.empty Mapping.empty
       Mapping.empty None 6 rt"

definition sample_created :: "(pod_id \<times> pod) list runtime" where
  "sample_created = snd (sample_create 0 sample_initiated)"

definition sample_running :: "(pod_id \<times> pod) list runtime" where
  "sample_running = snd (start_container_without_wait alist_pods sample_name True 7 (complete_future 0 (Ready 0) sample_created))"

definition sample_pod :: pod where
  "sample_pod =
     (initiated_pod sample_component sample_sandbox Mapping.empty Mapping.empty sample_ip 5 1)
       \<lparr>pod_state := Running, pod_routes := Some 0, container_meta := Some \<lparr>cm_name = ''main'', cm_attempt = 0\<rparr>,
        container_created_at := 6, container_started_at := 7\<rparr>"

lemmas sample_defs = sample_running_def sample_created_def sample_create_def sample_initiated_def sample_name_def

lemmas operation_defs =
  init_pod_def init_pod_insert_def fetch_add_pod_id_def SingleUse_default_def SingleUse_of_def initiated_pod_def
  create_container_def create_closure_def compute_def grpc_def complete_future_def
  start_container_without_wait_def start_claim_def start_closure_def start_finalize_def finalize_closure_def spawn_server_def
  take_killer_def kill_server_def Let_def

lemma sample_running_eq:
  "sample_running =
     \<lparr>rt_pods = [(0, sample_pod)], rt_next_pod_id = 1, rt_cells = (\<lambda>_. None)(0 := None, 1 := Some 0), rt_next_cell = 2,
      rt_futures = (\<lambda>_. Pending)(0 := Ready 0), rt_next_future = 1, rt_servers = (\<lambda>_. None)(0 := Some (V4 10 0 0 1)), rt_next_server = 1\<rparr>"
  by (simp add: sample_defs operation_defs alist_pods_def WorkRuntime_new_def PodName_new_def sample_pod_def sample_ip_def)

lemma sample_servers: "rt_servers (complete_future 0 (Ready 0) sample_created) s = None"
  by (simp add: sample_defs operation_defs alist_pods_def WorkRuntime_new_def PodName_new_def)

lemma sample_reachable: "reachable alist_pods (sample_running, {#})"
proof -
  have "reachable alist_pods (sample_initiated, {#})"
    unfolding sample_initiated_def
    by (rule alist.init_pod_reachable [OF reachable_new]) (simp add: WorkRuntime_new_def)
  then have "reachable alist_pods (complete_future 0 (Ready 0) sample_created, {#})"
    unfolding sample_created_def sample_create_def by (intro reachable_step [OF alist.create_container_reachable step_future])
  then show ?thesis
    unfolding sample_running_def by (rule alist.start_container_reachable) (simp add: sample_servers)
qed

lemmas sample_stop_defs =
  sample_running_eq sample_name_def PodName_new_def stop_mark_def compute_def stop_closure_def take_killer_def alist_pods_def
  sample_pod_def initiated_pod_def

text \<open>Beside the running pod, one that is only initiated.\<close>

definition sample_two :: "(pod_id \<times> pod) list runtime" where
  "sample_two =
     snd (init_pod alist_pods sample_component sample_sandbox Mapping.empty Mapping.empty
       (Inr (sample_ip\<lparr>ia_address := V4 10 0 0 2\<rparr>)) 8 sample_running)"

lemma sample_two_reachable: "reachable alist_pods (sample_two, {#})"
  unfolding sample_two_def by (rule alist.init_pod_reachable [OF sample_reachable]) (simp add: sample_running_eq)

section \<open>Guarantees over all interleavings\<close>



text \<open>
  C4: No server is leaked: in every reachable configuration a live server is reachable through the killer of a pod that is in the map,
  has the server's address and is not killed, or a task in progress is about to take its killer, or to shut it down.
\<close>

theorem no_server_leaked:
  assumes "pod_map P" "reachable P (rt, T)" "rt_servers rt s = Some a"
  shows "(\<exists>k p. pm_get P (rt_pods rt) k = Some p \<and> pod_state p \<noteq> Killed \<and> rt_cells rt (pod_killer p) = Some s
        \<and> ia_address (pod_ip_address p) = a)
    \<or> (\<exists>c. (Task_stop c \<in># T \<or> Task_kill c \<in># T) \<and> rt_cells rt c = Some s) \<or> Task_kill_server s \<in># T"
  using pod_map.owner [OF assms] by (auto simp: addr_def taking_def)

theorem no_server_leaked_witness:
  "\<exists>k p. map_of (rt_pods sample_running) k = Some p \<and> pod_state p \<noteq> Killed \<and> rt_cells sample_running (pod_killer p) = Some 0"
  using no_server_leaked [OF alist.pod_map_axioms sample_reachable, of 0 "V4 10 0 0 1"]
  by (auto simp: sample_running_eq alist_pods_def split: if_splits)

text \<open>
  C12: When no other call is in progress, a \<^verbatim>\<open>StopPodSandbox\<close> frees everything the pod served, whatever the address
  manager answers: afterwards every live server belongs to another pod of the map, which is not killed.
\<close>

theorem kill_pod_ends_serving:
  assumes "pod_map P" "reachable P (rt, {#})" "kill_pod P name deactivated deallocated rt = (r, rt')" "rt_servers rt' s = Some a"
  shows "\<exists>k p. k \<noteq> pn_pod name \<and> pm_get P (rt_pods rt') k = Some p \<and> pod_state p \<noteq> Killed
    \<and> rt_cells rt' (pod_killer p) = Some s \<and> ia_address (pod_ip_address p) = a"
proof -
  from pod_map.kill_pod_reachable [OF assms(1,2), of name deactivated deallocated] assms(3)
  have "reachable P (rt', {#})" by simp
  from pod_map.owner [OF assms(1) this assms(4)] obtain k p where p: "pm_get P (rt_pods rt') k = Some p" "pod_state p \<noteq> Killed"
      "rt_cells rt' (pod_killer p) = Some s" "addr p = a" by (auto simp: taking_def)
  with pod_map.kill_pod_killed [OF assms(1), of name deactivated deallocated rt p] assms(3) have "k \<noteq> pn_pod name" by auto
  with p show ?thesis by (auto simp: addr_def)
qed

theorem kill_pod_ends_serving_witness:
  "\<exists>k p. k \<noteq> 1 \<and> pm_get alist_pods (rt_pods (snd (kill_pod alist_pods (PodName_new sample_component 1) (Inl [''link down'']) (Inr ()) sample_two))) k = Some p
     \<and> ia_address (pod_ip_address p) = V4 10 0 0 1"
proof -
  have "rt_servers (snd (kill_pod alist_pods (PodName_new sample_component 1) (Inl [''link down'']) (Inr ()) sample_two)) 0 = Some (V4 10 0 0 1)"
    by (simp add: sample_two_def sample_running_eq operation_defs alist_pods_def PodName_new_def kill_pod_def
        kill_pod_without_wait_def kill_closure_def)
  from kill_pod_ends_serving [OF alist.pod_map_axioms sample_two_reachable surjective_pairing this] show ?thesis
    by (auto simp: PodName_new_def)
qed

text \<open>
  C14: A pod ID drawn from the counter never collides, however long its task waits for an address and whatever runs
  meanwhile (as long as the counter has not wrapped): the insertion succeeds and the new pod is \<^verbatim>\<open>Initiated\<close>.
\<close>

theorem init_pod_never_collides:
  assumes "pod_map P" "reachable P (rt, add_mset (Task_init k) T)"
  shows "\<exists>rt' p. init_pod_insert P component meta labels annotations k ip t rt = (Inr (PodName_new component k), rt')
    \<and> pm_get P (rt_pods rt') = (pm_get P (rt_pods rt))(k \<mapsto> p)
    \<and> pod_state p = Initiated \<and> pod_component_name p = component \<and> pod_ip_address p = ip"
proof -
  from pod_map.reachable_ok [OF assms] have "pm_get P (rt_pods rt) k = None" by (auto simp: rt_ok_def view_ok_def task_ok_def)
  then show ?thesis
    by (simp add: init_pod_insert_def SingleUse_default_def Let_def pod_map.get_insert_upd [OF assms(1)])
      (rule exI [of _ "initiated_pod component meta labels annotations ip t (rt_next_cell rt)"], simp add: initiated_pod_def)
qed

theorem init_pod_never_collides_witness:
  "\<exists>rt'. init_pod_insert alist_pods sample_component sample_sandbox Mapping.empty Mapping.empty 1 sample_ip 9
     (sample_running\<lparr>rt_next_pod_id := 2\<rparr>) = (Inr (PodName_new sample_component 1), rt')"
proof -
  have "reachable alist_pods (sample_running\<lparr>rt_next_pod_id := 2\<rparr>, {#Task_init 1#})"
    by (rule reachable_step [OF sample_reachable], rule step_pod_id) (auto simp: fetch_add_pod_id_def sample_running_eq)
  from init_pod_never_collides [OF alist.pod_map_axioms this] show ?thesis by blast
qed



text \<open>
  The stop time of a container is never set: it is 0 for every pod of every reachable configuration, also after the
  container has stopped.
\<close>

theorem finished_at_never_set:
  assumes "pod_map P" "reachable P (rt, T)" "pm_get P (rt_pods rt) k = Some p"
  shows "container_finished_at p = 0"
  using pod_map.reachable_ok [OF assms(1,2)] assms(3) by (auto simp: rt_ok_def view_ok_def pod_ok_def)

theorem finished_at_never_set_witness:
  "container_finished_at (the (map_of (rt_pods (snd (stop_container alist_pods sample_name sample_running))) 0)) = 0"
proof -
  let ?rt = "snd (stop_container alist_pods sample_name sample_running)"
  let ?mid = "sample_running\<lparr>rt_pods := [(0, sample_pod\<lparr>pod_state := Stopped\<rparr>)]\<rparr>"
  have "rt_step alist_pods (sample_running, {#}) (?mid, {#Task_stop 1#})"
    by (rule step_stop [where name = sample_name]) (simp add: sample_stop_defs)
  note reachable_step [OF sample_reachable this]
  then have "reachable alist_pods (?mid, {#Task_stop 1#})" .
  moreover have "map_of (rt_pods ?rt) 0 = Some (sample_pod\<lparr>pod_state := Stopped\<rparr>)" "rt_pods ?mid = rt_pods ?rt"
    by (simp_all add: stop_container_def stop_container_without_wait_def sample_stop_defs kill_server_def)
  ultimately show ?thesis
    using finished_at_never_set [OF alist.pod_map_axioms, of ?mid "{#Task_stop 1#}" 0]
    by (simp add: alist_pods_def)
qed

section \<open>A race\<close>

text \<open>
  C20: The comment on \<^verbatim>\<open>Running container is unkillable\<close> calls it logically impossible. It is reachable when \<^verbatim>\<open>StopPodSandbox\<close>
  takes the killer between the two accesses of \<^verbatim>\<open>StopContainer\<close>: the pod was running when \<^verbatim>\<open>StopContainer\<close> marked it, and
  its task then finds the handle empty.
\<close>

theorem stop_kill_race:
  "\<exists>rt rt1 rt2 T c. reachable alist_pods (rt, {#}) \<and> stop_mark alist_pods sample_name rt = (Stop_take c, rt1)
     \<and> (rt_step alist_pods)\<^sup>*\<^sup>* (rt1, {#Task_stop c#}) (rt2, add_mset (Task_stop c) T) \<and> fst (take_killer c rt2) = None"
proof -
  let ?stopped = "sample_running\<lparr>rt_pods := [(0, sample_pod\<lparr>pod_state := Stopped\<rparr>)]\<rparr>"
  let ?killed = "sample_running\<lparr>rt_pods := [(0, sample_pod\<lparr>pod_state := Killed\<rparr>)]\<rparr>"
  let ?taken = "?killed\<lparr>rt_cells := (rt_cells ?killed)(1 := None)\<rparr>"
  have stop: "stop_mark alist_pods sample_name sample_running = (Stop_take 1, ?stopped)" by (simp add: sample_stop_defs)
  have "rt_step alist_pods (?stopped, {#Task_stop 1#}) (?killed, {#Task_kill 1, Task_stop 1#})"
    by (rule step_kill [where name = sample_name]) (simp add: sample_stop_defs kill_pod_without_wait_def kill_closure_def)
  moreover have "rt_step alist_pods (?killed, {#Task_kill 1, Task_stop 1#}) (?taken, {#Task_kill_server 0, Task_stop 1#})"
    using step_kill_take [of 1 ?killed "Some 0" ?taken alist_pods "{#Task_stop 1#}"] by (simp add: take_killer_def sample_running_eq)
  ultimately have "(rt_step alist_pods)\<^sup>*\<^sup>* (?stopped, {#Task_stop 1#}) (?taken, add_mset (Task_stop 1) {#Task_kill_server 0#})"
    by (simp add: add_mset_commute)
  moreover have "fst (take_killer 1 ?taken) = None" by (simp add: take_killer_def)
  ultimately show ?thesis using sample_reachable stop by blast
qed

section \<open>Calls without interference\<close>

text \<open>
  C16: Creating the container of a running pod again, with the same parameters, takes the pod back to \<^verbatim>\<open>Created\<close> while its
  server goes on serving; \<^verbatim>\<open>StopContainer\<close> then refuses the pod and leaves the server alive.
\<close>

theorem recreated_container_unstoppable:
  assumes "pod_map P" "reachable P (rt, T)" "pm_get P (rt_pods rt) (pn_pod name) = Some p" "pod_state p = Running"
    and "same_container p meta labels annotations environment img"
    and "create_container P name meta labels annotations environment img t rt = (r, rt')"
  shows "r = Inr () \<and> (\<exists>s. rt_servers rt' s = Some (ia_address (pod_ip_address p)))
    \<and> stop_container P name rt' = (Inl (Bad_prior_state Created), rt')"
proof -
  have effect: "r = Inr ()" "rt_servers rt' = rt_servers rt" "\<exists>q. pm_get P (rt_pods rt') (pn_pod name) = Some q \<and> pod_state q = Created"
    using assms(3-6) by (auto simp: create_container_def compute_def create_closure_def grpc_def Let_def
        pod_map.get_insert [OF assms(1)] split: if_splits)
  from pod_map.running_cell [OF assms(1-4)] obtain s where "rt_servers rt s = Some (addr p)" .
  with effect show ?thesis
    by (auto simp: addr_def stop_container_def stop_container_without_wait_def stop_mark_def compute_def stop_closure_def)
qed

theorem recreated_container_unstoppable_witness:
  "fst (sample_create 1 sample_running) = Inr ()
     \<and> stop_container alist_pods sample_name (snd (sample_create 1 sample_running))
        = (Inl (Bad_prior_state Created), snd (sample_create 1 sample_running))"
proof -
  have "pm_get alist_pods (rt_pods sample_running) (pn_pod sample_name) = Some sample_pod" "pod_state sample_pod = Running"
    by (simp_all add: sample_stop_defs)
  moreover have "same_container sample_pod (Some \<lparr>cm_name = ''main'', cm_attempt = 1\<rparr>) Mapping.empty Mapping.empty Mapping.empty None"
    by (simp add: same_container_def sample_pod_def initiated_pod_def container_metadata_equal_def container_annotations_equal_def)
  ultimately show ?thesis
    unfolding sample_create_def
    using recreated_container_unstoppable [OF alist.pod_map_axioms sample_reachable _ _ _ surjective_pairing] by blast
qed

text \<open>
  Creating the container of an initiated or removed pod and starting it while the initializer still works, which then delivers
  its routes, makes the pod \<^verbatim>\<open>Running\<close> at its address with the container's parameters.
\<close>

theorem create_start_serves:
  assumes "pod_map P" "pm_get P (rt_pods rt) (pn_pod name) = Some p" "pod_state p = Initiated \<or> pod_state p = Removed"
    and "create_container P name meta labels annotations environment img t rt = (r, rt1)"
    and "finished (rt_next_future rt) = Ready routes"
    and "start_container P name True finished t' rt1 = (r', rt2)"
  shows "r = Inr () \<and> r' = Inr () \<and> (\<exists>q. pm_get P (rt_pods rt2) (pn_pod name) = Some q \<and> pod_state q = Running
     \<and> container_meta q = meta \<and> container_labels q = labels \<and> container_annotations q = annotations
     \<and> pod_environment q = environment \<and> pod_image_spec q = img \<and> container_started_at q = t'
     \<and> (\<exists>s. rt_cells rt2 (pod_killer q) = Some s \<and> rt_servers rt2 s = Some (ia_address (pod_ip_address p))))"
  using assms(2-)
  by (auto simp: create_container_def create_closure_def compute_def grpc_def start_container_def start_container_without_wait_def
      start_claim_def start_closure_def start_finalize_def finalize_closure_def spawn_server_def SingleUse_of_def complete_future_def
      take_killer_def kill_server_def Let_def pod_map.get_insert [OF assms(1)] split: if_splits)

theorem create_start_serves_witness:
  "fst (start_container alist_pods sample_name True (\<lambda>_. Ready 3) 7 (snd (sample_create 0 sample_initiated))) = Inr ()"
proof -
  have "pm_get alist_pods (rt_pods sample_initiated) (pn_pod sample_name)
      = Some (initiated_pod sample_component sample_sandbox Mapping.empty Mapping.empty sample_ip 5 0)"
    by (simp add: sample_initiated_def sample_name_def operation_defs alist_pods_def WorkRuntime_new_def PodName_new_def)
  then show ?thesis
    unfolding sample_create_def
    using create_start_serves [OF alist.pod_map_axioms _ _ surjective_pairing _ surjective_pairing]
    by (simp add: initiated_pod_def)
qed

text \<open>
  When the initializer fails, starting the created pod reports its error once, and only that the cause was logged from then on; the
  pod stays \<^verbatim>\<open>Created\<close>. Creating the container again with a higher attempt number runs a new initializer, whose success lets the pod start.
\<close>

theorem failed_start_retried:
  assumes "pod_map P" "pm_get P (rt_pods rt) (pn_pod name) = Some p" "pod_state p = Created" "pod_routes p = Some f"
    and "rt_futures rt f = Failed (Some e)" "same_container p meta labels annotations environment img"
    and "subsequent_attempt (container_meta p) meta"
    and "start_container P name bind finished t rt = (r1, rt1)"
    and "start_container P name bind finished t rt1 = (r2, rt2)"
    and "create_container P name meta labels annotations environment img t rt2 = (r3, rt3)"
    and "finished (rt_next_future rt) = Ready routes"
    and "start_container P name True finished t rt3 = (r4, rt4)"
  shows "r1 = Inl (Failed_starting_pod e) \<and> r2 = Inl Failed_starting_cause_logged \<and> r3 = Inr () \<and> r4 = Inr ()
    \<and> rt_pods rt2 = rt_pods rt \<and> (\<exists>q. pm_get P (rt_pods rt4) (pn_pod name) = Some q \<and> pod_state q = Running)"
proof -
  let ?rt = "rt\<lparr>rt_futures := (rt_futures rt)(f := Failed None)\<rparr>"
  note start_defs = start_container_def start_container_without_wait_def start_claim_def start_closure_def compute_def
  have first: "r1 = Inl (Failed_starting_pod e)" "rt1 = ?rt"
    using assms(2-5,8) by (auto simp: start_defs)
  have second: "r2 = Inl Failed_starting_cause_logged" "rt2 = ?rt"
    using assms(2-4,9) first by (auto simp: start_defs)
  have third: "r3 = Inr ()" "rt3 = ?rt\<lparr>rt_futures := (rt_futures ?rt)(rt_next_future rt := Pending), rt_next_future := rt_next_future rt + 1,
      rt_pods := pm_insert P (rt_pods rt) (pn_pod name)
        (p\<lparr>pod_state := Created, pod_routes := Some (rt_next_future rt), container_meta := meta, container_annotations := annotations, container_created_at := t\<rparr>)\<rparr>"
    using assms(2-7,10) second by (auto simp: create_container_def create_closure_def compute_def grpc_def routes_failed_def Let_def)
  have "r4 = Inr () \<and> (\<exists>q. pm_get P (rt_pods rt4) (pn_pod name) = Some q \<and> pod_state q = Running)"
    using assms(11,12) unfolding third
    by (auto simp: start_defs start_finalize_def finalize_closure_def spawn_server_def SingleUse_of_def complete_future_def
      take_killer_def kill_server_def Let_def pod_map.get_insert [OF assms(1)] split: if_splits)
  with first second third show ?thesis by simp
qed

definition sample_failed :: "(pod_id \<times> pod) list runtime" where
  "sample_failed = complete_future 0 (Failed (Some (Init_error [''oom'']))) sample_created"

theorem failed_start_retried_witness:
  "fst (start_container alist_pods sample_name True (\<lambda>_. Ready 1) 7 sample_failed) = Inl (Failed_starting_pod (Init_error [''oom'']))"
proof -
  let ?pod = "(initiated_pod sample_component sample_sandbox Mapping.empty Mapping.empty sample_ip 5 0)
    \<lparr>pod_state := Created, pod_routes := Some 0, container_meta := Some \<lparr>cm_name = ''main'', cm_attempt = 0\<rparr>, container_created_at := 6\<rparr>"
  have "pm_get alist_pods (rt_pods sample_failed) (pn_pod sample_name) = Some ?pod"
    by (simp add: sample_failed_def sample_defs operation_defs alist_pods_def WorkRuntime_new_def PodName_new_def)
  moreover have "rt_futures sample_failed 0 = Failed (Some (Init_error [''oom'']))"
    by (simp add: sample_failed_def sample_defs operation_defs alist_pods_def WorkRuntime_new_def PodName_new_def)
  moreover have "same_container ?pod (Some \<lparr>cm_name = ''main'', cm_attempt = 1\<rparr>) Mapping.empty Mapping.empty Mapping.empty None"
    "subsequent_attempt (container_meta ?pod) (Some \<lparr>cm_name = ''main'', cm_attempt = 1\<rparr>)"
    by (simp_all add: same_container_def initiated_pod_def container_metadata_equal_def container_annotations_equal_def subsequent_attempt_def)
  ultimately show ?thesis
    using failed_start_retried [OF alist.pod_map_axioms, of sample_failed sample_name ?pod 0 "Init_error [''oom'']"
        "Some \<lparr>cm_name = ''main'', cm_attempt = 1\<rparr>" Mapping.empty Mapping.empty Mapping.empty None True "\<lambda>_. Ready 1" 7]
    by (simp add: prod_eq_iff)
qed

section \<open>Queries\<close>

definition pod_matches :: "(string \<times> string) list \<Rightarrow> bool option \<Rightarrow> pod \<Rightarrow> bool" where
  "pod_matches labels readiness p \<longleftrightarrow>
     (\<forall>ready. readiness = Some ready \<longrightarrow> ready = (pod_state p \<noteq> Killed))
     \<and> (\<forall>(key, v) \<in> set labels. Mapping.lookup (pod_labels p) key = Some v)"

definition container_matches :: "(string \<times> string) list \<Rightarrow> pod_state list \<Rightarrow> pod \<Rightarrow> bool" where
  "container_matches labels states p \<longleftrightarrow>
     pod_state p \<in> set states \<and> (\<forall>(key, v) \<in> set labels. Mapping.lookup (container_labels p) key = Some v)"

lemma match_pod_eq:
  "match_pod k p labels readiness transform results =
     results @ (if pod_matches labels readiness p then [transform (PodName_new (pod_component_name p) k) p] else [])"
  by (auto simp: match_pod_def match_labels_def pod_matches_def list_all_iff split: option.splits)

lemma match_container_eq:
  "match_container k p labels states transform results =
     results @ (if container_matches labels states p then [transform (PodName_new (pod_component_name p) k) p] else [])"
  by (auto simp: match_container_def match_labels_def container_matches_def list_all_iff)

lemma foldl_collect:
  "foldl (\<lambda>results (k, p). results @ (if Q p then [f k p] else [])) results xs = results @ map (\<lambda>(k, p). f k p) (filter (Q \<circ> snd) xs)"
  by (induction xs arbitrary: results) auto

lemma list_pods_eq:
  "list_pods P rt labels readiness transform results =
     results @ map (\<lambda>(k, p). transform (PodName_new (pod_component_name p) k) p)
       (filter (pod_matches labels readiness \<circ> snd) (pm_iter P (rt_pods rt)))"
  by (simp add: list_pods_def match_pod_eq foldl_collect)

lemma list_containers_eq:
  "list_containers P rt labels states transform results =
     results @ map (\<lambda>(k, p). transform (PodName_new (pod_component_name p) k) p)
       (filter (container_matches labels states \<circ> snd) (pm_iter P (rt_pods rt)))"
  by (simp add: list_containers_def match_container_eq foldl_collect)

lemma filter_key:
  assumes "distinct (map fst xs)"
  shows "filter (\<lambda>e. fst e = k) xs = (case map_of xs k of Some p \<Rightarrow> [(k, p)] | None \<Rightarrow> [])"
  using assms by (induction xs) (auto simp: filter_empty_conv rev_image_eqI split: option.splits dest: map_of_SomeD)

context pod_map
begin

lemma iter_map_of: "map_of (pm_iter P m) k = pm_get P m k"
  using map_of_eq_Some_iff [OF iter_distinct, of m k] iter_set [of k _ m] by (cases "pm_get P m k"; cases "map_of (pm_iter P m) k") auto

lemma iter_filter_key: "filter (\<lambda>e. fst e = k) (pm_iter P m) = (case pm_get P m k of Some p \<Rightarrow> [(k, p)] | None \<Rightarrow> [])"
  using filter_key [OF iter_distinct] by (simp add: iter_map_of)

lemma iter_filter_name:
  "filter (\<lambda>(n, p). pn_pod n = k) (map (\<lambda>(k, p). (PodName_new (pod_component_name p) k, p)) (filter (Q \<circ> snd) (pm_iter P m)))
     = (case pm_get P m k of Some p \<Rightarrow> if Q p then [(PodName_new (pod_component_name p) k, p)] else [] | None \<Rightarrow> [])"
proof -
  have names: "filter (\<lambda>(n, p). pn_pod n = k) (map (\<lambda>(k, p). (PodName_new (pod_component_name p) k, p)) xs)
      = map (\<lambda>(k, p). (PodName_new (pod_component_name p) k, p)) (filter (\<lambda>e. fst e = k) xs)" for xs
    by (induction xs) (auto simp: PodName_new_def)
  have swap: "filter (\<lambda>e. fst e = k) (filter (Q \<circ> snd) (pm_iter P m)) = filter (Q \<circ> snd) (filter (\<lambda>e. fst e = k) (pm_iter P m))"
    by (simp add: conj_commute)
  show ?thesis
    unfolding names swap iter_filter_key by (simp split: option.splits)
qed

end

text \<open>
  Listing pods returns, after the results so far, each pod of the map that has the wanted readiness and every wanted label, exactly
  once under its own name; getting a pod by name returns what listing returns with that pod ID.
\<close>

theorem pod_queries_exact:
  assumes "pod_map P"
  shows "set (list_pods P rt labels readiness Pair []) =
      {(PodName_new (pod_component_name p) k, p) | k p. pm_get P (rt_pods rt) k = Some p \<and> pod_matches labels readiness p}
    \<and> distinct (map (pn_pod \<circ> fst) (list_pods P rt labels readiness Pair []))
    \<and> get_pod P rt name labels readiness Pair results
        = results @ filter (\<lambda>(n, p). pn_pod n = pn_pod name) (list_pods P rt labels readiness Pair [])"
proof (intro conjI)
  show "set (list_pods P rt labels readiness Pair []) =
      {(PodName_new (pod_component_name p) k, p) | k p. pm_get P (rt_pods rt) k = Some p \<and> pod_matches labels readiness p}"
    by (auto simp: list_pods_eq pod_map.iter_set [OF assms] image_iff) 
  show "distinct (map (pn_pod \<circ> fst) (list_pods P rt labels readiness Pair []))"
    using pod_map.iter_distinct [OF assms, of "rt_pods rt"]
    by (simp add: list_pods_eq comp_def case_prod_beta PodName_new_def distinct_map_filter)
  show "get_pod P rt name labels readiness Pair results
      = results @ filter (\<lambda>(n, p). pn_pod n = pn_pod name) (list_pods P rt labels readiness Pair [])"
    by (simp add: list_pods_eq get_pod_def match_pod_eq pod_map.iter_filter_name [OF assms] split: option.splits)
qed

theorem pod_queries_exact_witness:
  "get_pod alist_pods sample_running sample_name [] (Some True) Pair []
     = filter (\<lambda>(n, p). pn_pod n = 0) (list_pods alist_pods sample_running [] (Some True) Pair [])"
  using pod_queries_exact [OF alist.pod_map_axioms, of sample_running "[]" "Some True" sample_name "[]"]
  by (simp add: sample_name_def PodName_new_def)

text \<open>
  Listing containers returns each pod whose state is among the wanted ones and whose container has every wanted label, exactly once;
  getting a container by name returns what listing returns with that pod ID.
\<close>

theorem container_queries_exact:
  assumes "pod_map P"
  shows "set (list_containers P rt labels states Pair []) =
      {(PodName_new (pod_component_name p) k, p) | k p. pm_get P (rt_pods rt) k = Some p \<and> container_matches labels states p}
    \<and> distinct (map (pn_pod \<circ> fst) (list_containers P rt labels states Pair []))
    \<and> get_container P rt name labels states Pair results
        = results @ filter (\<lambda>(n, p). pn_pod n = pn_pod name) (list_containers P rt labels states Pair [])"
proof (intro conjI)
  show "set (list_containers P rt labels states Pair []) =
      {(PodName_new (pod_component_name p) k, p) | k p. pm_get P (rt_pods rt) k = Some p \<and> container_matches labels states p}"
    by (auto simp: list_containers_eq pod_map.iter_set [OF assms] image_iff)
  show "distinct (map (pn_pod \<circ> fst) (list_containers P rt labels states Pair []))"
    using pod_map.iter_distinct [OF assms, of "rt_pods rt"]
    by (simp add: list_containers_eq comp_def case_prod_beta PodName_new_def distinct_map_filter)
  show "get_container P rt name labels states Pair results
      = results @ filter (\<lambda>(n, p). pn_pod n = pn_pod name) (list_containers P rt labels states Pair [])"
    by (simp add: list_containers_eq get_container_def match_container_eq pod_map.iter_filter_name [OF assms] split: option.splits)
qed

theorem container_queries_exact_witness:
  "get_container alist_pods sample_running sample_name [] [Running] Pair []
     = filter (\<lambda>(n, p). pn_pod n = 0) (list_containers alist_pods sample_running [] [Running] Pair [])"
  using container_queries_exact [OF alist.pod_map_axioms, of sample_running "[]" "[Running]" sample_name "[]"]
  by (simp add: sample_name_def PodName_new_def)

end
