(* ===== verification/Cri.thy ===== *)
theory Cri
  imports Pod_Claims
begin

text \<open>
  The data of the CRI services (\<^verbatim>\<open>runtime/cri/mod.rs\<close> and the free functions of \<^verbatim>\<open>runtime/cri/runtime.rs\<close>): component names
  from labels, errors as gRPC statuses, the prefixes that distinguish the IDs of the two runtimes, and the conversions of a pod
  to the messages of the CRI API. The entries of a \<^verbatim>\<open>HashMap\<close> that the code only iterates over are a list, in iteration order.
\<close>

section \<open>Labels and statuses\<close>

definition LABEL_DOMAIN_KEY :: string where "LABEL_DOMAIN_KEY = ''vimana.host/domain''"
definition LABEL_SERVER_KEY :: string where "LABEL_SERVER_KEY = ''vimana.host/server''"
definition LABEL_VERSION_KEY :: string where "LABEL_VERSION_KEY = ''vimana.host/version''"

datatype label_error = Missing_domain_label | Missing_server_label | Missing_version_label | Bad_name name_error

definition component_name_from_labels ::
    "(rx \<Rightarrow> string \<Rightarrow> bool) \<Rightarrow> string_map \<Rightarrow> label_error + component_name" where
  "component_name_from_labels is_match labels =
     (case Mapping.lookup labels LABEL_DOMAIN_KEY of
        None \<Rightarrow> Inl Missing_domain_label
      | Some domain \<Rightarrow>
          (case DomainUuid_parse domain of
             Inl e \<Rightarrow> Inl (Bad_name e)
           | Inr domain \<Rightarrow>
               (case Mapping.lookup labels LABEL_SERVER_KEY of
                  None \<Rightarrow> Inl Missing_server_label
                | Some server \<Rightarrow>
                    (case Mapping.lookup labels LABEL_VERSION_KEY of
                       None \<Rightarrow> Inl Missing_version_label
                     | Some version \<Rightarrow> emap_err Bad_name (ComponentName_new is_match domain server version)))))"

text \<open>The errors the services log and report, with the outermost context that the status shows.\<close>

datatype cri_error =
    Invalid_pod_labels string_map label_error
  | Port_mappings_unsupported
  | Invalid_pod_sandbox_id name_error
  | Invalid_container_id name_error
  | Image_annotations_unsupported
  | Runtime_failure runtime_error
  | Downstream_startup_failure

text \<open>
  \<^verbatim>\<open>log_error\<close> looks for a status among the causes; none of the errors above has one (the downstream runtime's statuses are returned
  as they are and never wrapped), so it makes an internal one.
\<close>

datatype 'e tonic_status = Status_internal 'e | Status_not_found string | Status_todo string | Status_downstream int string

type_synonym status = "cri_error tonic_status"

definition log_error :: "'e + 'a \<Rightarrow> 'e tonic_status + 'a" where
  "log_error r = (case r of Inl e \<Rightarrow> Inl (Status_internal e) | Inr v \<Rightarrow> Inr v)"

fun pod_state_debug :: "pod_state \<Rightarrow> string" where
  "pod_state_debug Initiated = ''Initiated''"
| "pod_state_debug Created = ''Created''"
| "pod_state_debug Starting = ''Starting''"
| "pod_state_debug Running = ''Running''"
| "pod_state_debug Stopped = ''Stopped''"
| "pod_state_debug Removed = ''Removed''"
| "pod_state_debug Killed = ''Killed''"

text \<open>What \<^verbatim>\<open>to_string\<close> shows of an error of the state machine: its outermost message.\<close>

fun chain_text :: "error_chain \<Rightarrow> string" where
  "chain_text [] = []"
| "chain_text (message # causes) = message"

fun runtime_error_text :: "runtime_error \<Rightarrow> string" where
  "runtime_error_text (Ipam_failure e) = chain_text e"
| "runtime_error_text (Pod_id_collision k) = ''Pod id collision: '' @ nat_decimal (unat k)"
| "runtime_error_text Different_parameters = ''Container cannot be recreated with different parameters''"
| "runtime_error_text (Bad_prior_state s) = ''Bad prior state: '' @ pod_state_debug s"
| "runtime_error_text Pod_not_found = ''Pod not found''"
| "runtime_error_text Container_not_found = ''Container not found''"
| "runtime_error_text Routes_future_missing = ''Logical impossibility (routes future should exist after container creation)''"
| "runtime_error_text (Failed_starting_pod e) = ''Failed starting pod''"
| "runtime_error_text Failed_starting_cause_logged = ''Failed starting pod: cause already logged''"
| "runtime_error_text Restart_not_implemented = ''Restarting a stopped container is not yet implemented''"
| "runtime_error_text Failed_binding = ''Failed binding to port''"
| "runtime_error_text (State_changed_while_starting s) = ''State changed while starting: '' @ pod_state_debug s"
| "runtime_error_text Disappeared_while_starting = ''Container disappeared while starting''"
| "runtime_error_text Running_unkillable = ''Running container is unkillable''"
| "runtime_error_text Juggling_routes_future = ''Logical impossibility (juggling routes future)''"
| "runtime_error_text (Logical_impossibility message) = message"

section \<open>IDs\<close>

definition POD_PREFIX :: string where "POD_PREFIX = ''p-''"
definition CONTAINER_PREFIX :: string where "CONTAINER_PREFIX = ''c-''"

definition starts_with :: "string \<Rightarrow> string \<Rightarrow> bool" where
  "starts_with s prefix \<longleftrightarrow> take (length prefix) s = prefix"

text \<open>
  \<^verbatim>\<open>&s[n..]\<close> panics when \<open>n\<close> is past the end or not at the boundary of a character of the UTF-8 text.
\<close>

definition str_slice_from :: "nat \<Rightarrow> string \<Rightarrow> string option" where
  "str_slice_from n s =
     (if n < length s then (if of_char (s ! n) div 64 = (2 :: nat) then None else Some (drop n s))
      else if n = length s then Some [] else None)"

text \<open>The two parsers as a release build runs them, without their \<^verbatim>\<open>debug_assert!\<close>.\<close>

definition parse_pod_prefixed_name ::
    "(rx \<Rightarrow> string \<Rightarrow> bool) \<Rightarrow> string \<Rightarrow> (pod_name, name_error) outcome" where
  "parse_pod_prefixed_name is_match name =
     (case str_slice_from (length POD_PREFIX) name of
        None \<Rightarrow> Panic
      | Some rest \<Rightarrow> (case Name_pod is_match (Name_parse rest) of Inl e \<Rightarrow> Err e | Inr n \<Rightarrow> Ok n))"

definition parse_container_prefixed_name ::
    "(rx \<Rightarrow> string \<Rightarrow> bool) \<Rightarrow> string \<Rightarrow> (pod_name, name_error) outcome" where
  "parse_container_prefixed_name is_match name =
     (case str_slice_from (length CONTAINER_PREFIX) name of
        None \<Rightarrow> Panic
      | Some rest \<Rightarrow> (case Name_pod is_match (Name_parse rest) of Inl e \<Rightarrow> Err e | Inr n \<Rightarrow> Ok n))"

definition pod_prefix :: "pod_name \<Rightarrow> string" where
  "pod_prefix name = POD_PREFIX @ PodName_to_string name"

definition container_prefix :: "pod_name \<Rightarrow> string" where
  "container_prefix name = CONTAINER_PREFIX @ PodName_to_string name"

section \<open>Pod states and CRI states\<close>

datatype sandbox_state = SandboxReady | SandboxNotready

datatype container_state = ContainerCreated | ContainerRunning | ContainerExited | ContainerUnknown

fun sandbox_state_number :: "sandbox_state \<Rightarrow> int" where
  "sandbox_state_number SandboxReady = 0"
| "sandbox_state_number SandboxNotready = 1"

fun container_state_number :: "container_state \<Rightarrow> int" where
  "container_state_number ContainerCreated = 0"
| "container_state_number ContainerRunning = 1"
| "container_state_number ContainerExited = 2"
| "container_state_number ContainerUnknown = 3"

fun pod_state_to_cri_pod_state :: "pod_state \<Rightarrow> sandbox_state" where
  "pod_state_to_cri_pod_state Killed = SandboxNotready"
| "pod_state_to_cri_pod_state s = SandboxReady"

fun pod_state_to_cri_container_state :: "pod_state \<Rightarrow> container_state" where
  "pod_state_to_cri_container_state Initiated = ContainerUnknown"
| "pod_state_to_cri_container_state Removed = ContainerUnknown"
| "pod_state_to_cri_container_state Killed = ContainerUnknown"
| "pod_state_to_cri_container_state Created = ContainerCreated"
| "pod_state_to_cri_container_state Starting = ContainerCreated"
| "pod_state_to_cri_container_state Running = ContainerRunning"
| "pod_state_to_cri_container_state Stopped = ContainerExited"

definition POD_STATES_CONTAINER_ALL :: "pod_state list" where
  "POD_STATES_CONTAINER_ALL = [Created, Starting, Running, Stopped]"

definition POD_STATES_CONTAINER_CREATED :: "pod_state list" where
  "POD_STATES_CONTAINER_CREATED = [Created, Starting]"

definition POD_STATES_CONTAINER_RUNNING :: "pod_state list" where
  "POD_STATES_CONTAINER_RUNNING = [Running]"

definition POD_STATES_CONTAINER_EXITED :: "pod_state list" where
  "POD_STATES_CONTAINER_EXITED = [Stopped, Removed, Killed]"

definition POD_STATES_CONTAINER_UNKNOWN :: "pod_state list" where
  "POD_STATES_CONTAINER_UNKNOWN = []"

definition cri_container_state_to_pod_states :: "int \<Rightarrow> pod_state list" where
  "cri_container_state_to_pod_states state =
     (if state = container_state_number ContainerCreated then POD_STATES_CONTAINER_CREATED
      else if state = container_state_number ContainerRunning then POD_STATES_CONTAINER_RUNNING
      else if state = container_state_number ContainerExited then POD_STATES_CONTAINER_EXITED
      else if state = container_state_number ContainerUnknown then POD_STATES_CONTAINER_UNKNOWN
      else POD_STATES_CONTAINER_ALL)"

lemmas pod_states_defs =
  POD_STATES_CONTAINER_ALL_def POD_STATES_CONTAINER_CREATED_def POD_STATES_CONTAINER_RUNNING_def
  POD_STATES_CONTAINER_EXITED_def POD_STATES_CONTAINER_UNKNOWN_def

section \<open>Messages\<close>

definition KUBELET_API_VERSION :: string where "KUBELET_API_VERSION = ''0.1.0''"
definition CONTAINER_RUNTIME_NAME :: string where "CONTAINER_RUNTIME_NAME = ''vimana''"
definition CONTAINER_RUNTIME_HANDLER :: string where "CONTAINER_RUNTIME_HANDLER = ''vimana-handler''"
definition CONTAINER_RUNTIME_VERSION :: string where "CONTAINER_RUNTIME_VERSION = ''0.0.0''"
definition CONTAINER_RUNTIME_API_VERSION :: string where "CONTAINER_RUNTIME_API_VERSION = ''v1''"

record pod_sandbox =
  ps_id :: string
  ps_runtime_handler :: string
  ps_state :: int
  ps_metadata :: "pod_sandbox_metadata option"
  ps_created_at :: int
  ps_labels :: string_map
  ps_annotations :: string_map

record cri_container =
  ct_id :: string
  ct_pod_sandbox_id :: string
  ct_metadata :: "container_metadata option"
  ct_image :: "image_spec option"
  ct_image_ref :: string
  ct_state :: int
  ct_created_at :: int
  ct_labels :: string_map
  ct_annotations :: string_map
  ct_image_id :: string

text \<open>The one member of \<^verbatim>\<open>v1::Signal\<close> that the code uses.\<close>

datatype cri_signal = Sigterm

record container_status =
  cs_id :: string
  cs_metadata :: "container_metadata option"
  cs_state :: int
  cs_created_at :: int
  cs_started_at :: int
  cs_finished_at :: int
  cs_exit_code :: int
  cs_image :: "image_spec option"
  cs_image_ref :: string
  cs_reason :: string
  cs_message :: string
  cs_labels :: string_map
  cs_annotations :: string_map
  cs_log_path :: string
  cs_image_id :: string
  cs_stop_signal :: cri_signal

record pod_sandbox_status =
  pss_id :: string
  pss_metadata :: "pod_sandbox_metadata option"
  pss_state :: int
  pss_created_at :: int
  pss_ip :: string
  pss_labels :: string_map
  pss_annotations :: string_map
  pss_runtime_handler :: string

definition cri_image_ref :: string where "cri_image_ref = ''TODO''"
definition cri_image_id :: string where "cri_image_id = ''TODO''"
definition cri_container_log_path :: string where "cri_container_log_path = ''/dev/null''"

definition cri_pod_sandbox :: "pod_name \<Rightarrow> pod \<Rightarrow> pod_sandbox" where
  "cri_pod_sandbox name p =
     \<lparr>ps_id = pod_prefix name, ps_runtime_handler = CONTAINER_RUNTIME_HANDLER,
      ps_state = sandbox_state_number (pod_state_to_cri_pod_state (pod_state p)), ps_metadata = Some (pod_sandbox_meta p),
      ps_created_at = pod_created_at p, ps_labels = pod_labels p, ps_annotations = pod_annotations p\<rparr>"

definition to_cri_container :: "pod_name \<Rightarrow> pod \<Rightarrow> cri_container" where
  "to_cri_container name p =
     \<lparr>ct_id = container_prefix name, ct_pod_sandbox_id = pod_prefix name, ct_metadata = container_meta p,
      ct_image = pod_image_spec p, ct_image_ref = cri_image_ref,
      ct_state = container_state_number (pod_state_to_cri_container_state (pod_state p)),
      ct_created_at = container_created_at p, ct_labels = container_labels p, ct_annotations = container_annotations p,
      ct_image_id = cri_image_id\<rparr>"

definition cri_container_status :: "pod_name \<Rightarrow> pod \<Rightarrow> container_status" where
  "cri_container_status name p =
     \<lparr>cs_id = container_prefix name, cs_metadata = container_meta p,
      cs_state = container_state_number (pod_state_to_cri_container_state (pod_state p)),
      cs_created_at = container_created_at p, cs_started_at = container_started_at p,
      cs_finished_at = container_finished_at p, cs_exit_code = 0, cs_image = pod_image_spec p, cs_image_ref = cri_image_ref,
      cs_reason = ''TODO'', cs_message = ''TODO'', cs_labels = container_labels p,
      cs_annotations = container_annotations p, cs_log_path = cri_container_log_path, cs_image_id = cri_image_id,
      cs_stop_signal = Sigterm\<rparr>"

definition cri_pod_sandbox_status :: "pod_name \<Rightarrow> pod \<Rightarrow> pod_sandbox_status \<times> container_status list" where
  "cri_pod_sandbox_status name p =
     (\<lparr>pss_id = pod_prefix name, pss_metadata = Some (pod_sandbox_meta p),
       pss_state = sandbox_state_number (pod_state_to_cri_pod_state (pod_state p)), pss_created_at = pod_created_at p,
       pss_ip = ip_to_string (ia_address (pod_ip_address p)), pss_labels = pod_labels p, pss_annotations = pod_annotations p,
       pss_runtime_handler = CONTAINER_RUNTIME_HANDLER\<rparr>,
      if pod_state p = Initiated \<or> pod_state p = Removed \<or> pod_state p = Killed then [] else [cri_container_status name p])"

section \<open>Lemmas\<close>

lemma starts_with_append [simp]: "starts_with (prefix @ s) prefix"
  by (simp add: starts_with_def)

lemma prefix_lengths [simp]: "length POD_PREFIX = 2" "length CONTAINER_PREFIX = 2"
  by (simp_all add: POD_PREFIX_def CONTAINER_PREFIX_def)

lemma slice_prefix:
  assumes "length prefix = 2" "s = [] \<or> of_char (hd s) < (128 :: nat)"
  shows "str_slice_from 2 (prefix @ s) = Some s"
proof (cases s)
  case (Cons c cs)
  with assms(2) have "of_char c div 64 < (2 :: nat)" by auto
  with Cons assms(1) show ?thesis by (simp add: str_slice_from_def nth_append)
qed (simp add: str_slice_from_def assms(1))

text \<open>A well-formed name starts with a hexadecimal digit, so that a slice after its prefix is exact.\<close>

lemma pod_string_head:
  assumes "pod_wf is_match n"
  shows "of_char (hd (PodName_to_string n)) < (128 :: nat)"
proof -
  let ?u = "uuid (sn_domain (cn_server (pn_component n)))"
  from assms have len: "length ?u = 16" by (simp add: pod_wf_def component_wf_def domain_wf_def)
  then have "hex_code ?u \<noteq> []" by (cases ?u) (auto simp: hex_code_def)
  then have hd: "hd (hex_code ?u) \<in> set (hex_code ?u)" by simp
  then have "is_hex (hd (hex_code ?u))" by (rule hex_code_is_hex)
  then have "unat (hd (hex_code ?u)) < 128" by (auto simp: is_hex_def word_le_nat_alt)
  moreover have "hd (PodName_to_string n) = char_of_u8 (hd (hex_code ?u))"
    using len hd by (cases "hex_code ?u") (auto simp: PodName_to_string_def ComponentName_to_string_def ServerName_to_string_def
        DomainUuid_to_string_def from_bytes_def hexify_hex_code)
  ultimately show ?thesis by (simp add: char_of_u8_def)
qed

context regex_engine
begin

lemma parse_pod_prefix: "pod_wf is_match n \<Longrightarrow> parse_pod_prefixed_name is_match (pod_prefix n) = Ok n"
  by (simp add: parse_pod_prefixed_name_def pod_prefix_def slice_prefix pod_string_head pod_parse_print_iff [THEN iffD2])

lemma parse_container_prefix: "pod_wf is_match n \<Longrightarrow> parse_container_prefixed_name is_match (container_prefix n) = Ok n"
  by (simp add: parse_container_prefixed_name_def container_prefix_def slice_prefix pod_string_head pod_parse_print_iff [THEN iffD2])

lemma labels_wf: "component_name_from_labels is_match labels = Inr c \<Longrightarrow> component_wf is_match c"
  by (auto simp: component_name_from_labels_def component_wf_def ComponentName_new_iff DomainUuid_parse_iff emap_err_Inr_iff
      split: option.splits sum.splits)

end

end
