(* ===== verification/Cri_Runtime.thy ===== *)
theory Cri_Runtime
  imports Cri
begin

text \<open>
  The CRI runtime service (\<^verbatim>\<open>ProxyingRuntimeService\<close> of \<^verbatim>\<open>runtime/cri/runtime.rs\<close>): a definition per call, which either
  forwards the request to the downstream OCI runtime or runs it on the pod state machine. The downstream runtime is a parameter, a
  record of the calls the service looks into (\<open>ds_run_pod_sandbox\<close>, \<open>ds_create_container\<close> and the two listings) and one function
  for the calls it only passes through; \<open>'d\<close> is its state. \<^verbatim>\<open>todo!()\<close> is a panic.

  What the environment decides during a call is an argument of its handler: the address manager's results, the outcome of binding a
  socket, what the pod initializer finishes with, and the time.
\<close>

section \<open>Requests and the downstream runtime\<close>

record pod_sandbox_config =
  psc_metadata :: "pod_sandbox_metadata option"
  psc_labels :: string_map
  psc_annotations :: string_map
  psc_port_mappings :: "nat list"

record container_config =
  cc_metadata :: "container_metadata option"
  cc_image :: "image_spec option"
  cc_envs :: "(string \<times> string) list"
  cc_labels :: string_map
  cc_annotations :: string_map

record cri_filter =
  cf_id :: string
  cf_state :: "int option"
  cf_label_selector :: "(string \<times> string) list"

definition default_sandbox_metadata :: pod_sandbox_metadata where
  "default_sandbox_metadata = \<lparr>psm_name = [], psm_uid = [], psm_namespace = [], psm_attempt = 0\<rparr>"

definition default_sandbox_config :: pod_sandbox_config where
  "default_sandbox_config =
     \<lparr>psc_metadata = None, psc_labels = Mapping.empty, psc_annotations = Mapping.empty, psc_port_mappings = []\<rparr>"

definition default_image_spec :: image_spec where
  "default_image_spec = \<lparr>is_image = [], is_annotations = Mapping.empty, is_user_specified_image = [], is_runtime_handler = []\<rparr>"

definition default_container_config :: container_config where
  "default_container_config =
     \<lparr>cc_metadata = None, cc_image = None, cc_envs = [], cc_labels = Mapping.empty, cc_annotations = Mapping.empty\<rparr>"

definition default_filter :: cri_filter where
  "default_filter = \<lparr>cf_id = [], cf_state = None, cf_label_selector = []\<rparr>"

text \<open>Requests that the service passes through when they belong downstream.\<close>

datatype passed_request =
    Pass_stop_pod_sandbox string | Pass_remove_pod_sandbox string | Pass_pod_sandbox_status string
  | Pass_start_container string | Pass_stop_container string int | Pass_remove_container string | Pass_container_status string
  | Pass_update_container_resources string | Pass_reopen_container_log string | Pass_exec_sync string | Pass_exec string
  | Pass_attach string | Pass_port_forward string | Pass_container_stats string | Pass_pod_sandbox_stats string
  | Pass_checkpoint_container string
  | Pass_list_container_stats | Pass_list_pod_sandbox_stats | Pass_update_runtime_config | Pass_status
  | Pass_list_metric_descriptors | Pass_list_pod_sandbox_metrics | Pass_runtime_config

text \<open>A reply that the service does not look into.\<close>

type_synonym passed_reply = nat

record 'd downstream_lib =
  ds_run_pod_sandbox :: "string \<Rightarrow> pod_sandbox_config option \<Rightarrow> 'd \<Rightarrow> (status + string) \<times> 'd"
  ds_create_container :: "string \<Rightarrow> container_config option \<Rightarrow> 'd \<Rightarrow> (status + string) \<times> 'd"
  ds_list_pod_sandbox :: "cri_filter option \<Rightarrow> 'd \<Rightarrow> (status + pod_sandbox list) \<times> 'd"
  ds_list_containers :: "cri_filter option \<Rightarrow> 'd \<Rightarrow> (status + cri_container list) \<times> 'd"
  ds_pass :: "passed_request \<Rightarrow> 'd \<Rightarrow> (status + passed_reply) \<times> 'd"

section \<open>The service\<close>

record ('m, 'd) service =
  sv_runtime :: "'m runtime"
  sv_downstream :: 'd
  sv_downstream_ids :: "string set"

text \<open>Both runtimes answer some calls; \<open>'u\<close> is the answer of the Vimana runtime.\<close>

datatype 'u reply = From_downstream passed_reply | Upstream 'u

type_synonym ('a, 'm, 'd) handled = "('a, status) outcome \<times> ('m, 'd) service"

fun tonic :: "status + 'a \<Rightarrow> ('a, status) outcome" where
  "tonic (Inl s) = Err s"
| "tonic (Inr v) = Ok v"

definition ProxyingRuntimeService_new ::
    "'d downstream_lib \<Rightarrow> 'm runtime \<Rightarrow> 'd \<Rightarrow> cri_error + ('m, 'd) service" where
  "ProxyingRuntimeService_new D rt d =
     (case ds_list_pod_sandbox D None d of
        (Inl _, d) \<Rightarrow> Inl Downstream_startup_failure
      | (Inr pods, d) \<Rightarrow>
          (case ds_list_containers D None d of
             (Inl _, d) \<Rightarrow> Inl Downstream_startup_failure
           | (Inr containers, d) \<Rightarrow>
               Inr \<lparr>sv_runtime = rt, sv_downstream = d,
                    sv_downstream_ids = foldl (\<lambda>ids c. insert (ct_id c) ids) (foldl (\<lambda>ids p. insert (ps_id p) ids) {} pods) containers\<rparr>))"

definition is_downstream :: "('m, 'd) service \<Rightarrow> string \<Rightarrow> bool" where
  "is_downstream sv ident \<longleftrightarrow>
     ident \<in> sv_downstream_ids sv \<or> \<not> (starts_with ident POD_PREFIX \<or> starts_with ident CONTAINER_PREFIX)"

definition pass ::
    "'d downstream_lib \<Rightarrow> passed_request \<Rightarrow> ('m, 'd) service \<Rightarrow> ('u reply, 'm, 'd) handled" where
  "pass D req sv =
     (let (r, d) = ds_pass D req (sv_downstream sv)
      in ((case r of Inl s \<Rightarrow> Err s | Inr reply \<Rightarrow> Ok (From_downstream reply)), sv\<lparr>sv_downstream := d\<rparr>))"

section \<open>Pod sandboxes\<close>

record version_response =
  vr_version :: string
  vr_runtime_name :: string
  vr_runtime_version :: string
  vr_runtime_api_version :: string

definition version_call :: "('m, 'd) service \<Rightarrow> (version_response, 'm, 'd) handled" where
  "version_call sv =
     (Ok \<lparr>vr_version = KUBELET_API_VERSION, vr_runtime_name = CONTAINER_RUNTIME_NAME,
          vr_runtime_version = CONTAINER_RUNTIME_VERSION, vr_runtime_api_version = CONTAINER_RUNTIME_API_VERSION\<rparr>, sv)"

definition run_pod_sandbox ::
    "'m pod_map_lib \<Rightarrow> 'd downstream_lib \<Rightarrow> (rx \<Rightarrow> string \<Rightarrow> bool) \<Rightarrow> (pod_name \<Rightarrow> error_chain + ip_address) \<Rightarrow> int
      \<Rightarrow> string \<Rightarrow> pod_sandbox_config option \<Rightarrow> ('m, 'd) service \<Rightarrow> (string, 'm, 'd) handled" where
  "run_pod_sandbox P D is_match ipam t runtime_handler config sv =
     (if runtime_handler \<noteq> CONTAINER_RUNTIME_HANDLER then
        let (r, d) = ds_run_pod_sandbox D runtime_handler config (sv_downstream sv);
            sv = sv\<lparr>sv_downstream := d\<rparr>
        in (case r of
              Inl s \<Rightarrow> (Err s, sv)
            | Inr pod_sandbox_id \<Rightarrow>
                (Ok pod_sandbox_id, sv\<lparr>sv_downstream_ids := insert pod_sandbox_id (sv_downstream_ids sv)\<rparr>))
      else
        let config = (case config of None \<Rightarrow> default_sandbox_config | Some c \<Rightarrow> c)
        in (case log_error (emap_err (Invalid_pod_labels (psc_labels config)) (component_name_from_labels is_match (psc_labels config))) of
              Inl s \<Rightarrow> (Err s, sv)
            | Inr component \<Rightarrow>
                if psc_port_mappings config \<noteq> [] then (Err (Status_internal Port_mappings_unsupported), sv)
                else
                  let (r, rt) = init_pod P component
                        (case psc_metadata config of None \<Rightarrow> default_sandbox_metadata | Some m \<Rightarrow> m)
                        (psc_labels config) (psc_annotations config)
                        (ipam (PodName_new component (rt_next_pod_id (sv_runtime sv)))) t (sv_runtime sv);
                      sv = sv\<lparr>sv_runtime := rt\<rparr>
                  in (case log_error (emap_err Runtime_failure r) of
                        Inl s \<Rightarrow> (Err s, sv)
                      | Inr name \<Rightarrow> (Ok (pod_prefix name), sv))))"

text \<open>The common start of the calls on a pod sandbox or container of the Vimana runtime.\<close>

definition with_pod_id ::
    "(rx \<Rightarrow> string \<Rightarrow> bool) \<Rightarrow> string \<Rightarrow> (pod_name \<Rightarrow> ('m, 'd) service \<Rightarrow> ('a, 'm, 'd) handled) \<Rightarrow> ('m, 'd) service
      \<Rightarrow> ('a, 'm, 'd) handled" where
  "with_pod_id is_match ident f sv =
     (case parse_pod_prefixed_name is_match ident of
        Ok name \<Rightarrow> f name sv
      | Err e \<Rightarrow> (Err (Status_internal (Invalid_pod_sandbox_id e)), sv)
      | Panic \<Rightarrow> (Panic, sv)
      | Out_of_fuel \<Rightarrow> (Out_of_fuel, sv))"

definition with_container_id ::
    "(rx \<Rightarrow> string \<Rightarrow> bool) \<Rightarrow> string \<Rightarrow> (pod_name \<Rightarrow> ('m, 'd) service \<Rightarrow> ('a, 'm, 'd) handled) \<Rightarrow> ('m, 'd) service
      \<Rightarrow> ('a, 'm, 'd) handled" where
  "with_container_id is_match ident f sv =
     (case parse_container_prefixed_name is_match ident of
        Ok name \<Rightarrow> f name sv
      | Err e \<Rightarrow> (Err (Status_internal (Invalid_container_id e)), sv)
      | Panic \<Rightarrow> (Panic, sv)
      | Out_of_fuel \<Rightarrow> (Out_of_fuel, sv))"

text \<open>Run an operation of the state machine and report its error.\<close>

definition on_runtime ::
    "('m runtime \<Rightarrow> (runtime_error + unit) \<times> 'm runtime) \<Rightarrow> 'a \<Rightarrow> ('m, 'd) service \<Rightarrow> ('a reply, 'm, 'd) handled" where
  "on_runtime f v sv =
     (let (r, rt) = f (sv_runtime sv); sv = sv\<lparr>sv_runtime := rt\<rparr>
      in (case log_error (emap_err Runtime_failure r) of Inl s \<Rightarrow> (Err s, sv) | Inr _ \<Rightarrow> (Ok (Upstream v), sv)))"

definition stop_pod_sandbox ::
    "'m pod_map_lib \<Rightarrow> 'd downstream_lib \<Rightarrow> (rx \<Rightarrow> string \<Rightarrow> bool) \<Rightarrow> error_chain + unit \<Rightarrow> error_chain + unit
      \<Rightarrow> string \<Rightarrow> ('m, 'd) service \<Rightarrow> (unit reply, 'm, 'd) handled" where
  "stop_pod_sandbox P D is_match deactivated deallocated ident sv =
     (if is_downstream sv ident then pass D (Pass_stop_pod_sandbox ident) sv
      else with_pod_id is_match ident (\<lambda>name. on_runtime (kill_pod P name deactivated deallocated) ()) sv)"

definition forget_if_ok :: "string \<Rightarrow> ('a, 'm, 'd) handled \<Rightarrow> ('a, 'm, 'd) handled" where
  "forget_if_ok ident h =
     (case h of
        (Ok v, sv) \<Rightarrow> (Ok v, sv\<lparr>sv_downstream_ids := sv_downstream_ids sv - {ident}\<rparr>)
      | _ \<Rightarrow> h)"

definition remove_pod_sandbox ::
    "'m pod_map_lib \<Rightarrow> 'd downstream_lib \<Rightarrow> (rx \<Rightarrow> string \<Rightarrow> bool) \<Rightarrow> string \<Rightarrow> ('m, 'd) service \<Rightarrow> (unit reply, 'm, 'd) handled" where
  "remove_pod_sandbox P D is_match ident sv =
     (if is_downstream sv ident then forget_if_ok ident (pass D (Pass_remove_pod_sandbox ident) sv)
      else with_pod_id is_match ident (\<lambda>name. on_runtime (delete_pod P name) ()) sv)"

record pod_sandbox_status_response =
  psr_status :: "pod_sandbox_status option"
  psr_containers_statuses :: "container_status list"
  psr_timestamp :: int

definition pod_sandbox_status_call ::
    "'m pod_map_lib \<Rightarrow> 'd downstream_lib \<Rightarrow> (rx \<Rightarrow> string \<Rightarrow> bool) \<Rightarrow> int \<Rightarrow> string \<Rightarrow> ('m, 'd) service
      \<Rightarrow> (pod_sandbox_status_response reply, 'm, 'd) handled" where
  "pod_sandbox_status_call P D is_match t ident sv =
     (if is_downstream sv ident then pass D (Pass_pod_sandbox_status ident) sv
      else with_pod_id is_match ident
        (\<lambda>name sv. ((case rev (get_pod P (sv_runtime sv) name [] None cri_pod_sandbox_status []) of
             [] \<Rightarrow> Err (Status_not_found (PodName_to_string name))
           | (pod_status, container_statuses) # _ \<Rightarrow>
               Ok (Upstream \<lparr>psr_status = Some pod_status, psr_containers_statuses = container_statuses, psr_timestamp = t\<rparr>)), sv)) sv)"

definition list_pod_sandbox_upstream ::
    "'m pod_map_lib \<Rightarrow> (rx \<Rightarrow> string \<Rightarrow> bool) \<Rightarrow> cri_filter option \<Rightarrow> ('m, 'd) service \<Rightarrow> (pod_sandbox list, status) outcome" where
  "list_pod_sandbox_upstream P is_match filt sv =
     (let filt = (case filt of None \<Rightarrow> default_filter | Some f \<Rightarrow> f);
          labels = cf_label_selector filt;
          readiness = map_option (\<lambda>state. state = sandbox_state_number SandboxReady) (cf_state filt)
      in if length (cf_id filt) > 0 then
           (case parse_pod_prefixed_name is_match (cf_id filt) of
              Ok name \<Rightarrow> Ok (get_pod P (sv_runtime sv) name labels readiness cri_pod_sandbox [])
            | Err _ \<Rightarrow> Ok []
            | Panic \<Rightarrow> Panic
            | Out_of_fuel \<Rightarrow> Out_of_fuel)
         else Ok (list_pods P (sv_runtime sv) labels readiness cri_pod_sandbox []))"

definition list_pod_sandbox ::
    "'m pod_map_lib \<Rightarrow> 'd downstream_lib \<Rightarrow> (rx \<Rightarrow> string \<Rightarrow> bool) \<Rightarrow> cri_filter option \<Rightarrow> ('m, 'd) service
      \<Rightarrow> (pod_sandbox list, 'm, 'd) handled" where
  "list_pod_sandbox P D is_match filt sv =
     (let (r, d) = ds_list_pod_sandbox D filt (sv_downstream sv); sv = sv\<lparr>sv_downstream := d\<rparr>
      in (obind (tonic r) (\<lambda>items. obind (list_pod_sandbox_upstream P is_match filt sv) (\<lambda>up. Ok (items @ up))), sv))"

section \<open>Containers\<close>

definition create_container_call ::
    "'m pod_map_lib \<Rightarrow> 'd downstream_lib \<Rightarrow> (rx \<Rightarrow> string \<Rightarrow> bool) \<Rightarrow> int \<Rightarrow> string \<Rightarrow> container_config option \<Rightarrow> ('m, 'd) service
      \<Rightarrow> (string, 'm, 'd) handled" where
  "create_container_call P D is_match t ident config sv =
     (if is_downstream sv ident then
        let (r, d) = ds_create_container D ident config (sv_downstream sv); sv = sv\<lparr>sv_downstream := d\<rparr>
        in (case r of
              Inl s \<Rightarrow> (Err s, sv)
            | Inr container_id \<Rightarrow> (Ok container_id, sv\<lparr>sv_downstream_ids := insert container_id (sv_downstream_ids sv)\<rparr>))
      else with_pod_id is_match ident
        (\<lambda>name sv.
           let config = (case config of None \<Rightarrow> default_container_config | Some c \<Rightarrow> c);
               image_spec = (case cc_image config of None \<Rightarrow> default_image_spec | Some i \<Rightarrow> i)
           in if is_annotations image_spec \<noteq> Mapping.empty then (Err (Status_internal Image_annotations_unsupported), sv)
              else
                let environment = foldl (\<lambda>env (k, v). Mapping.update k v env) Mapping.empty (cc_envs config);
                    (r, rt) = create_container P name (cc_metadata config) (cc_labels config) (cc_annotations config) environment
                      (Some image_spec) t (sv_runtime sv);
                    sv = sv\<lparr>sv_runtime := rt\<rparr>
                in (case log_error (emap_err Runtime_failure r) of
                      Inl s \<Rightarrow> (Err s, sv)
                    | Inr _ \<Rightarrow> (Ok (container_prefix name), sv))) sv)"

definition start_container_call ::
    "'m pod_map_lib \<Rightarrow> 'd downstream_lib \<Rightarrow> (rx \<Rightarrow> string \<Rightarrow> bool) \<Rightarrow> bool \<Rightarrow> (future_ref \<Rightarrow> future_state) \<Rightarrow> int \<Rightarrow> string
      \<Rightarrow> ('m, 'd) service \<Rightarrow> (unit reply, 'm, 'd) handled" where
  "start_container_call P D is_match bind finished t ident sv =
     (if is_downstream sv ident then pass D (Pass_start_container ident) sv
      else with_container_id is_match ident (\<lambda>name. on_runtime (start_container P name bind finished t) ()) sv)"

text \<open>The grace period of \<^verbatim>\<open>StopContainer\<close>, in seconds: a negative timeout is taken for 0.\<close>

definition stop_timeout :: "int \<Rightarrow> nat" where
  "stop_timeout timeout = (if 0 \<le> timeout then nat timeout else 0)"

definition stop_container_call ::
    "'m pod_map_lib \<Rightarrow> 'd downstream_lib \<Rightarrow> (rx \<Rightarrow> string \<Rightarrow> bool) \<Rightarrow> string \<Rightarrow> int \<Rightarrow> ('m, 'd) service
      \<Rightarrow> (unit reply, 'm, 'd) handled" where
  "stop_container_call P D is_match ident timeout sv =
     (if is_downstream sv ident then pass D (Pass_stop_container ident timeout) sv
      else with_container_id is_match ident (\<lambda>name. on_runtime (stop_container P name) ()) sv)"

definition remove_container_call ::
    "'m pod_map_lib \<Rightarrow> 'd downstream_lib \<Rightarrow> (rx \<Rightarrow> string \<Rightarrow> bool) \<Rightarrow> string \<Rightarrow> ('m, 'd) service
      \<Rightarrow> (unit reply, 'm, 'd) handled" where
  "remove_container_call P D is_match ident sv =
     (if is_downstream sv ident then forget_if_ok ident (pass D (Pass_remove_container ident) sv)
      else with_container_id is_match ident (\<lambda>name. on_runtime (remove_container P name) ()) sv)"

definition list_containers_upstream ::
    "'m pod_map_lib \<Rightarrow> (rx \<Rightarrow> string \<Rightarrow> bool) \<Rightarrow> cri_filter option \<Rightarrow> ('m, 'd) service \<Rightarrow> (cri_container list, status) outcome" where
  "list_containers_upstream P is_match filt sv =
     (let filt = (case filt of None \<Rightarrow> default_filter | Some f \<Rightarrow> f);
          labels = cf_label_selector filt;
          states = (case cf_state filt of None \<Rightarrow> POD_STATES_CONTAINER_ALL | Some s \<Rightarrow> cri_container_state_to_pod_states s)
      in if length (cf_id filt) > 0 then
           (case parse_container_prefixed_name is_match (cf_id filt) of
              Ok name \<Rightarrow> Ok (get_container P (sv_runtime sv) name labels states to_cri_container [])
            | Err _ \<Rightarrow> Ok []
            | Panic \<Rightarrow> Panic
            | Out_of_fuel \<Rightarrow> Out_of_fuel)
         else Ok (list_containers P (sv_runtime sv) labels states to_cri_container []))"

definition list_containers_call ::
    "'m pod_map_lib \<Rightarrow> 'd downstream_lib \<Rightarrow> (rx \<Rightarrow> string \<Rightarrow> bool) \<Rightarrow> cri_filter option \<Rightarrow> ('m, 'd) service
      \<Rightarrow> (cri_container list, 'm, 'd) handled" where
  "list_containers_call P D is_match filt sv =
     (let (r, d) = ds_list_containers D filt (sv_downstream sv); sv = sv\<lparr>sv_downstream := d\<rparr>
      in (obind (tonic r) (\<lambda>items. obind (list_containers_upstream P is_match filt sv) (\<lambda>up. Ok (items @ up))), sv))"

definition container_status_call ::
    "'m pod_map_lib \<Rightarrow> 'd downstream_lib \<Rightarrow> (rx \<Rightarrow> string \<Rightarrow> bool) \<Rightarrow> string \<Rightarrow> ('m, 'd) service
      \<Rightarrow> (container_status reply, 'm, 'd) handled" where
  "container_status_call P D is_match ident sv =
     (if is_downstream sv ident then pass D (Pass_container_status ident) sv
      else with_container_id is_match ident
        (\<lambda>name sv. ((case rev (get_container P (sv_runtime sv) name [] POD_STATES_CONTAINER_ALL cri_container_status []) of
             [] \<Rightarrow> Err (Status_not_found (PodName_to_string name))
           | st # _ \<Rightarrow> Ok (Upstream st)), sv)) sv)"

section \<open>The other calls\<close>

text \<open>Calls on a container or pod sandbox that are not implemented for the Vimana runtime.\<close>

definition pass_or_todo :: "'d downstream_lib \<Rightarrow> (string \<Rightarrow> passed_request) \<Rightarrow> string \<Rightarrow> ('m, 'd) service \<Rightarrow> (unit reply, 'm, 'd) handled" where
  "pass_or_todo D call ident sv = (if is_downstream sv ident then pass D (call ident) sv else (Panic, sv))"

definition update_container_resources where "update_container_resources D = pass_or_todo D Pass_update_container_resources"
definition reopen_container_log where "reopen_container_log D = pass_or_todo D Pass_reopen_container_log"
definition exec_sync where "exec_sync D = pass_or_todo D Pass_exec_sync"
definition exec where "exec D = pass_or_todo D Pass_exec"
definition attach where "attach D = pass_or_todo D Pass_attach"
definition port_forward where "port_forward D = pass_or_todo D Pass_port_forward"
definition container_stats where "container_stats D = pass_or_todo D Pass_container_stats"
definition pod_sandbox_stats where "pod_sandbox_stats D = pass_or_todo D Pass_pod_sandbox_stats"
definition checkpoint_container where "checkpoint_container D = pass_or_todo D Pass_checkpoint_container"

text \<open>Calls on the whole runtime, answered downstream only.\<close>

definition list_container_stats :: "'d downstream_lib \<Rightarrow> ('m, 'd) service \<Rightarrow> (unit reply, 'm, 'd) handled" where
  "list_container_stats D = pass D Pass_list_container_stats"

definition list_pod_sandbox_stats :: "'d downstream_lib \<Rightarrow> ('m, 'd) service \<Rightarrow> (unit reply, 'm, 'd) handled" where
  "list_pod_sandbox_stats D = pass D Pass_list_pod_sandbox_stats"

definition update_runtime_config :: "'d downstream_lib \<Rightarrow> ('m, 'd) service \<Rightarrow> (unit reply, 'm, 'd) handled" where
  "update_runtime_config D = pass D Pass_update_runtime_config"

definition status_call :: "'d downstream_lib \<Rightarrow> ('m, 'd) service \<Rightarrow> (unit reply, 'm, 'd) handled" where
  "status_call D = pass D Pass_status"

definition list_metric_descriptors :: "'d downstream_lib \<Rightarrow> ('m, 'd) service \<Rightarrow> (unit reply, 'm, 'd) handled" where
  "list_metric_descriptors D = pass D Pass_list_metric_descriptors"

definition list_pod_sandbox_metrics :: "'d downstream_lib \<Rightarrow> ('m, 'd) service \<Rightarrow> (unit reply, 'm, 'd) handled" where
  "list_pod_sandbox_metrics D = pass D Pass_list_pod_sandbox_metrics"

definition runtime_config :: "'d downstream_lib \<Rightarrow> ('m, 'd) service \<Rightarrow> (unit reply, 'm, 'd) handled" where
  "runtime_config D = pass D Pass_runtime_config"

definition get_container_events :: "('m, 'd) service \<Rightarrow> (unit reply, 'm, 'd) handled" where
  "get_container_events sv = (Err (Status_todo ''GetContainerEvents TODO''), sv)"

definition update_pod_sandbox_resources :: "string \<Rightarrow> ('m, 'd) service \<Rightarrow> (unit reply, 'm, 'd) handled" where
  "update_pod_sandbox_resources ident sv = (Panic, sv)"

end
