(* ===== verification/Cri_Claims.thy ===== *)
theory Cri_Claims
  imports Cri_Runtime
begin

text \<open>
  What the CRI runtime service guarantees: requests reach the right one of the two runtimes (over all sequences of calls, for any
  downstream runtime that satisfies the locale \<open>downstream\<close>), the IDs it hands out lead back to the pods they name through the
  whole life cycle, and what the listings return.
\<close>

section \<open>The downstream runtime\<close>

text \<open>
  \<open>owns d\<close> are the IDs of the pod sandboxes and containers that exist downstream. New ones only come from the two
  calls that return them, and the unfiltered listings are complete.
\<close>

locale downstream =
  fixes D :: "'d downstream_lib" and owns :: "'d \<Rightarrow> string set"
  assumes run_owns: "ds_run_pod_sandbox D handler config d = (r, d') \<Longrightarrow> owns d' \<subseteq> owns d \<union> {i. r = Inr i}"
    and create_owns: "ds_create_container D i cconfig d = (r, d') \<Longrightarrow> owns d' \<subseteq> owns d \<union> {i. r = Inr i}"
    and list_pods_owns: "ds_list_pod_sandbox D filt d = (pods, d') \<Longrightarrow> owns d' \<subseteq> owns d"
    and list_containers_owns: "ds_list_containers D filt d = (containers, d') \<Longrightarrow> owns d' \<subseteq> owns d"
    and pass_owns: "ds_pass D req d = (reply, d') \<Longrightarrow> owns d' \<subseteq> owns d"
    and remove_pod_owns: "ds_pass D (Pass_remove_pod_sandbox i) d = (Inr n, d') \<Longrightarrow> i \<notin> owns d'"
    and remove_container_owns: "ds_pass D (Pass_remove_container i) d = (Inr n, d') \<Longrightarrow> i \<notin> owns d'"
    and listings_complete:
      "ds_list_pod_sandbox D None d = (Inr ps, d') \<Longrightarrow> ds_list_containers D None d' = (Inr cs, d'')
         \<Longrightarrow> owns d'' \<subseteq> ps_id ` set ps \<union> ct_id ` set cs"

text \<open>A model of such a runtime: the lists of what exists, and the number of the next ID.\<close>

record oci =
  oci_pods :: "pod_sandbox list"
  oci_containers :: "cri_container list"
  oci_next :: nat

definition oci_pod :: "string \<Rightarrow> pod_sandbox" where
  "oci_pod i = \<lparr>ps_id = i, ps_runtime_handler = [], ps_state = 0, ps_metadata = None, ps_created_at = 0,
     ps_labels = Mapping.empty, ps_annotations = Mapping.empty\<rparr>"

definition oci_container :: "string \<Rightarrow> string \<Rightarrow> cri_container" where
  "oci_container pod i = \<lparr>ct_id = i, ct_pod_sandbox_id = pod, ct_metadata = None, ct_image = None, ct_image_ref = [], ct_state = 0,
     ct_created_at = 0, ct_labels = Mapping.empty, ct_annotations = Mapping.empty, ct_image_id = []\<rparr>"

fun oci_pass :: "passed_request \<Rightarrow> oci \<Rightarrow> (status + passed_reply) \<times> oci" where
  "oci_pass (Pass_remove_pod_sandbox i) d =
     (Inr 0, d\<lparr>oci_pods := filter (\<lambda>p. ps_id p \<noteq> i) (oci_pods d),
              oci_containers := filter (\<lambda>c. ct_id c \<noteq> i \<and> ct_pod_sandbox_id c \<noteq> i) (oci_containers d)\<rparr>)"
| "oci_pass (Pass_remove_container i) d =
     (Inr 0, d\<lparr>oci_pods := filter (\<lambda>p. ps_id p \<noteq> i) (oci_pods d), oci_containers := filter (\<lambda>c. ct_id c \<noteq> i) (oci_containers d)\<rparr>)"
| "oci_pass req d = (Inr 0, d)"

definition oci_lib :: "oci downstream_lib" where
  "oci_lib =
     \<lparr>ds_run_pod_sandbox = (\<lambda>handler config d. let i = nat_decimal (oci_next d)
        in (Inr i, d\<lparr>oci_pods := oci_pod i # oci_pods d, oci_next := oci_next d + 1\<rparr>)),
      ds_create_container = (\<lambda>pod config d. let i = nat_decimal (oci_next d)
        in (Inr i, d\<lparr>oci_containers := oci_container pod i # oci_containers d, oci_next := oci_next d + 1\<rparr>)),
      ds_list_pod_sandbox = (\<lambda>filt d. (Inr (oci_pods d), d)),
      ds_list_containers = (\<lambda>filt d. (Inr (oci_containers d), d)),
      ds_pass = oci_pass\<rparr>"

definition oci_owns :: "oci \<Rightarrow> string set" where
  "oci_owns d = ps_id ` set (oci_pods d) \<union> ct_id ` set (oci_containers d)"

interpretation oci: downstream oci_lib oci_owns
proof
  fix req and d d' :: oci and reply
  assume "ds_pass oci_lib req d = (reply, d')"
  then show "oci_owns d' \<subseteq> oci_owns d" by (cases req) (auto simp: oci_lib_def oci_owns_def)
qed (auto simp: oci_lib_def oci_owns_def oci_pod_def oci_container_def Let_def)

section \<open>Sequences of calls\<close>

text \<open>A call with its arguments and with what the environment decides during it.\<close>

datatype service_call =
    Do_run_pod_sandbox string "pod_sandbox_config option" "pod_name \<Rightarrow> error_chain + ip_address" int
  | Do_stop_pod_sandbox string "error_chain + unit" "error_chain + unit"
  | Do_remove_pod_sandbox string
  | Do_pod_sandbox_status string int
  | Do_list_pod_sandbox "cri_filter option"
  | Do_create_container string "container_config option" int
  | Do_start_container string bool "future_ref \<Rightarrow> future_state" int
  | Do_stop_container string int
  | Do_remove_container string
  | Do_list_containers "cri_filter option"
  | Do_container_status string
  | Do_pass_or_todo "string \<Rightarrow> passed_request" string
  | Do_pass passed_request

fun serve ::
    "'m pod_map_lib \<Rightarrow> 'd downstream_lib \<Rightarrow> (rx \<Rightarrow> string \<Rightarrow> bool) \<Rightarrow> service_call \<Rightarrow> ('m, 'd) service \<Rightarrow> ('m, 'd) service" where
  "serve P D is_match (Do_run_pod_sandbox handler config ipam t) sv = snd (run_pod_sandbox P D is_match ipam t handler config sv)"
| "serve P D is_match (Do_stop_pod_sandbox i deactivated deallocated) sv = snd (stop_pod_sandbox P D is_match deactivated deallocated i sv)"
| "serve P D is_match (Do_remove_pod_sandbox i) sv = snd (remove_pod_sandbox P D is_match i sv)"
| "serve P D is_match (Do_pod_sandbox_status i t) sv = snd (pod_sandbox_status_call P D is_match t i sv)"
| "serve P D is_match (Do_list_pod_sandbox filt) sv = snd (list_pod_sandbox P D is_match filt sv)"
| "serve P D is_match (Do_create_container i config t) sv = snd (create_container_call P D is_match t i config sv)"
| "serve P D is_match (Do_start_container i bind finished t) sv = snd (start_container_call P D is_match bind finished t i sv)"
| "serve P D is_match (Do_stop_container i timeout) sv = snd (stop_container_call P D is_match i timeout sv)"
| "serve P D is_match (Do_remove_container i) sv = snd (remove_container_call P D is_match i sv)"
| "serve P D is_match (Do_list_containers filt) sv = snd (list_containers_call P D is_match filt sv)"
| "serve P D is_match (Do_container_status i) sv = snd (container_status_call P D is_match i sv)"
| "serve P D is_match (Do_pass_or_todo call i) sv = snd (pass_or_todo D call i sv)"
| "serve P D is_match (Do_pass req) sv = (snd (pass D req sv :: (unit reply, 'm, 'd) handled))"

text \<open>The ID a call is about, if it is about one.\<close>

fun call_id :: "service_call \<Rightarrow> string option" where
  "call_id (Do_stop_pod_sandbox i deactivated deallocated) = Some i"
| "call_id (Do_remove_pod_sandbox i) = Some i"
| "call_id (Do_pod_sandbox_status i t) = Some i"
| "call_id (Do_create_container i config t) = Some i"
| "call_id (Do_start_container i bind finished t) = Some i"
| "call_id (Do_stop_container i timeout) = Some i"
| "call_id (Do_remove_container i) = Some i"
| "call_id (Do_container_status i) = Some i"
| "call_id (Do_pass_or_todo call i) = Some i"
| "call_id call = None"

lemmas call_defs =
  stop_pod_sandbox_def remove_pod_sandbox_def pod_sandbox_status_call_def create_container_call_def start_container_call_def
  stop_container_call_def remove_container_call_def container_status_call_def pass_or_todo_def

lemmas upstream_defs = with_pod_id_def with_container_id_def on_runtime_def Let_def

lemma pass_runtime [simp]: "sv_runtime (snd (pass D req sv)) = sv_runtime sv" "sv_downstream_ids (snd (pass D req sv)) = sv_downstream_ids sv"
  by (simp_all add: pass_def split: prod.splits)

lemma forget_runtime [simp]: "sv_runtime (snd (forget_if_ok i h)) = sv_runtime (snd h)" "sv_downstream (snd (forget_if_ok i h)) = sv_downstream (snd h)"
  by (simp_all add: forget_if_ok_def split: prod.splits outcome.splits)

text \<open>A call on a downstream ID leaves the Vimana runtime alone, any other call on an ID leaves the downstream runtime alone.\<close>

lemma serve_isolated:
  assumes "call_id call = Some i"
  shows "is_downstream sv i \<Longrightarrow> sv_runtime (serve P D is_match call sv) = sv_runtime sv"
    and "\<not> is_downstream sv i \<Longrightarrow> sv_downstream (serve P D is_match call sv) = sv_downstream sv
      \<and> sv_downstream_ids (serve P D is_match call sv) = sv_downstream_ids sv"
proof -
  assume "is_downstream sv i"
  with assms show "sv_runtime (serve P D is_match call sv) = sv_runtime sv"
    by (cases call) (auto simp: call_defs Let_def split: prod.splits sum.splits)
next
  assume "\<not> is_downstream sv i"
  with assms show "sv_downstream (serve P D is_match call sv) = sv_downstream sv
      \<and> sv_downstream_ids (serve P D is_match call sv) = sv_downstream_ids sv"
    by (cases call) (auto simp: call_defs upstream_defs split: prod.splits sum.splits outcome.splits list.splits)
qed

inductive service_reachable ::
    "'m pod_map_lib \<Rightarrow> 'd downstream_lib \<Rightarrow> (rx \<Rightarrow> string \<Rightarrow> bool) \<Rightarrow> ('m, 'd) service \<Rightarrow> bool" for P D is_match where
  service_new: "ProxyingRuntimeService_new D (WorkRuntime_new P) d = Inr sv \<Longrightarrow> service_reachable P D is_match sv"
| service_call: "service_reachable P D is_match sv \<Longrightarrow> service_reachable P D is_match (serve P D is_match call sv)"

definition routed :: "('d \<Rightarrow> string set) \<Rightarrow> ('m, 'd) service \<Rightarrow> bool" where
  "routed owns sv \<longleftrightarrow> owns (sv_downstream sv) \<subseteq> sv_downstream_ids sv \<union> {i. \<not> starts_with i POD_PREFIX \<and> \<not> starts_with i CONTAINER_PREFIX}"

lemma routedI: "routed owns sv \<Longrightarrow> owns d \<subseteq> owns (sv_downstream sv) \<union> X \<Longrightarrow> sv_downstream sv' = d
    \<Longrightarrow> sv_downstream_ids sv \<union> X \<subseteq> sv_downstream_ids sv' \<Longrightarrow> routed owns sv'"
  by (auto simp: routed_def)

lemma foldl_insert: "foldl (\<lambda>ids x. insert (f x) ids) A xs = A \<union> f ` set xs"
  by (induction xs arbitrary: A) auto

context downstream
begin

lemma routed_new: "ProxyingRuntimeService_new D rt d = Inr sv \<Longrightarrow> routed owns sv"
  using listings_complete [of d]
  by (fastforce simp: ProxyingRuntimeService_new_def routed_def foldl_insert split: prod.splits sum.splits)

lemma pass_routed: "routed owns sv \<Longrightarrow> routed owns (snd (pass D req sv))"
  using pass_owns [of req "sv_downstream sv"] by (fastforce simp: pass_def routed_def split: prod.splits)

lemma forget_routed:
  assumes "routed owns sv" "\<And>n d'. ds_pass D req (sv_downstream sv) = (Inr n, d') \<Longrightarrow> i \<notin> owns d'"
  shows "routed owns (snd (forget_if_ok i (pass D req sv)))"
  using assms pass_owns [of req "sv_downstream sv"]
  by (fastforce simp: forget_if_ok_def pass_def routed_def split: prod.splits sum.splits)

lemma routed_same: "routed owns sv \<Longrightarrow> sv_downstream sv' = sv_downstream sv \<Longrightarrow> sv_downstream_ids sv' = sv_downstream_ids sv \<Longrightarrow> routed owns sv'"
  by (simp add: routed_def)

lemma run_routed: "routed owns sv \<Longrightarrow> routed owns (snd (run_pod_sandbox P D is_match ipam t handler config sv))"
  using run_owns [of handler config "sv_downstream sv"]
  by (fastforce simp: run_pod_sandbox_def routed_def Let_def split: prod.splits sum.splits if_splits)

lemma create_routed:
  assumes "routed owns sv" "is_downstream sv i"
  shows "routed owns (snd (create_container_call P D is_match t i config sv))"
  using assms create_owns [of i config "sv_downstream sv"]
  by (fastforce simp: create_container_call_def routed_def Let_def split: prod.splits sum.splits)

lemma list_routed:
  assumes "routed owns sv"
  shows "routed owns (snd (list_pod_sandbox P D is_match filt sv))" "routed owns (snd (list_containers_call P D is_match filt sv))"
  using assms list_pods_owns [of filt "sv_downstream sv"] list_containers_owns [of filt "sv_downstream sv"]
  by (fastforce simp: list_pod_sandbox_def list_containers_call_def routed_def Let_def split: prod.splits)+

lemma removed_routed:
  assumes "routed owns sv"
  shows "routed owns (snd (forget_if_ok i (pass D (Pass_remove_pod_sandbox i) sv)))"
    and "routed owns (snd (forget_if_ok i (pass D (Pass_remove_container i) sv)))"
  by (rule forget_routed [OF assms], erule remove_pod_owns) (rule forget_routed [OF assms], erule remove_container_owns)

lemma serve_routed:
  assumes "routed owns sv"
  shows "routed owns (serve P D is_match call sv)"
proof (cases "\<exists>i. call_id call = Some i \<and> \<not> is_downstream sv i")
  case True
  then show ?thesis using serve_isolated(2) [of call _ sv P D is_match] routed_same [OF assms] by blast
next
  case False
  then show ?thesis
  proof (cases call)
    case (Do_create_container i config t)
    with False show ?thesis by (simp add: create_routed [OF assms])
  qed (simp_all add: call_defs assms list_routed removed_routed pass_routed run_routed)
qed

theorem reachable_routed: "service_reachable P D is_match sv \<Longrightarrow> routed owns sv"
  by (induction rule: service_reachable.induct) (auto intro: routed_new serve_routed)

end

section \<open>Calls on IDs of the Vimana runtime\<close>

lemma is_downstream_ids [simp]:
  "is_downstream sv (pod_prefix n) \<longleftrightarrow> pod_prefix n \<in> sv_downstream_ids sv"
  "is_downstream sv (container_prefix n) \<longleftrightarrow> container_prefix n \<in> sv_downstream_ids sv"
  by (simp_all add: is_downstream_def pod_prefix_def container_prefix_def)

context regex_engine
begin

lemma with_ids [simp]:
  assumes "pod_wf is_match n"
  shows "with_pod_id is_match (pod_prefix n) f sv = f n sv" "with_container_id is_match (container_prefix n) f sv = f n sv"
  using assms by (simp_all add: with_pod_id_def with_container_id_def parse_pod_prefix parse_container_prefix)

lemma new_name_wf: "component_name_from_labels is_match labels = Inr c \<Longrightarrow> pod_wf is_match (PodName_new c k)"
  by (simp add: labels_wf pod_wf_def PodName_new_def)

end

lemma on_runtime_ok:
  assumes "f (sv_runtime sv) = (Inr (), rt)"
  shows "on_runtime f v sv = (Ok (Upstream v), sv\<lparr>sv_runtime := rt\<rparr>)"
  by (simp add: on_runtime_def assms log_error_def)

text \<open>The pod in the map, in a given state; a running one with its killer.\<close>

definition pod_at :: "'m pod_map_lib \<Rightarrow> pod_id \<Rightarrow> pod_state \<Rightarrow> 'm runtime \<Rightarrow> bool" where
  "pod_at P k s rt \<longleftrightarrow> (\<exists>p. pm_get P (rt_pods rt) k = Some p \<and> pod_state p = s
     \<and> (s = Created \<longrightarrow> (\<exists>f. pod_routes p = Some f \<and> rt_futures rt f = Pending))
     \<and> (s = Running \<longrightarrow> rt_cells rt (pod_killer p) \<noteq> None))"

context pod_map
begin

lemma listed:
  "set (list_containers P rt labels states f []) =
     {f (PodName_new (pod_component_name p) k) p | k p. pm_get P (rt_pods rt) k = Some p \<and> match_labels (container_labels p) labels \<and> pod_state p \<in> set states}"
proof -
  have "container_matches labels states p \<longleftrightarrow> match_labels (container_labels p) labels \<and> pod_state p \<in> set states" for p
    by (auto simp: container_matches_def match_labels_def list_all_iff)
  moreover have image: "(\<lambda>(k, p). g k p) ` {e \<in> A. Q (snd e)} = {g k p | k p. (k, p) \<in> A \<and> Q p}" for g :: "pod_id \<Rightarrow> pod \<Rightarrow> 'b" and A Q
    by force
  ultimately show ?thesis
    using image [of "\<lambda>k p. f (PodName_new (pod_component_name p) k) p" "set (pm_iter P (rt_pods rt))" "container_matches labels states"]
    by (simp add: list_containers_eq iter_set)
qed

lemma init_at:
  assumes "pm_get P (rt_pods rt) (rt_next_pod_id rt) = None"
  shows "\<exists>rt'. init_pod P c meta labels annotations (Inr ip) t rt = (Inr (PodName_new c (rt_next_pod_id rt)), rt')
    \<and> pod_at P (rt_next_pod_id rt) Initiated rt'"
  using assms by (simp add: init_pod_def init_pod_insert_def fetch_add_pod_id_def SingleUse_default_def pod_at_def initiated_pod_def get_insert)

lemma create_at:
  assumes "pod_at P (pn_pod n) Initiated rt"
  shows "\<exists>rt'. create_container P n meta labels annotations environment img t rt = (Inr (), rt') \<and> pod_at P (pn_pod n) Created rt'"
  using assms by (auto simp: pod_at_def create_container_def create_closure_def compute_def grpc_def get_insert)

lemma start_at:
  assumes "pod_at P (pn_pod n) Created rt" "\<And>f. \<exists>routes. finished f = Ready routes"
  shows "\<exists>rt'. start_container P n True finished t rt = (Inr (), rt') \<and> pod_at P (pn_pod n) Running rt'"
proof -
  from assms(1) obtain p f where p: "pm_get P (rt_pods rt) (pn_pod n) = Some p" "pod_state p = Created" "pod_routes p = Some f"
    "rt_futures rt f = Pending" by (auto simp: pod_at_def)
  moreover obtain routes where "finished f = Ready routes" using assms(2) by blast
  ultimately show ?thesis
    by (simp add: pod_at_def start_container_def start_container_without_wait_def start_claim_def start_closure_def compute_def
        complete_future_def start_finalize_def finalize_closure_def spawn_server_def SingleUse_of_def Let_def get_insert)
qed

lemma stop_at:
  assumes "pod_at P (pn_pod n) Running rt"
  shows "\<exists>rt'. stop_container P n rt = (Inr (), rt') \<and> pod_at P (pn_pod n) Stopped rt'"
  using assms
  by (auto simp: pod_at_def stop_container_def stop_container_without_wait_def stop_mark_def stop_closure_def compute_def take_killer_def
      kill_server_def get_insert)

lemma remove_at:
  assumes "pod_at P (pn_pod n) Stopped rt"
  shows "\<exists>rt'. remove_container P n rt = (Inr (), rt') \<and> pod_at P (pn_pod n) Removed rt'"
  using assms by (auto simp: pod_at_def remove_container_def remove_closure_def compute_def get_insert)

lemma kill_at:
  assumes "pod_at P (pn_pod n) Removed rt"
  shows "\<exists>rt'. kill_pod P n (Inr ()) (Inr ()) rt = (Inr (), rt') \<and> pod_at P (pn_pod n) Killed rt'"
  using assms
  by (auto simp: pod_at_def kill_pod_def kill_pod_without_wait_def kill_closure_def compute_def take_killer_def kill_server_def get_insert
      split: option.splits)

lemma delete_at:
  assumes "pod_at P (pn_pod n) Killed rt"
  shows "\<exists>rt'. delete_pod P n rt = (Inr (), rt') \<and> pm_get P (rt_pods rt') (pn_pod n) = None"
  using assms by (auto simp: pod_at_def delete_pod_def delete_closure_def compute_def get_remove)

end

section \<open>Guarantees\<close>

definition sample_service :: "((pod_id \<times> pod) list, oci) service" where
  "sample_service =
     \<lparr>sv_runtime = WorkRuntime_new alist_pods, sv_downstream = \<lparr>oci_pods = [], oci_containers = [], oci_next = 0\<rparr>, sv_downstream_ids = {}\<rparr>"

lemma sample_service_reachable: "service_reachable alist_pods oci_lib rx_matches sample_service"
  by (rule service_new [of _ _ "\<lparr>oci_pods = [], oci_containers = [], oci_next = 0\<rparr>"])
    (simp add: sample_service_def ProxyingRuntimeService_new_def oci_lib_def)



text \<open>
  A call about one pod sandbox or container acts on one of the two runtimes only: on a downstream ID it leaves every Vimana pod as it
  is, on any other ID it does not reach the downstream runtime and leaves the routing alone.
\<close>

theorem calls_isolated:
  assumes "call_id call = Some i"
  shows "if is_downstream sv i then sv_runtime (serve P D is_match call sv) = sv_runtime sv
    else sv_downstream (serve P D is_match call sv) = sv_downstream sv
      \<and> sv_downstream_ids (serve P D is_match call sv) = sv_downstream_ids sv"
  by (cases "is_downstream sv i") (simp_all add: serve_isolated [OF assms])

theorem calls_isolated_witness:
  "sv_downstream (serve alist_pods oci_lib rx_matches (Do_stop_pod_sandbox ''p-0'' (Inr ()) (Inr ())) sample_service)
     = sv_downstream sample_service"
proof -
  have "\<not> is_downstream sample_service ''p-0''" by (simp add: is_downstream_def sample_service_def starts_with_def POD_PREFIX_def)
  then show ?thesis
    using calls_isolated [of "Do_stop_pod_sandbox ''p-0'' (Inr ()) (Inr ())" "''p-0''" sample_service alist_pods oci_lib rx_matches] by simp
qed


definition sample_config :: pod_sandbox_config where
  "sample_config = default_sandbox_config\<lparr>psc_labels := Mapping.update LABEL_DOMAIN_KEY ''00102030405060708090a0b0c0d0e0f0''
     (Mapping.update LABEL_SERVER_KEY ''web-1'' (Mapping.update LABEL_VERSION_KEY ''1.0.2-rc'' Mapping.empty))\<rparr>"

lemma sample_config_component: "component_name_from_labels rx_matches (psc_labels sample_config) = Inr sample_component"
  by code_simp


text \<open>
  C40: Listing containers with a state in the filter returns the containers reported in that state, and none for \<^verbatim>\<open>CONTAINER_UNKNOWN\<close>.
  The filter \<^verbatim>\<open>CONTAINER_EXITED\<close> is the exception: it also returns every removed and killed pod, whose containers are reported as
  \<^verbatim>\<open>CONTAINER_UNKNOWN\<close> and which no listing without a state returns.
\<close>

theorem container_state_filter:
  assumes "pod_map P" "cf_id filt = []" "cf_state filt = Some (container_state_number st)"
  shows "\<exists>cs. list_containers_upstream P is_match (Some filt) sv = Ok cs \<and> set cs =
    {to_cri_container (PodName_new (pod_component_name p) k) p | k p.
       pm_get P (rt_pods (sv_runtime sv)) k = Some p \<and> match_labels (container_labels p) (cf_label_selector filt)
       \<and> (pod_state_to_cri_container_state (pod_state p) = st \<and> st \<noteq> ContainerUnknown
          \<or> st = ContainerExited \<and> pod_state p \<in> {Removed, Killed})}"
proof -
  have states: "pod_state p \<in> set (cri_container_state_to_pod_states (container_state_number st))
      \<longleftrightarrow> pod_state_to_cri_container_state (pod_state p) = st \<and> st \<noteq> ContainerUnknown
        \<or> st = ContainerExited \<and> pod_state p \<in> {Removed, Killed}" for p
    by (cases st; cases "pod_state p") (simp_all add: cri_container_state_to_pod_states_def pod_states_defs)
  show ?thesis
    by (simp add: list_containers_upstream_def assms(2,3) pod_map.listed [OF assms(1)] states)
qed

theorem container_state_filter_witness:
  "\<exists>cs. list_containers_upstream alist_pods rx_matches (Some \<lparr>cf_id = [], cf_state = Some 1, cf_label_selector = []\<rparr>)
      (sample_service\<lparr>sv_runtime := sample_running\<rparr>) = Ok cs \<and> to_cri_container sample_name sample_pod \<in> set cs"
proof -
  have sample: "pm_get alist_pods (rt_pods sample_running) 0 = Some sample_pod" "pod_state sample_pod = Running"
    "sample_name = PodName_new (pod_component_name sample_pod) 0"
    by (simp_all add: sample_stop_defs)
  let ?f = "\<lparr>cf_id = [], cf_state = Some 1, cf_label_selector = []\<rparr>"
  show ?thesis
    using container_state_filter [OF alist.pod_map_axioms, of ?f ContainerRunning rx_matches "sample_service\<lparr>sv_runtime := sample_running\<rparr>"]
    by (force simp: sample match_labels_def)
qed

text \<open>
  Listing with an ID in the filter panics exactly when the ID has a single byte or its third byte continues a character: the
  prefix is cut off without a check that it is there. Every other ID that is not a pod's gives an empty list.
\<close>

theorem list_panics_iff:
  "(list_pod_sandbox_upstream P is_match (Some filt) sv = Panic
     \<longleftrightarrow> length (cf_id filt) = 1 \<or> length (cf_id filt) > 2 \<and> of_char (cf_id filt ! 2) div 64 = (2 :: nat))
   \<and> (list_containers_upstream P is_match (Some filt) sv = Panic
     \<longleftrightarrow> length (cf_id filt) = 1 \<or> length (cf_id filt) > 2 \<and> of_char (cf_id filt ! 2) div 64 = (2 :: nat))"
  by (auto simp: list_pod_sandbox_upstream_def list_containers_upstream_def parse_pod_prefixed_name_def parse_container_prefixed_name_def
      str_slice_from_def Let_def simp del: length_greater_0_conv split: option.splits sum.splits if_splits)

end
