(* ===== verification/Container_Claims.thy ===== *)
theory Container_Claims
  imports Containers "HOL-Library.List_Lexorder" "HOL-Library.Char_ord"
begin

text \<open>
  What the container store guarantees: a pulled container can be read back and other components are left alone, and how the account of
  bytes and inodes relates to what is on disk.
\<close>

section \<open>What is on disk\<close>

fun node_len :: "node option \<Rightarrow> nat" where
  "node_len (Some (File bs)) = length bs"
| "node_len _ = 0"

definition entries :: "path \<Rightarrow> disk \<Rightarrow> path set" where
  "entries root d = {p \<in> dom (map_of d). strict_prefix root p}"

definition disk_bytes :: "path \<Rightarrow> disk \<Rightarrow> nat" where
  "disk_bytes root d = (\<Sum>p \<in> entries root d. node_len (map_of d p))"

definition disk_inodes :: "path \<Rightarrow> disk \<Rightarrow> nat" where
  "disk_inodes root d = card (entries root d)"

text \<open>How far the account is from the disk; both are 0 for an exact account.\<close>

definition bytes_drift :: "store \<Rightarrow> u64" where
  "bytes_drift st = fu_bytes (st_usage st) - of_nat (disk_bytes (st_root st) (st_disk st))"

definition inodes_drift :: "store \<Rightarrow> u64" where
  "inodes_drift st = fu_inodes (st_usage st) - of_nat (disk_inodes (st_root st) (st_disk st))"

lemma finite_entries [simp]: "finite (entries root d)"
  by (rule finite_subset [OF _ finite_dom_map_of [of d]]) (auto simp: entries_def)

lemma entries_update: "strict_prefix root p \<Longrightarrow> entries root (AList.update p n d) = insert p (entries root d)"
  by (auto simp: entries_def)

lemma entries_delete: "entries root (AList.delete p d) = entries root d - {p}"
  by (auto simp: entries_def)

lemma entries_mem: "strict_prefix root p \<Longrightarrow> p \<in> entries root d \<longleftrightarrow> map_of d p \<noteq> None"
  by (auto simp: entries_def)

lemma sum_changed:
  assumes "finite S" "p \<in> S \<or> f p = 0" "\<And>q. q \<noteq> p \<Longrightarrow> g q = f q"
  shows "(\<Sum>q \<in> insert p S. g q) + f p = (\<Sum>q \<in> S. f q) + (g p :: nat)"
proof -
  have "(\<Sum>q \<in> insert p S. g q) = g p + (\<Sum>q \<in> S - {p}. g q)" using assms(1) by (rule sum.insert_remove)
  also have "(\<Sum>q \<in> S - {p}. g q) = (\<Sum>q \<in> S - {p}. f q)" using assms(3) by (intro sum.cong) auto
  also have "(\<Sum>q \<in> S. f q) = f p + (\<Sum>q \<in> S - {p}. f q)"
    using assms(1,2) by (cases "p \<in> S") (simp_all add: sum.remove)
  ultimately show ?thesis by simp
qed

lemma disk_bytes_update:
  assumes "strict_prefix root p"
  shows "disk_bytes root (AList.update p n d) + node_len (map_of d p) = disk_bytes root d + node_len (Some n)"
  using sum_changed [of "entries root d" p "\<lambda>q. node_len (map_of d q)" "\<lambda>q. node_len (((map_of d)(p \<mapsto> n)) q)"] assms
  by (cases "map_of d p") (auto simp: disk_bytes_def entries_update entries_mem)

lemma disk_bytes_delete:
  assumes "strict_prefix root p"
  shows "disk_bytes root (AList.delete p d) + node_len (map_of d p) = disk_bytes root d"
proof (cases "p \<in> entries root d")
  case True
  have "(\<Sum>q \<in> entries root d - {p}. node_len (((map_of d)(p := None)) q)) = (\<Sum>q \<in> entries root d - {p}. node_len (map_of d q))"
    by (intro sum.cong) auto
  with True show ?thesis by (simp add: disk_bytes_def entries_delete sum.remove)
next
  case False
  then have "map_of d p = None" using assms by (simp add: entries_mem)
  moreover have "(map_of d)(p := None) = map_of d" using \<open>map_of d p = None\<close> by auto
  ultimately show ?thesis using False by (simp add: disk_bytes_def entries_delete)
qed

lemma disk_inodes_update:
  "strict_prefix root p \<Longrightarrow> disk_inodes root (AList.update p n d) = disk_inodes root d + (if map_of d p = None then 1 else 0)"
  by (simp add: disk_inodes_def entries_update entries_mem insert_absorb)

lemma disk_inodes_delete:
  "strict_prefix root p \<Longrightarrow> disk_inodes root (AList.delete p d) + (if map_of d p = None then 0 else 1) = disk_inodes root d"
  using card_Suc_Diff1 [of "entries root d" p] by (auto simp: disk_inodes_def entries_delete entries_mem)

section \<open>Directories\<close>

lemma dir_prefix: "disk_ok d \<Longrightarrow> is_dir d (p @ q) \<Longrightarrow> is_dir d p"
proof (induction q rule: rev_induct)
  case (snoc c q)
  then have "is_dir d (p @ q)" using disk_ok_child [OF snoc.prems(1), of "p @ q" c Dir] by (auto simp: is_dir_def)
  with snoc show ?case by blast
qed simp

lemma create_dirs_existing:
  "disk_ok d \<Longrightarrow> is_dir d (base @ xs) \<Longrightarrow> create_dirs base (xs @ ys) d = create_dirs (base @ xs) ys d"
proof (induction xs arbitrary: base)
  case (Cons x xs)
  then have "is_dir d (base @ [x])" using dir_prefix [of d "base @ [x]" xs] by simp
  with Cons.IH [of "base @ [x]"] Cons.prems show ?case by (simp add: is_dir_def)
qed simp

text \<open>Creating directories below an existing one: how many are new, and that nothing else changes.\<close>

fun missing :: "path \<Rightarrow> string list \<Rightarrow> disk \<Rightarrow> nat" where
  "missing base [] d = 0"
| "missing base (c # cs) d = (if map_of d (base @ [c]) = None then 1 else 0) + missing (base @ [c]) cs d"

lemma missing_update: "length q \<le> length base \<Longrightarrow> missing base cs (AList.update q n d) = missing base cs d"
  by (induction cs arbitrary: base) auto

lemma create_dirs_effect:
  assumes "create_dirs base cs d = (Inr (), d')" "disk_ok d" "is_dir d base" "prefix root base"
  shows "disk_ok d' \<and> is_dir d' (base @ cs) \<and> disk_bytes root d' = disk_bytes root d
    \<and> disk_inodes root d' = disk_inodes root d + missing base cs d
    \<and> (\<forall>p. length p > length (base @ cs) \<longrightarrow> map_of d' p = map_of d p)"
  using assms
proof (induction cs arbitrary: base d)
  case (Cons c cs)
  let ?p = "base @ [c]"
  have below: "strict_prefix root ?p" "prefix root ?p" using Cons.prems(4) by (auto simp: prefix_def strict_prefix_def)
  show ?case
  proof (cases "map_of d ?p")
    case None
    let ?d = "AList.update ?p Dir d"
    have new: "create_dirs ?p cs ?d = (Inr (), d')" "is_dir ?d ?p" using Cons.prems(1) None by (auto simp: is_dir_def)
    have "disk_ok ?d" using disk_ok_insert [OF Cons.prems(2,3)] None by blast
    from Cons.IH [OF new(1) this new(2) below(2)] show ?thesis
      using None disk_bytes_update [OF below(1), of Dir d] disk_inodes_update [OF below(1), of Dir d] by (auto simp: missing_update)
  next
    case (Some n)
    then have dir: "create_dirs ?p cs d = (Inr (), d')" "is_dir d ?p" using Cons.prems(1) by (auto simp: is_dir_def split: node.splits)
    from Cons.IH [OF dir(1) Cons.prems(2) dir(2) below(2)] Some show ?thesis by auto
  qed
qed (simp add: assms)

section \<open>Pulling\<close>

text \<open>The root directory exists.\<close>

definition store_ok :: "store \<Rightarrow> bool" where
  "store_ok st \<longleftrightarrow> disk_ok (st_disk st) \<and> is_dir (st_disk st) (st_root st)"

lemma create_file_Inr:
  "create_file env call p d = (Inr u, d') \<longleftrightarrow>
     io_fault env call = None \<and> \<not> is_dir d p \<and> is_dir d (butlast p) \<and> d' = AList.update p (File []) d"
  by (auto simp: create_file_def split: option.splits if_splits)

lemma write_all_Inr: "write_all env call p bs d = (Inr u, d') \<longleftrightarrow> io_fault env call = None \<and> d' = append_file p bs d"
  by (auto simp: write_all_def split: option.splits)

lemma sync_all_Inr: "sync_all env call d = (Inr u, d') \<longleftrightarrow> io_fault env call = None \<and> d' = d"
  by (auto simp: sync_all_def split: option.splits)

lemma create_dir_all_Inr:
  "create_dir_all env call p d = (Inr u, d') \<longleftrightarrow> io_fault env call = None \<and> create_dirs [] p d = (Inr u, d')"
  by (auto simp: create_dir_all_def split: option.splits)

lemma append_file_new [simp]: "map_of d p = Some (File old) \<Longrightarrow> append_file p bs d = AList.update p (File (old @ bs)) d"
  by (simp add: append_file_def)

lemma is_dir_update [simp]: "q \<noteq> p \<Longrightarrow> is_dir (AList.update p n d) q = is_dir d q"
  by (simp add: is_dir_def)

lemmas io_Inr = create_file_Inr write_all_Inr sync_all_Inr create_dir_all_Inr

lemma missing_new_inodes:
  assumes "store_ok st"
  shows "fst (new_inodes st name) = of_nat (missing (st_root st) [DomainUuid_to_string (sn_domain (cn_server name)), sn_server (cn_server name), cn_version name] (st_disk st))"
proof -
  let ?r = "st_root st" and ?d = "st_disk st"
  define a b c where names: "a = DomainUuid_to_string (sn_domain (cn_server name))" "b = sn_server (cn_server name)" "c = cn_version name"
  have "disk_ok ?d" using assms by (simp add: store_ok_def)
  then have below: "map_of ?d (?r @ [a]) = None \<Longrightarrow> map_of ?d (?r @ [a, b]) = None"
    "map_of ?d (?r @ [a, b]) = None \<Longrightarrow> map_of ?d (?r @ [a, b, c]) = None"
    using nothing_below [of ?d "?r @ [a]" "[b]"] nothing_below [of ?d "?r @ [a, b]" "[c]"] by auto
  then show ?thesis
    by (auto simp: new_inodes_def component_path_def exists_path_def butlast_append Let_def simp flip: names)
qed

lemma pull_blocking_ok:
  assumes "pull_blocking env name component meta spec st = (Inr (), st')"
  obtains d where "create_dirs [] (component_path st name) (st_disk st) = (Inr (), d)"
    "\<not> is_dir d (container_path st name)" "\<not> is_dir d (image_spec_path st name)"
    "map_of (st_disk st') = (map_of d)(container_path st name \<mapsto> File (to_le_bytes (of_nat (length component)) @ component @ meta),
       image_spec_path st name \<mapsto> File spec)"
    "st_root st' = st_root st" "st_poisoned st' = st_poisoned st" "st_insecure_registries st' = st_insecure_registries st"
    "st_usage st' = \<lparr>fu_bytes = fu_bytes (st_usage st) + of_nat (8 + length component + length meta + length spec),
       fu_inodes = fu_inodes (st_usage st) + fst (new_inodes st name) + fst (snd (new_inodes st name)) + snd (snd (new_inodes st name))\<rparr>"
proof -
  obtain a b c where new: "new_inodes st name = (a, b, c)" by (cases "new_inodes st name") auto
  show thesis
    using assms
    by (auto simp: pull_blocking_def locked_def new step_Inr io_Inr count_inodes_def count_bytes_def Let_def algebra_simps
        split: if_splits intro!: that)
qed

text \<open>The files of one component are below its directory, and well-formed names have their own.\<close>

lemma component_path_inject:
  assumes "domain_wf (sn_domain (cn_server n))" "domain_wf (sn_domain (cn_server n'))" "component_path st n = component_path st n'"
  shows "n = n'"
proof -
  have "sn_domain (cn_server n) = sn_domain (cn_server n')"
    using assms DomainUuid_parse_to_string by (metis append_same_eq component_path_def list.inject sum.inject(2) same_append_eq)
  with assms(3) show ?thesis by (simp add: component_path_def)
qed

lemma other_paths:
  assumes "domain_wf (sn_domain (cn_server n))" "domain_wf (sn_domain (cn_server n'))" "n \<noteq> n'"
  shows "container_path st n' \<noteq> container_path st n" "image_spec_path st n' \<noteq> image_spec_path st n"
  using component_path_inject [OF assms(1,2), of st] assms(3) by (auto simp: container_path_def image_spec_path_def)

lemma strict_paths:
  "strict_prefix (st_root st) (container_path st name)" "strict_prefix (st_root st) (image_spec_path st name)"
  "strict_prefix (st_root st) (component_path st name)" "strict_prefix (st_root st) (butlast (component_path st name))"
  "strict_prefix (st_root st) (butlast (butlast (component_path st name)))"
  by (simp_all add: container_path_def image_spec_path_def component_path_def butlast_append strict_prefix_def)

lemma disk_cong:
  assumes "map_of d = map_of d'"
  shows "disk_bytes root d = disk_bytes root d'" "disk_inodes root d = disk_inodes root d'" "disk_ok d = disk_ok d'" "is_dir d = is_dir d'"
  using assms by (auto simp: disk_bytes_def disk_inodes_def entries_def disk_ok_def is_dir_def)

text \<open>The bytes that a pull truncates away.\<close>

definition replaced_bytes :: "store \<Rightarrow> component_name \<Rightarrow> nat" where
  "replaced_bytes st name =
     node_len (map_of (st_disk st) (container_path st name)) + node_len (map_of (st_disk st) (image_spec_path st name))"

lemma file_new_inodes:
  assumes "store_ok st"
  shows "snd (new_inodes st name) = (if map_of (st_disk st) (container_path st name) = None then 1 else 0,
    if map_of (st_disk st) (image_spec_path st name) = None then 1 else 0)"
proof -
  have "component_path st name \<noteq> []" by (simp add: component_path_def)
  with assms have "map_of (st_disk st) (component_path st name) = None \<Longrightarrow> map_of (st_disk st) (component_path st name @ q) = None" for q
    using nothing_below by (simp add: store_ok_def)
  then show ?thesis
    by (auto simp: new_inodes_def exists_path_def container_path_def image_spec_path_def component_path_def Let_def)
qed

lemma disk_ok_files:
  assumes "disk_ok d" "is_dir d p" "\<not> is_dir d (p @ [c])"
  shows "disk_ok (AList.update (p @ [c]) (File bs) d)"
proof (cases "map_of d (p @ [c])")
  case (Some n)
  with assms(3) obtain old where "map_of d (p @ [c]) = Some (File old)" by (cases n) (auto simp: is_dir_def)
  with assms(1,2) show ?thesis by (intro disk_ok_insert) auto
qed (use assms disk_ok_insert in blast)

lemma pull_effect:
  assumes "pull_blocking env name component meta spec st = (Inr (), st')" "store_ok st"
  shows "store_ok st' \<and> bytes_drift st' = bytes_drift st + of_nat (replaced_bytes st name) \<and> inodes_drift st' = inodes_drift st
    \<and> map_of (st_disk st') (container_path st name) = Some (File (to_le_bytes (of_nat (length component)) @ component @ meta))
    \<and> map_of (st_disk st') (image_spec_path st name) = Some (File spec) \<and> st_root st' = st_root st
    \<and> (\<forall>p. length p > length (component_path st name) \<longrightarrow> p \<noteq> container_path st name \<longrightarrow> p \<noteq> image_spec_path st name
           \<longrightarrow> map_of (st_disk st') p = map_of (st_disk st) p)"
  using assms(1)
proof (rule pull_blocking_ok)
  fix d
  let ?c = "container_path st name" and ?i = "image_spec_path st name" and ?p = "component_path st name" and ?r = "st_root st"
  let ?file = "File (to_le_bytes (of_nat (length component)) @ component @ meta)"
  let ?d1 = "AList.update ?c ?file d"
  let ?d2 = "AList.update ?i (File spec) ?d1"
  assume dirs: "create_dirs [] ?p (st_disk st) = (Inr (), d)" and nodir: "\<not> is_dir d ?c" "\<not> is_dir d ?i"
    and disk: "map_of (st_disk st') = (map_of d)(?c \<mapsto> ?file, ?i \<mapsto> File spec)" and root: "st_root st' = ?r"
    and usage: "st_usage st' = \<lparr>fu_bytes = fu_bytes (st_usage st) + of_nat (8 + length component + length meta + length spec),
       fu_inodes = fu_inodes (st_usage st) + fst (new_inodes st name) + fst (snd (new_inodes st name)) + snd (snd (new_inodes st name))\<rparr>"
  have same: "map_of (st_disk st') = map_of ?d2" by (simp add: disk)
  have ok: "disk_ok (st_disk st)" "is_dir (st_disk st) ?r" using assms(2) by (auto simp: store_ok_def)
  have dirs': "create_dirs ?r [DomainUuid_to_string (sn_domain (cn_server name)), sn_server (cn_server name), cn_version name] (st_disk st) = (Inr (), d)"
    using dirs create_dirs_existing [OF ok(1), of "[]" ?r] ok(2) by (simp add: component_path_def)
  note eff = create_dirs_effect [OF dirs' ok prefix_order.refl]
  have frame: "length p > length ?p \<Longrightarrow> map_of d p = map_of (st_disk st) p" for p
    using eff by (simp add: component_path_def)
  have dir: "disk_ok d" "is_dir d ?p" "is_dir d ?r" using eff dir_prefix [of d ?r] by (auto simp: component_path_def)
  have old: "map_of d ?c = map_of (st_disk st) ?c" "map_of d ?i = map_of (st_disk st) ?i"
    by (auto intro!: frame simp: container_path_def image_spec_path_def)
  have files: "?c = ?p @ [CONTAINER_FILENAME]" "?i = ?p @ [IMAGE_SPEC_FILENAME]" by (simp_all add: container_path_def image_spec_path_def)
  have "disk_ok ?d1" using disk_ok_files [OF dir(1,2)] nodir(1) unfolding files by blast
  moreover have keep: "is_dir ?d1 ?p" "is_dir ?d2 ?r" "\<not> is_dir ?d1 ?i" using dir(2,3) nodir
    by (auto simp: container_path_def image_spec_path_def component_path_def is_dir_def)
  ultimately have "disk_ok ?d2" using disk_ok_files [of ?d1 ?p IMAGE_SPEC_FILENAME spec] files(2) by simp
  then have store: "store_ok st'" using keep(2) disk_cong [OF same] by (simp add: store_ok_def root)
  have "disk_bytes ?r ?d2 + replaced_bytes st name = disk_bytes ?r (st_disk st) + (8 + length component + length meta + length spec)"
    using disk_bytes_update [OF strict_paths(1) [of st name], where d = d and n = ?file] disk_bytes_update [OF strict_paths(2) [of st name], where d = ?d1 and n = "File spec"]
      eff old by (simp add: replaced_bytes_def)
  then have "(of_nat (disk_bytes ?r ?d2) :: u64) + of_nat (replaced_bytes st name)
      = of_nat (disk_bytes ?r (st_disk st)) + of_nat (8 + length component + length meta + length spec)"
    by (metis of_nat_add)
  then have bytes: "bytes_drift st' = bytes_drift st + of_nat (replaced_bytes st name)"
    by (simp add: bytes_drift_def root usage disk_cong [OF same] algebra_simps)
  have "inodes_drift st' = inodes_drift st"
    using disk_inodes_update [OF strict_paths(1) [of st name], where d = d and n = ?file]
      disk_inodes_update [OF strict_paths(2) [of st name], where d = ?d1 and n = "File spec"] eff old
    by (simp add: inodes_drift_def root usage disk_cong [OF same] missing_new_inodes [OF assms(2)] file_new_inodes [OF assms(2)])
  with store bytes frame show ?thesis by (simp add: disk root)
qed

text \<open>Without input and output errors, a pull succeeds unless something of the wrong kind is in the way.\<close>

definition free_for :: "store \<Rightarrow> component_name \<Rightarrow> bool" where
  "free_for st name \<longleftrightarrow>
     (let p = component_path st name; d = st_disk st
      in (\<forall>q \<in> {p, butlast p, butlast (butlast p)}. map_of d q = None \<or> map_of d q = Some Dir)
         \<and> map_of d (container_path st name) \<noteq> Some Dir \<and> map_of d (image_spec_path st name) \<noteq> Some Dir)"

lemma create_dirs_succeeds:
  assumes "map_of d (base @ [x]) \<in> {None, Some Dir}" "map_of d (base @ [x, y]) \<in> {None, Some Dir}"
    and "map_of d (base @ [x, y, z]) \<in> {None, Some Dir}"
  shows "\<exists>d'. create_dirs base [x, y, z] d = (Inr (), d')"
  using assms by (auto split: option.splits)

lemma pull_blocking_succeeds:
  assumes "store_ok st" "\<not> st_poisoned st" "\<forall>call. io_fault env call = None" "free_for st name"
  shows "\<exists>st'. pull_blocking env name component meta spec st = (Inr (), st')"
proof -
  let ?c = "container_path st name" and ?i = "image_spec_path st name" and ?p = "component_path st name" and ?r = "st_root st"
  have ok: "disk_ok (st_disk st)" "is_dir (st_disk st) ?r" using assms(1) by (auto simp: store_ok_def)
  obtain d where dirs: "create_dirs ?r [DomainUuid_to_string (sn_domain (cn_server name)), sn_server (cn_server name), cn_version name] (st_disk st) = (Inr (), d)"
    using create_dirs_succeeds [of "st_disk st" ?r] assms(4) by (fastforce simp: free_for_def component_path_def butlast_append Let_def)
  then have "create_dirs [] ?p (st_disk st) = (Inr (), d)"
    using create_dirs_existing [OF ok(1), of "[]" ?r] ok(2) by (simp add: component_path_def)
  moreover from create_dirs_effect [OF dirs ok prefix_order.refl]
  have "is_dir d ?p" "map_of d ?c = map_of (st_disk st) ?c" "map_of d ?i = map_of (st_disk st) ?i"
    by (simp_all add: component_path_def container_path_def image_spec_path_def)
  moreover have "?c \<noteq> []" "?i \<noteq> []" "?p \<noteq> ?c" by (simp_all add: container_path_def image_spec_path_def)
  moreover obtain x y z where "new_inodes st name = (x, y, z)" by (cases "new_inodes st name") auto
  ultimately show ?thesis
    using assms(2-4)
    by (simp add: pull_blocking_def locked_def Let_def andThen_def on_disk_def create_dir_all_def create_file_def write_all_def sync_all_def
        count_inodes_def count_bytes_def is_dir_def free_for_def)
qed

section \<open>Removing\<close>

definition keeps :: "path set \<Rightarrow> store \<Rightarrow> store \<Rightarrow> bool" where
  "keeps P st st' \<longleftrightarrow> st_root st' = st_root st \<and> (\<forall>q. q \<notin> P \<longrightarrow> map_of (st_disk st') q = map_of (st_disk st) q)
     \<and> map_of (st_disk st') \<subseteq>\<^sub>m map_of (st_disk st)
     \<and> (store_ok st \<longrightarrow> store_ok st' \<and> bytes_drift st' = bytes_drift st \<and> inodes_drift st' = inodes_drift st)"

lemma keeps_refl [simp]: "keeps P st st"
  by (simp add: keeps_def)

lemma keeps_trans: "keeps P st st1 \<Longrightarrow> keeps Q st1 st2 \<Longrightarrow> P \<union> Q \<subseteq> R \<Longrightarrow> keeps R st st2"
  unfolding keeps_def by (smt (verit, ccfv_threshold) UnCI subsetD map_le_trans)

lemma andThen_assoc: "andThen (andThen m f) g = andThen m (\<lambda>x. andThen (f x) g)"
  by (rule ext) (auto simp: andThen_def split: prod.splits sum.splits)

lemma andThen_keeps:
  assumes "keeps P st (snd (m st))" "\<And>v st1. m st = (Inr v, st1) \<Longrightarrow> keeps Q st1 (snd (f v st1))" "P \<union> Q \<subseteq> R"
  shows "keeps R st (snd (andThen m f st))"
  using assms by (auto simp: andThen_def intro: keeps_trans split: prod.splits sum.splits)

text \<open>Deleting an entry that holds nothing, with its share of the account.\<close>

lemma delete_keeps:
  assumes "strict_prefix (st_root st) p" "map_of (st_disk st) p = Some n" "\<not> has_entries (st_disk st) p \<or> n \<noteq> Dir"
  shows "keeps {p} st (st\<lparr>st_disk := AList.delete p (st_disk st),
     st_usage := \<lparr>fu_bytes = fu_bytes (st_usage st) - of_nat (node_len (Some n)), fu_inodes = fu_inodes (st_usage st) - 1\<rparr>\<rparr>)"
proof -
  let ?d = "AList.delete p (st_disk st)"
  have "(of_nat (disk_bytes (st_root st) ?d + node_len (Some n)) :: u64) = of_nat (disk_bytes (st_root st) (st_disk st))"
    "(of_nat (disk_inodes (st_root st) ?d + 1) :: u64) = of_nat (disk_inodes (st_root st) (st_disk st))"
    using disk_bytes_delete [OF assms(1), of "st_disk st"] disk_inodes_delete [OF assms(1), of "st_disk st"] assms(2) by simp_all
  then have account: "(of_nat (disk_bytes (st_root st) (st_disk st)) :: u64) = of_nat (disk_bytes (st_root st) ?d) + of_nat (node_len (Some n))"
    "(of_nat (disk_inodes (st_root st) (st_disk st)) :: u64) = of_nat (disk_inodes (st_root st) ?d) + 1"
    by (simp_all add: add.commute)
  have "store_ok st \<Longrightarrow> disk_ok ?d"
    using assms(2,3) disk_ok_delete file_no_entries [of "st_disk st" p] by (cases n) (auto simp: store_ok_def)
  moreover have "is_dir (st_disk st) (st_root st) \<Longrightarrow> is_dir ?d (st_root st)"
    using assms(1) by (auto simp: is_dir_def)
  ultimately show ?thesis
    using account by (auto simp: keeps_def store_ok_def bytes_drift_def inodes_drift_def map_le_def)
qed

definition remove_stage ::
    "io_env \<Rightarrow> io_call \<Rightarrow> io_call \<Rightarrow> (io_error \<Rightarrow> store_error) \<Rightarrow> (io_error \<Rightarrow> store_error) \<Rightarrow> path \<Rightarrow> unit step" where
  "remove_stage env stat_call remove_call ctx1 ctx2 p =
     andThen (read_disk ctx1 (metadata_len env stat_call p)) (\<lambda>len.
     andThen (on_disk ctx2 (remove_file env remove_call p)) (\<lambda>_. andThen (count_bytes (- len)) (\<lambda>_. count_inodes (- 1))))"

lemma usage_fields: "u\<lparr>fu_bytes := b, fu_inodes := i\<rparr> = \<lparr>fu_bytes = b, fu_inodes = i\<rparr>" "u\<lparr>fu_inodes := i\<rparr> = \<lparr>fu_bytes = fu_bytes u, fu_inodes = i\<rparr>"
  for u :: filesystem_usage
  by (cases u; simp)+

lemma remove_stage_keeps:
  assumes "strict_prefix (st_root st) p"
  shows "keeps {p} st (snd (remove_stage env stat_call remove_call ctx1 ctx2 p st))"
proof (cases "map_of (st_disk st) p")
  case (Some n)
  then show ?thesis
    using delete_keeps [OF assms Some]
    by (cases n) (auto simp: remove_stage_def andThen_def read_disk_def on_disk_def metadata_len_def remove_file_def count_bytes_def
        count_inodes_def usage_fields split: option.splits)
qed (auto simp: remove_stage_def andThen_def read_disk_def on_disk_def metadata_len_def remove_file_def split: option.splits)

lemma remove_dirs_keeps: "\<forall>p \<in> set ps. strict_prefix (st_root st) p \<Longrightarrow> keeps (set ps) st (remove_dirs env ps st)"
proof (induction ps arbitrary: st)
  case (Cons p ps)
  let ?st = "st\<lparr>st_disk := AList.delete p (st_disk st),
     st_usage := \<lparr>fu_bytes = fu_bytes (st_usage st), fu_inodes = fu_inodes (st_usage st) - 1\<rparr>\<rparr>"
  have "remove_dirs env (p # ps) st = st \<or> map_of (st_disk st) p = Some Dir \<and> \<not> has_entries (st_disk st) p
      \<and> remove_dirs env (p # ps) st = remove_dirs env ps ?st"
    by (auto simp: on_disk_def remove_dir_def count_inodes_def usage_fields split: option.splits node.splits if_splits prod.splits)
  then consider (stays) "remove_dirs env (p # ps) st = st"
    | (goes) "map_of (st_disk st) p = Some Dir" "\<not> has_entries (st_disk st) p" "remove_dirs env (p # ps) st = remove_dirs env ps ?st"
    by blast
  then show ?case
  proof cases
    case goes
    have "keeps {p} st ?st" using delete_keeps [of st p Dir] Cons.prems goes by simp
    moreover have "keeps (set ps) ?st (remove_dirs env ps ?st)" using Cons by simp
    ultimately show ?thesis unfolding goes(3) by (rule keeps_trans) simp
  qed simp
qed simp

abbreviation removed_paths :: "store \<Rightarrow> component_name \<Rightarrow> path set" where
  "removed_paths st name \<equiv>
     {container_path st name, image_spec_path st name, component_path st name, butlast (component_path st name),
      butlast (butlast (component_path st name))}"

lemma remove_stage_root: "remove_stage env stat_call remove_call ctx1 ctx2 p st = (r, st') \<Longrightarrow> st_root st' = st_root st"
  by (auto simp: remove_stage_def andThen_def read_disk_def on_disk_def count_bytes_def count_inodes_def split: prod.splits sum.splits)

lemma remove_keeps: "keeps (removed_paths st name) st (snd (remove_image_files env name st))"
proof -
  let ?p = "component_path st name" and ?c = "container_path st name" and ?i = "image_spec_path st name"
  let ?ps = "[?p, butlast ?p, butlast (butlast ?p)]"
  let ?stage_c = "remove_stage env Stat_container Remove_container_file (Io_at ''Failed to get metadata for container file'' ?c)
    (Io_at ''Failed removing container file'' ?c) ?c"
  let ?stage_i = "remove_stage env Stat_image_spec Remove_image_spec_file (Io_at ''Failed to get metadata for image spec file'' ?i)
    (Io_at ''Failed removing image spec file'' ?i) ?i"
  have dirs: "keeps (set ?ps) st2 (snd (Inr (), remove_dirs env ?ps st2))" if "st_root st2 = st_root st" for st2
    using that strict_paths [of st name] remove_dirs_keeps [of ?ps st2 env] by simp
  have files: "keeps ({?i} \<union> set ?ps) st1 (snd (andThen ?stage_i (\<lambda>_ st. (Inr (), remove_dirs env ?ps st)) st1))"
    if "st_root st1 = st_root st" for st1
  proof (rule andThen_keeps [where P = "{?i}" and Q = "set ?ps"])
    show "keeps {?i} st1 (snd (?stage_i st1))" using that strict_paths(2) [of st name] by (intro remove_stage_keeps) simp
  qed (use that dirs remove_stage_root in \<open>fastforce, blast\<close>)
  have "keeps (removed_paths st name) st (snd (andThen ?stage_c (\<lambda>_. andThen ?stage_i (\<lambda>_ st. (Inr (), remove_dirs env ?ps st))) st))"
  proof (rule andThen_keeps [where P = "{?c}" and Q = "{?i} \<union> set ?ps"])
    show "keeps {?c} st (snd (?stage_c st))" using strict_paths(1) by (rule remove_stage_keeps)
    show "keeps ({?i} \<union> set ?ps) st1 (snd (andThen ?stage_i (\<lambda>_ st. (Inr (), remove_dirs env ?ps st)) st1))"
      if "?stage_c st = (Inr v, st1)" for v st1 using that by (intro files remove_stage_root)
  qed auto
  then show ?thesis
    by (simp add: remove_image_files_def locked_def Let_def remove_stage_def andThen_assoc del: remove_dirs.simps)
qed

lemma smaller_disk:
  assumes "map_of d' \<subseteq>\<^sub>m map_of d"
  shows "disk_bytes root d' \<le> disk_bytes root d" "disk_inodes root d' \<le> disk_inodes root d"
proof -
  have sub: "entries root d' \<subseteq> entries root d" using assms by (auto simp: entries_def map_le_def dom_def)
  then show "disk_inodes root d' \<le> disk_inodes root d" by (simp add: disk_inodes_def card_mono)
  have "map_of d' p = map_of d p" if "p \<in> entries root d'" for p using assms that by (auto simp: entries_def map_le_def)
  then have "disk_bytes root d' = (\<Sum>p \<in> entries root d'. node_len (map_of d p))" by (simp add: disk_bytes_def)
  also have "\<dots> \<le> disk_bytes root d" unfolding disk_bytes_def by (rule sum_mono2) (use sub in auto)
  finally show "disk_bytes root d' \<le> disk_bytes root d" .
qed

lemma remove_file_Inr:
  "remove_file env call p d = (Inr u, d') \<longleftrightarrow>
     io_fault env call = None \<and> (\<exists>bs. map_of d p = Some (File bs)) \<and> d' = AList.delete p d"
  by (auto simp: remove_file_def split: option.splits node.splits)

lemma metadata_len_Inr:
  "metadata_len env call p d = Inr n \<longleftrightarrow> io_fault env call = None \<and>
     (case map_of d p of
        None \<Rightarrow> p = [] \<and> n = of_nat (io_dir_len env)
      | Some Dir \<Rightarrow> n = of_nat (io_dir_len env)
      | Some (File bs) \<Rightarrow> n = of_nat (length bs))"
  by (auto simp: metadata_len_def split: option.splits node.splits)

lemma remove_dirs_bytes: "fu_bytes (st_usage (remove_dirs env ps st)) = fu_bytes (st_usage st)"
  by (induction ps arbitrary: st) (auto simp: on_disk_def count_inodes_def split: prod.splits sum.splits)

lemma remove_ok_bytes:
  assumes "remove_image_files env name st = (Inr (), st')"
  shows "fu_bytes (st_usage st') = fu_bytes (st_usage st) - of_nat (replaced_bytes st name)"
  using assms
  by (auto simp: remove_image_files_def locked_def step_Inr remove_file_Inr metadata_len_Inr count_bytes_def count_inodes_def replaced_bytes_def
      remove_dirs_bytes Let_def simp del: remove_dirs.simps split: if_splits)

lemma remove_succeeds:
  assumes "\<not> st_poisoned st" "\<forall>call. io_fault env call = None"
    and "map_of (st_disk st) (container_path st name) = Some (File a)" "map_of (st_disk st) (image_spec_path st name) = Some (File b)"
  shows "\<exists>st'. remove_image_files env name st = (Inr (), st')"
  using assms
  by (simp add: remove_image_files_def locked_def Let_def andThen_def on_disk_def read_disk_def remove_file_def metadata_len_def
      count_inodes_def count_bytes_def del: remove_dirs.simps)

section \<open>A reference library\<close>

text \<open>
  Components and metadata are their bytes. An image spec is written as its texts, each character after a byte 1 and each text closed with
  a byte 0: image, user-specified image, handler and the annotations by key.
\<close>

definition put_text :: "string \<Rightarrow> bytes" where
  "put_text s = concat (map (\<lambda>c. [1, u8_of_char c]) s) @ [0]"

fun get_texts :: "string \<Rightarrow> bytes \<Rightarrow> string list" where
  "get_texts acc [] = []"
| "get_texts acc [b] = [acc]"
| "get_texts acc (b # c # bs) = (if b = 0 then acc # get_texts [] (c # bs) else get_texts (acc @ [char_of_u8 c]) bs)"

fun pairs :: "'a list \<Rightarrow> ('a \<times> 'a) list" where
  "pairs (x # y # zs) = (x, y) # pairs zs"
| "pairs _ = []"

definition spec_texts :: "image_spec \<Rightarrow> string list" where
  "spec_texts spec = [is_image spec, is_user_specified_image spec, is_runtime_handler spec]
     @ concat (map (\<lambda>k. [k, case Mapping.lookup (is_annotations spec) k of None \<Rightarrow> [] | Some v \<Rightarrow> v]) (Mapping.ordered_keys (is_annotations spec)))"

fun spec_of_texts :: "string list \<Rightarrow> image_spec option" where
  "spec_of_texts (img # user # handler # rest) =
     Some \<lparr>is_image = img, is_annotations = Mapping (pairs rest), is_user_specified_image = user, is_runtime_handler = handler\<rparr>"
| "spec_of_texts _ = None"

definition sample_descriptor :: "string \<Rightarrow> descriptor" where
  "sample_descriptor digest =
     \<lparr>ds_mediaType = ''application/wasm'', ds_digest = digest, ds_size = 0, ds_urls = [], ds_annotations = Mapping.empty\<rparr>"

definition ref_lib :: "(bytes, bytes) container_lib" where
  "ref_lib =
     \<lparr>cl_component_new = Some, cl_serialize = Some, cl_deserialize = Some, cl_metadata_encode = (\<lambda>m. m), cl_metadata_decode = Some,
      cl_image_spec_encode = (\<lambda>spec. concat (map put_text (spec_texts spec))),
      cl_image_spec_decode = (\<lambda>bs. spec_of_texts (get_texts [] bs)),
      cl_manifest_json = (\<lambda>bs. Some \<lparr>im_schemaVersion = 2, im_mediaType = MANIFEST_MIME, im_config = sample_descriptor [],
        im_layers = [sample_descriptor ''component'', sample_descriptor ''metadata''], im_annotations = Mapping.empty\<rparr>)\<rparr>"

lemma get_texts_put: "get_texts acc (concat (map (\<lambda>c. [1, u8_of_char c]) s) @ 0 # bs) = (acc @ s) # get_texts [] bs"
proof (induction s arbitrary: acc)
  case Nil
  then show ?case by (cases bs) auto
qed simp

lemma get_texts_texts: "get_texts [] (concat (map put_text ss)) = ss"
  by (induction ss) (simp_all add: put_text_def get_texts_put)

lemma pairs_concat: "pairs (concat (map (\<lambda>k. [k, f k]) ks)) = map (\<lambda>k. (k, f k)) ks"
  by (induction ks) simp_all

lemma spec_of_texts_texts:
  assumes "finite (Mapping.keys (is_annotations spec))"
  shows "spec_of_texts (spec_texts spec) = Some spec"
proof -
  let ?m = "is_annotations spec"
  let ?f = "\<lambda>k. case Mapping.lookup ?m k of None \<Rightarrow> [] | Some v \<Rightarrow> v"
  have "Mapping.lookup (Mapping (map (\<lambda>k. (k, ?f k)) (Mapping.ordered_keys ?m))) k = Mapping.lookup ?m k" for k
  proof (cases "Mapping.lookup ?m k")
    case None
    then have "k \<notin> Mapping.keys ?m" by (simp add: keys_dom_lookup dom_def)
    with None assms show ?thesis by (simp add: lookup_Mapping map_of_map_restrict ordered_keys_def restrict_map_def)
  next
    case (Some v)
    then have "k \<in> Mapping.keys ?m" by (simp add: keys_dom_lookup dom_def)
    with Some assms show ?thesis by (simp add: lookup_Mapping map_of_map_restrict ordered_keys_def restrict_map_def)
  qed
  then have "Mapping (map (\<lambda>k. (k, ?f k)) (Mapping.ordered_keys ?m)) = ?m" by (rule mapping_eqI)
  then show ?thesis by (simp add: spec_texts_def pairs_concat)
qed

interpretation ref: container_codecs ref_lib
proof
  show "cl_image_spec_decode ref_lib (cl_image_spec_encode ref_lib spec) = Some spec" if "finite (Mapping.keys (is_annotations spec))" for spec
    using that by (simp add: ref_lib_def get_texts_texts spec_of_texts_texts)
qed (simp_all add: ref_lib_def)

section \<open>Guarantees\<close>

definition no_faults :: io_env where
  "no_faults = \<lparr>io_fault = (\<lambda>_. None), io_dir_len = 4096\<rparr>"

definition sample_http :: http where
  "sample_http url accept =
     Response 200 (Some (case accept of Some _ \<Rightarrow> [] | None \<Rightarrow> if last url = CHR ''t'' then [0, 97, 115, 109] else [7]))"

definition sample_store :: store where
  "sample_store = \<lparr>st_root = [''images''], st_insecure_registries = {}, st_usage = \<lparr>fu_bytes = 0, fu_inodes = 0\<rparr>,
     st_poisoned = False, st_disk = [([''images''], Dir)]\<rparr>"

definition sample_spec :: image_spec where
  "sample_spec = \<lparr>is_image = ''r/i'', is_annotations = Mapping.empty, is_user_specified_image = [], is_runtime_handler = []\<rparr>"

lemma sample_store_ok: "store_ok sample_store"
  by (auto simp: sample_store_def store_ok_def disk_ok_def is_dir_def split: if_splits)

lemma sample_exact:
  "disk_bytes (st_root sample_store) (st_disk sample_store) = 0" "disk_inodes (st_root sample_store) (st_disk sample_store) = 0"
  "bytes_drift sample_store = 0" "inodes_drift sample_store = 0" "replaced_bytes sample_store name = 0"
proof -
  have "entries (st_root sample_store) (st_disk sample_store) = {}" by (auto simp: entries_def sample_store_def)
  then show "disk_bytes (st_root sample_store) (st_disk sample_store) = 0" "disk_inodes (st_root sample_store) (st_disk sample_store) = 0"
    "bytes_drift sample_store = 0" "inodes_drift sample_store = 0"
    by (simp_all add: disk_bytes_def disk_inodes_def bytes_drift_def inodes_drift_def) (simp_all add: sample_store_def)
qed (simp add: replaced_bytes_def container_path_def image_spec_path_def component_path_def sample_store_def)

lemma length_paths:
  "length (component_path st name) = length (st_root st) + 3" "length (container_path st name) = length (st_root st) + 4"
  by (simp_all add: container_path_def component_path_def)

lemma unat_of_nat_u64: "n < 2 ^ 64 \<Longrightarrow> unat (of_nat n :: u64) = n"
  by (simp add: unsigned_of_nat take_bit_nat_eq_self)

lemma read_container_file:
  assumes "map_of d c = Some (File (to_le_bytes (of_nat (length component)) @ component @ meta))" "length component < 2 ^ 63"
    and "\<forall>call. io_fault env call = None"
  shows "read_container env c d = Inr (component, meta)"
proof -
  have len: "unat (of_nat (length component) :: u64) = length component" using assms(2) by (simp add: unat_of_nat_u64)
  then have "\<not> (of_nat (length component) :: u64) > 0x7FFFFFFFFFFFFFFF" using assms(2) by (simp add: word_less_nat_alt)
  with assms(1,3) len show ?thesis by (simp add: read_container_def open_file_def)
qed

lemma stored_file:
  assumes "get_container_file L env name st = Inr ctn"
  shows "\<exists>bs. map_of (st_disk st) (container_path st name) = Some (File bs)"
proof -
  have "read_exact env call n Dir \<noteq> Inr v" for call n v by simp
  with assms show ?thesis
    by (auto simp: get_container_file_def read_container_def open_file_def ebind_Inr_iff split: option.splits node.splits if_splits)
       (metis node.exhaust read_exact.simps(1) sum.distinct(1))
qed

lemma get_same:
  assumes "map_of (st_disk st') (container_path st' n) = Some x" "map_of (st_disk st) (container_path st n) = Some x"
    and "container_path st' n = container_path st n"
  shows "get_container_file L env n st' = get_container_file L env n st"
  using assms by (cases "io_fault env Open_container") (simp_all add: get_container_file_def read_container_def open_file_def)

lemma sample_fetch:
  "fetch ref_lib sample_http {} ''r'' sample_component = Inr \<lparr>ctn_component = [0, 97, 115, 109], ctn_metadata = [7]\<rparr>"
  by code_simp

lemma sample_pull: "fst (pull ref_lib no_faults sample_http ''r'' sample_component sample_spec sample_store) = Inr ()"
proof -
  have "\<exists>st'. pull_blocking no_faults sample_component component meta spec sample_store = (Inr (), st')" for component meta spec
    by (rule pull_blocking_succeeds [OF sample_store_ok])
      (simp_all add: sample_store_def no_faults_def free_for_def component_path_def container_path_def image_spec_path_def)
  moreover have "fetch ref_lib sample_http (st_insecure_registries sample_store) ''r'' sample_component
      = Inr \<lparr>ctn_component = [0, 97, 115, 109], ctn_metadata = [7]\<rparr>"
    using sample_fetch by (simp add: sample_store_def)
  ultimately show ?thesis
    by (simp add: pull_def) (metis fst_conv option.simps(5) ref_lib_def container_lib.select_convs(2))
qed

lemma pull_Inr:
  assumes "pull L env http registry name spec st = (Inr (), st')" "fetch L http (st_insecure_registries st) registry name = Inr ctn"
    and "cl_serialize L (ctn_component ctn) = Some bs"
  shows "pull_blocking env name bs (cl_metadata_encode L (ctn_metadata ctn)) (cl_image_spec_encode L spec) st = (Inr (), st')"
  using assms by (simp add: pull_def)

context container_codecs
begin

lemma pulled_container:
  assumes "map_of (st_disk st) (container_path st name) =
      Some (File (to_le_bytes (of_nat (length bs)) @ bs @ cl_metadata_encode L (ctn_metadata ctn)))"
    and "cl_serialize L (ctn_component ctn) = Some bs" "length bs < 2 ^ 63" "\<forall>call. io_fault env call = None"
  shows "get_container_file L env name st = Inr ctn"
  using read_container_file [OF assms(1,3,4)] assms(2)
  by (simp add: get_container_file_def deserialize_serialize metadata_decode_encode)

lemma pulled_image:
  assumes "map_of (st_disk st) (container_path st name) = Some (File bs)"
    and "map_of (st_disk st) (image_spec_path st name) = Some (File (cl_image_spec_encode L spec))"
    and "finite (Mapping.keys (is_annotations spec))" "\<forall>call. io_fault env call = None"
  shows "get_image L env name st = Inr \<lparr>img_id = ComponentName_to_string name, img_repo_tags = [], img_repo_digests = [],
    img_size = of_nat (length bs), img_uid = None, img_username = [], img_spec = Some spec, img_pinned = False\<rparr>"
  using assms by (simp add: get_image_def metadata_len_def open_file_def image_spec_decode_encode)

end

text \<open>
  C24: When a pull succeeds, whatever input and output errors could have come up, the container read from the store is the one that was
  fetched, the image has the size of its file and the pulled image spec, and a container of another component that could be read before
  reads the same.
\<close>

theorem pull_get_roundtrip:
  assumes "container_codecs L" "store_ok st" "pull L env http registry name spec st = (Inr (), st')"
    and "fetch L http (st_insecure_registries st) registry name = Inr ctn" "cl_serialize L (ctn_component ctn) = Some bs" "length bs < 2 ^ 63"
    and "finite (Mapping.keys (is_annotations spec))" "\<forall>call. io_fault env' call = None"
    and "domain_wf (sn_domain (cn_server name))" "domain_wf (sn_domain (cn_server name'))" "name' \<noteq> name"
  shows "get_container_file L env' name st' = Inr ctn
    \<and> get_image L env' name st' = Inr \<lparr>img_id = ComponentName_to_string name, img_repo_tags = [], img_repo_digests = [],
        img_size = of_nat (8 + length bs + length (cl_metadata_encode L (ctn_metadata ctn))), img_uid = None, img_username = [],
        img_spec = Some spec, img_pinned = False\<rparr>
    \<and> (get_container_file L env' name' st = Inr ctn' \<longrightarrow> get_container_file L env' name' st' = Inr ctn')"
proof -
  note eff = pull_effect [OF pull_Inr [OF assms(3-5)] assms(2)]
  then have same: "container_path st' n = container_path st n" "image_spec_path st' n = image_spec_path st n" for n
    by (simp_all add: container_path_def image_spec_path_def component_path_def)
  have "get_container_file L env' name st' = Inr ctn"
    using eff by (intro container_codecs.pulled_container [OF assms(1) _ assms(5,6,8)]) (simp add: same)
  moreover have "map_of (st_disk st') (container_path st name') = map_of (st_disk st) (container_path st name')"
    using eff other_paths [OF assms(9,10) assms(11) [symmetric], of st] by (simp add: length_paths)
  then have "get_container_file L env' name' st = Inr ctn' \<longrightarrow> get_container_file L env' name' st' = Inr ctn'"
    using stored_file [of L env' name' st ctn'] get_same [where st = st and st' = st' and n = name'] same by metis
  ultimately show ?thesis
    using eff container_codecs.pulled_image [OF assms(1), where st = st' and name = name and env = env', OF _ _ assms(7,8)] by (simp add: same)
qed

theorem pull_get_roundtrip_witness:
  "get_container_file ref_lib no_faults sample_component (snd (pull ref_lib no_faults sample_http ''r'' sample_component sample_spec sample_store))
     = Inr \<lparr>ctn_component = [0, 97, 115, 109], ctn_metadata = [7]\<rparr>"
proof -
  let ?other = "sample_component\<lparr>cn_version := ''9.9.9''\<rparr>"
  have "domain_wf (sn_domain (cn_server sample_component))" using sample_component_wf by (simp add: component_wf_def)
  then show ?thesis
    using pull_get_roundtrip [OF ref.container_codecs_axioms sample_store_ok, of no_faults sample_http "''r''" sample_component sample_spec
        "snd (pull ref_lib no_faults sample_http ''r'' sample_component sample_spec sample_store)" _ "[0, 97, 115, 109]" no_faults ?other]
      sample_pull sample_fetch
    by (simp add: prod_eq_iff sample_store_def ref_lib_def no_faults_def sample_spec_def sample_component_def)
qed



text \<open>
  As long as the account is exact and fits 64 bits, removing an image never makes it wrap around below 0, whatever fails on the way:
  it stays the number of bytes and inodes on disk.
\<close>

theorem remove_never_underflows:
  assumes "store_ok st" "bytes_drift st = 0" "inodes_drift st = 0" "disk_bytes (st_root st) (st_disk st) < 2 ^ 64"
    and "disk_inodes (st_root st) (st_disk st) < 2 ^ 64" "remove_image_files env name st = (r, st')"
  shows "unat (fu_bytes (st_usage st')) = disk_bytes (st_root st') (st_disk st') \<and> fu_bytes (st_usage st') \<le> fu_bytes (st_usage st)
    \<and> unat (fu_inodes (st_usage st')) = disk_inodes (st_root st') (st_disk st') \<and> fu_inodes (st_usage st') \<le> fu_inodes (st_usage st)"
proof -
  have keep: "keeps (removed_paths st name) st st'" using remove_keeps [of st name env] assms(6) by simp
  then have root: "st_root st' = st_root st" by (simp add: keeps_def)
  from keep assms(1-3) have drift: "fu_bytes (st_usage st') = of_nat (disk_bytes (st_root st') (st_disk st'))"
    "fu_inodes (st_usage st') = of_nat (disk_inodes (st_root st') (st_disk st'))"
    "fu_bytes (st_usage st) = of_nat (disk_bytes (st_root st) (st_disk st))"
    "fu_inodes (st_usage st) = of_nat (disk_inodes (st_root st) (st_disk st))"
    by (auto simp: keeps_def bytes_drift_def inodes_drift_def)
  from keep smaller_disk have "disk_bytes (st_root st') (st_disk st') \<le> disk_bytes (st_root st) (st_disk st)"
    "disk_inodes (st_root st') (st_disk st') \<le> disk_inodes (st_root st) (st_disk st)" by (auto simp: keeps_def)
  with assms(4,5) show ?thesis by (simp add: drift word_le_nat_alt unat_of_nat_u64)
qed

theorem remove_never_underflows_witness:
  "unat (fu_bytes (st_usage (snd (remove_image_files no_faults sample_component sample_store))))
     = disk_bytes [''images''] (st_disk (snd (remove_image_files no_faults sample_component sample_store)))"
proof -
  have "st_root (snd (remove_image_files no_faults sample_component sample_store)) = [''images'']"
    using remove_keeps [of sample_store sample_component no_faults] by (simp add: keeps_def sample_store_def)
  then show ?thesis
    using remove_never_underflows [OF sample_store_ok, of no_faults sample_component, OF _ _ _ _ surjective_pairing] by (simp add: sample_exact)
qed

text \<open>
  C38: A store that is opened on a directory with images starts its account at 0, so that removing an image of an earlier run wraps the
  account of bytes around to almost \<open>2 ^ 64\<close>.
\<close>

theorem restart_remove_wraps:
  assumes "ContainerStore_new env root insecure d = (Inr st, d')" "remove_image_files env' name st = (Inr (), st')"
    and "0 < replaced_bytes st name" "replaced_bytes st name < 2 ^ 64"
  shows "unat (fu_bytes (st_usage st')) = 2 ^ 64 - replaced_bytes st name"
proof -
  have "fu_bytes (st_usage st) = 0" using assms(1) by (auto simp: ContainerStore_new_def split: prod.splits sum.splits)
  then have "fu_bytes (st_usage st') = - of_nat (replaced_bytes st name)" using remove_ok_bytes [OF assms(2)] by simp
  moreover have "unat (of_nat (replaced_bytes st name) :: u64) = replaced_bytes st name" using assms(4) by (simp add: unat_of_nat_u64)
  ultimately show ?thesis using assms(3) unat_sub_if' [of 0 "of_nat (replaced_bytes st name) :: u64"] by simp
qed

definition sample_stored :: disk where
  "sample_stored = st_disk (snd (pull ref_lib no_faults sample_http ''r'' sample_component sample_spec sample_store))"

theorem restart_remove_wraps_witness:
  "case ContainerStore_new no_faults [''images''] {} sample_stored of (Inr st, d') \<Rightarrow>
     unat (fu_bytes (st_usage (snd (remove_image_files no_faults sample_component st)))) = 2 ^ 64 - replaced_bytes st sample_component
   | _ \<Rightarrow> False"
proof -
  let ?st = "\<lparr>st_root = [''images''], st_insecure_registries = {}, st_usage = \<lparr>fu_bytes = 0, fu_inodes = 0\<rparr>, st_poisoned = False, st_disk = sample_stored\<rparr>"
  have "pull_blocking no_faults sample_component [0, 97, 115, 109] [7] (cl_image_spec_encode ref_lib sample_spec) sample_store
      = (Inr (), snd (pull ref_lib no_faults sample_http ''r'' sample_component sample_spec sample_store))"
    using sample_pull sample_fetch by (simp add: pull_def prod_eq_iff sample_store_def) (simp add: ref_lib_def)
  note eff = pull_effect [OF this sample_store_ok]
  have paths: "container_path ?st n = container_path sample_store n" "image_spec_path ?st n = image_spec_path sample_store n" for n
    by (simp_all add: container_path_def image_spec_path_def component_path_def sample_store_def)
  have "st_root sample_store = [''images'']" by (simp add: sample_store_def)
  then have "is_dir sample_stored [''images'']" using eff by (auto simp: store_ok_def sample_stored_def)
  then have new: "ContainerStore_new no_faults [''images''] {} sample_stored = (Inr ?st, sample_stored)"
    by (simp add: ContainerStore_new_def create_dir_all_def no_faults_def is_dir_def)
  have files: "map_of (st_disk ?st) (container_path ?st sample_component) = Some (File (to_le_bytes 4 @ [0, 97, 115, 109, 7]))"
    "map_of (st_disk ?st) (image_spec_path ?st sample_component) = Some (File (cl_image_spec_encode ref_lib sample_spec))"
    using eff unfolding paths by (simp_all add: sample_stored_def)
  have "\<exists>st'. remove_image_files no_faults sample_component ?st = (Inr (), st')"
    by (rule remove_succeeds [OF _ _ files]) (simp_all add: no_faults_def)
  moreover have "0 < replaced_bytes ?st sample_component" "replaced_bytes ?st sample_component < 2 ^ 64"
    unfolding replaced_bytes_def files by (simp_all add: ref_lib_def spec_texts_def sample_spec_def put_text_def ordered_keys_def)
  ultimately show ?thesis
    using restart_remove_wraps [OF new, of no_faults sample_component "snd (remove_image_files no_faults sample_component ?st)"]
    by (auto simp: new)
qed

end
