(* ===== verification/Pods_Claims.thy ===== *)
theory Pods_Claims
  imports Pods Cri_Claims Container_Claims Encode_Spec Decode_Spec "HOL-Library.Countable"
begin

text \<open>
  What the pod initializer guarantees: the routes are exactly the methods of the metadata, each with the codec compiled from its types, and
  a component that was pulled, whose metadata is in order, ends up running.
\<close>

section \<open>Routes\<close>

context router
begin

lemma method_routes_lookup:
  "method_routes R handler ms r = Ok r' \<Longrightarrow>
     rl_lookup R r' p = Some h \<longleftrightarrow> rl_lookup R r p = Some h \<or> (\<exists>(n, m) \<in> set ms. p = ''/'' @ n \<and> handler m = Inr h)"
proof (induction ms arbitrary: r)
  case (Cons nm ms)
  obtain n m where nm: "nm = (n, m)" by (cases nm)
  with Cons.prems obtain h' r1 where step: "handler m = Inr h'" "rl_route R (''/'' @ n) h' r = Some r1" "method_routes R handler ms r1 = Ok r'"
    by (auto split: sum.splits option.splits)
  note added = route_Some [OF step(2)]
  have "rl_lookup R r1 p = Some h \<longleftrightarrow> rl_lookup R r p = Some h \<or> p = ''/'' @ n \<and> h' = h"
    using added by auto
  with Cons.IH [OF step(3)] step(1) nm show ?case by auto
qed simp

lemma service_routes_lookup:
  "service_routes R handler ss r = Ok r' \<Longrightarrow>
     rl_lookup R r' path = Some h \<longleftrightarrow> rl_lookup R r path = Some h
       \<or> (\<exists>s \<in> set ss. \<exists>(n, m) \<in> set (gs_methods s). path = ''/'' @ gs_name s @ ''/'' @ n \<and> handler m = Inr h)"
proof (induction ss arbitrary: r)
  case (Cons s ss)
  then obtain sub r1 where step: "method_routes R handler (gs_methods s) (rl_default R) = Ok sub"
    "rl_nest R (''/'' @ gs_name s) sub r = Some r1" "service_routes R handler ss r1 = Ok r'"
    by (auto simp: obind_Ok_iff split: option.splits)
  have "rl_lookup R r1 path = Some h \<longleftrightarrow> rl_lookup R r path = Some h
      \<or> (\<exists>(n, m) \<in> set (gs_methods s). path = ''/'' @ gs_name s @ ''/'' @ n \<and> handler m = Inr h)"
    using nest_Some [OF step(2)] method_routes_lookup [OF step(1)] new_router(1) by (auto simp: case_prod_beta)
  with Cons.IH [OF step(3)] show ?case by auto
qed simp

lemma method_routes_succeed:
  assumes "distinct (map fst ms)" "\<forall>(n, m) \<in> set ms. literal (''/'' @ n) \<and> rl_lookup R r (''/'' @ n) = None \<and> (\<exists>h. handler m = Inr h)"
  shows "\<exists>r'. method_routes R handler ms r = Ok r'"
  using assms
proof (induction ms arbitrary: r)
  case (Cons nm ms)
  obtain n m where nm: "nm = (n, m)" by (cases nm)
  with Cons.prems obtain h where h: "handler m = Inr h" by auto
  obtain r1 where r1: "rl_route R (''/'' @ n) h r = Some r1" using route_succeeds Cons.prems nm by fastforce
  note added = route_Some [OF r1]
  have "\<forall>(n', m) \<in> set ms. literal (''/'' @ n') \<and> rl_lookup R r1 (''/'' @ n') = None \<and> (\<exists>h. handler m = Inr h)"
    using Cons.prems nm added by force
  from Cons.IH [OF _ this] Cons.prems(1) h r1 nm show ?case by auto
qed simp

end

text \<open>Metadata in order: the names are distinct and without slashes, and every method has a codec and a function.\<close>

definition metadata_ok :: "(string \<Rightarrow> bool) \<Rightarrow> (grpc_method \<Rightarrow> initialize_error + 'h) \<Rightarrow> metadata \<Rightarrow> bool" where
  "metadata_ok literal handler md \<longleftrightarrow>
     distinct (map gs_name (md_service md)) \<and> (\<forall>s \<in> set (md_service md). CHR ''/'' \<notin> set (gs_name s) \<and> literal (''/'' @ gs_name s)
       \<and> distinct (map fst (gs_methods s))
       \<and> (\<forall>(n, m) \<in> set (gs_methods s). CHR ''/'' \<notin> set n \<and> literal (''/'' @ n) \<and> (\<exists>h. handler m = Inr h)))"

lemma same_service_path:
  assumes "s @ CHR ''/'' # n = s' @ CHR ''/'' # n'" "CHR ''/'' \<notin> set s" "CHR ''/'' \<notin> set s'"
  shows "s = s'"
  using assms by (auto simp: append_eq_append_conv2 append_eq_Cons_conv Cons_eq_append_conv)

context router
begin

lemma service_routes_succeed:
  assumes "distinct (map gs_name ss)" "\<forall>s \<in> set ss. ''/'' @ gs_name s \<notin> nested r \<and> CHR ''/'' \<notin> set (gs_name s) \<and> literal (''/'' @ gs_name s)
      \<and> distinct (map fst (gs_methods s)) \<and> (\<forall>(n, m) \<in> set (gs_methods s). literal (''/'' @ n) \<and> (\<exists>h. handler m = Inr h))"
    and "\<forall>s \<in> set ss. \<forall>n. rl_lookup R r (''/'' @ gs_name s @ ''/'' @ n) = None"
  shows "\<exists>r'. service_routes R handler ss r = Ok r'"
  using assms
proof (induction ss arbitrary: r)
  case (Cons s ss)
  obtain sub where sub: "method_routes R handler (gs_methods s) (rl_default R) = Ok sub"
    using method_routes_succeed [of "gs_methods s" "rl_default R" handler] Cons.prems(2) new_router(1) by fastforce
  note subs = method_routes_lookup [OF sub]
  have "rl_lookup R r ((''/'' @ gs_name s) @ q) = None" if "rl_lookup R sub q \<noteq> None" for q
    using that subs [of q] new_router(1) Cons.prems(3) by fastforce
  then obtain r1 where r1: "rl_nest R (''/'' @ gs_name s) sub r = Some r1"
    using nest_succeeds [of "''/'' @ gs_name s" r sub] Cons.prems(2) by force
  note nests = nest_Some [OF r1]
  have "rl_lookup R r1 (''/'' @ gs_name s' @ ''/'' @ n) = None" if "s' \<in> set ss" for s' n
  proof (rule ccontr)
    assume "rl_lookup R r1 (''/'' @ gs_name s' @ ''/'' @ n) \<noteq> None"
    then obtain h where h: "rl_lookup R r1 (''/'' @ gs_name s' @ ''/'' @ n) = Some h" by blast
    have "rl_lookup R r (''/'' @ gs_name s' @ ''/'' @ n) = None" using Cons.prems(3) that by simp
    with h obtain q where "''/'' @ gs_name s' @ ''/'' @ n = (''/'' @ gs_name s) @ q" "rl_lookup R sub q = Some h"
      using nests [of "''/'' @ gs_name s' @ ''/'' @ n" h] by fastforce
    then obtain n' where "gs_name s' @ CHR ''/'' # n = gs_name s @ CHR ''/'' # n'"
      using subs [of q h] new_router(1) by auto
    then have "gs_name s' = gs_name s" using same_service_path Cons.prems(2) that by simp
    with that Cons.prems(1) show False by simp (metis imageI)
  qed
  moreover have "nested r1 = insert (''/'' @ gs_name s) (nested r)" using nests by blast
  then have "\<forall>s' \<in> set ss. ''/'' @ gs_name s' \<notin> nested r1" using Cons.prems(1,2) by simp (metis imageI)
  ultimately have "\<exists>r'. service_routes R handler ss r1 = Ok r'"
    using Cons.prems by (intro Cons.IH) auto
  with sub r1 show ?case by simp
qed simp

lemma metadata_routes:
  assumes "metadata_ok literal handler md"
  shows "\<exists>r. service_routes R handler (md_service md) (rl_default R) = Ok r"
  using assms by (intro service_routes_succeed) (auto simp: metadata_ok_def new_router)

end

text \<open>What a handler is made of.\<close>

lemma method_handler_Inr:
  "method_handler W name c i m = Inr h \<longleftrightarrow>
     (\<exists>request response. gm_request m = Some request \<and> gm_response m = Some response
        \<and> RequestDecoder_new request = Inr (cd_decoder (mt_codec h)) \<and> ResponseEncoder_new response = Inr (cd_encoder (mt_codec h))
        \<and> wl_get_export_index W c (gm_function m) = Some (mt_function h)) \<and> mt_instantiator h = i \<and> mt_component h = name"
proof (cases "gm_request m"; cases "gm_response m")
  fix a b
  assume types: "gm_request m = Some a" "gm_response m = Some b"
  then show ?thesis
    by (cases "RequestDecoder_new a"; cases "ResponseEncoder_new b"; cases "wl_get_export_index W c (gm_function m)"; cases h; cases "mt_codec h")
      (auto simp: method_handler_def Codec_new_def)
qed (auto simp: method_handler_def)

context router
begin

lemma method_routes_handlers:
  "method_routes R handler ms r = Ok r' \<Longrightarrow> (n, m) \<in> set ms \<Longrightarrow> \<exists>h. handler m = Inr h"
  by (induction ms arbitrary: r) (auto split: sum.splits option.splits)

lemma service_routes_handlers:
  "service_routes R handler ss r = Ok r' \<Longrightarrow> s \<in> set ss \<Longrightarrow> (n, m) \<in> set (gs_methods s) \<Longrightarrow> \<exists>h. handler m = Inr h"
proof (induction ss arbitrary: r)
  case (Cons s' ss)
  then obtain sub r1 where "method_routes R handler (gs_methods s') (rl_default R) = Ok sub" "service_routes R handler ss r1 = Ok r'"
    by (auto simp: obind_Ok_iff split: option.splits)
  with Cons method_routes_handlers show ?case by fastforce
qed simp

end

text \<open>
  A container library whose components are byte lists and whose metadata is written as a number in unary, a Wasm library that links and
  exports everything, and a registry with one component.
\<close>

instance coding :: countable by countable_datatype
instance field :: countable by countable_datatype

type_synonym metadata_tuples = "(string \<times> (string \<times> string \<times> int \<times> field option \<times> field option) list) list"

definition tuples_of :: "metadata \<Rightarrow> metadata_tuples" where
  "tuples_of md =
     map (\<lambda>s. (gs_name s, map (\<lambda>(n, m). (n, gm_function m, gm_arity m, gm_request m, gm_response m)) (gs_methods s))) (md_service md)"

definition of_tuples :: "metadata_tuples \<Rightarrow> metadata" where
  "of_tuples ts =
     \<lparr>md_service = map (\<lambda>(s, ms). \<lparr>gs_name = s,
        gs_methods = map (\<lambda>(n, f, a, req, resp). (n, \<lparr>gm_function = f, gm_arity = a, gm_request = req, gm_response = resp\<rparr>)) ms\<rparr>) ts\<rparr>"

lemma of_tuples_of: "of_tuples (tuples_of md) = md"
proof -
  have "map (\<lambda>(n, f, a, req, resp). (n, \<lparr>gm_function = f, gm_arity = a, gm_request = req, gm_response = resp\<rparr>))
      (map (\<lambda>(n, m). (n, gm_function m, gm_arity m, gm_request m, gm_response m)) ms) = ms" for ms :: "(string \<times> grpc_method) list"
    by (induction ms) auto
  moreover have "(\<lambda>s. \<lparr>gs_name = gs_name s, gs_methods = gs_methods s\<rparr>) = (\<lambda>s. s)" by (rule ext) simp
  ultimately show ?thesis by (simp add: of_tuples_def tuples_of_def comp_def)
qed

definition meta_lib :: "(bytes, metadata) container_lib" where
  "meta_lib =
     \<lparr>cl_component_new = Some, cl_serialize = Some, cl_deserialize = Some, cl_metadata_encode = (\<lambda>md. replicate (to_nat (tuples_of md)) 0),
      cl_metadata_decode = (\<lambda>bs. Some (of_tuples (from_nat (length bs)))), cl_image_spec_encode = cl_image_spec_encode ref_lib,
      cl_image_spec_decode = cl_image_spec_decode ref_lib, cl_manifest_json = cl_manifest_json ref_lib\<rparr>"

interpretation meta: container_codecs meta_lib
  by unfold_locales (simp_all add: meta_lib_def of_tuples_of ref.image_spec_decode_encode)

definition link_lib :: "(bytes, unit, unit, unit, string, string) wasm_lib" where
  "link_lib =
     \<lparr>wl_linker_new = (), wl_instance = (\<lambda>_. Some), wl_func_wrap_async = (\<lambda>_ _ _. Some), wl_instantiate_pre = (\<lambda>_ _. Some ()),
      wl_get_export_index = (\<lambda>_. Some), wl_instantiate_async = Some, wl_get_func = (\<lambda>_. Some), wl_call_async = (\<lambda>_ _. Some)\<rparr>"

definition sample_metadata :: metadata where
  "sample_metadata = \<lparr>md_service = [\<lparr>gs_name = ''pkg.Greeter'', gs_methods =
     [(''Greet'', \<lparr>gm_function = ''greet'', gm_arity = 0, gm_request = Some sample_request, gm_response = Some sample_response\<rparr>)]\<rparr>]\<rparr>"

definition meta_http :: http where
  "meta_http url accept =
     Response 200 (Some (case accept of Some _ \<Rightarrow> []
       | None \<Rightarrow> if last url = CHR ''t'' then [0, 97, 115, 109] else cl_metadata_encode meta_lib sample_metadata))"

abbreviation sample_pull_state :: "(store_error + unit) \<times> store" where
  "sample_pull_state \<equiv> pull meta_lib no_faults meta_http ''r'' sample_component sample_spec sample_store"

lemma sample_metadata_fetch:
  "fetch meta_lib meta_http (st_insecure_registries sample_store) ''r'' sample_component = Inr \<lparr>ctn_component = [0, 97, 115, 109], ctn_metadata = sample_metadata\<rparr>"
proof -
  have "fetch_component meta_lib meta_http (url @ ''/blobs/component'') = Inr [0, 97, 115, 109]" for url
    by (simp add: fetch_component_def fetch_blob_def meta_http_def) (simp add: meta_lib_def)
  moreover have "fetch_metadata meta_lib meta_http (url @ ''/blobs/metadata'') = Inr sample_metadata" for url
    by (simp add: fetch_metadata_def fetch_blob_def meta_http_def meta.metadata_decode_encode)
  moreover have "cl_manifest_json meta_lib bs = cl_manifest_json ref_lib []" for bs by (simp add: meta_lib_def ref_lib_def)
  moreover obtain m where "cl_manifest_json ref_lib [] = Some m" "map ds_digest (im_layers m) = [''component'', ''metadata'']"
    by (simp add: ref_lib_def sample_descriptor_def)
  moreover have "meta_http url (Some mime) = Response 200 (Some [])" for url mime by (simp add: meta_http_def)
  ultimately show ?thesis by (auto simp: fetch_def Let_def)
qed

lemma sample_pull_ok: "fst sample_pull_state = Inr ()"
proof -
  have "\<exists>st'. pull_blocking no_faults sample_component component meta spec sample_store = (Inr (), st')" for component meta spec
    by (rule pull_blocking_succeeds [OF sample_store_ok])
      (simp_all add: sample_store_def no_faults_def free_for_def component_path_def container_path_def image_spec_path_def)
  moreover have "cl_serialize meta_lib [0, 97, 115, 109] = Some [0, 97, 115, 109]" by (simp add: meta_lib_def)
  ultimately show ?thesis using sample_metadata_fetch by (simp add: pull_def) (metis fst_conv)
qed

lemma sample_decoder_new: "RequestDecoder_new sample_request = Inr sample_merger"
  by code_simp

lemma sample_metadata_ok: "metadata_ok (\<lambda>_. True) (method_handler link_lib name c ()) sample_metadata"
  by (simp add: metadata_ok_def sample_metadata_def method_handler_def Codec_new_def sample_decoder_new sample_encoder_new link_lib_def)

lemma pulled_pod_initializes:
  assumes "container_codecs L" "router R nested literal" "store_ok st"
    and "pull L env http registry name spec st = (Inr (), st')" "fetch L http (st_insecure_registries st) registry name = Inr ctn"
    and "cl_serialize L (ctn_component ctn) = Some bs" "length bs < 2 ^ 63" "\<forall>call. io_fault env' call = None"
    and "grpc_linker W = Some l" "wl_instantiate_pre W l (ctn_component ctn) = Some i"
    and "metadata_ok literal (method_handler W name (ctn_component ctn) i) (ctn_metadata ctn)"
  shows "get_container_file L env' name st' = Inr ctn \<and> (\<exists>r. initialize_grpc L W R env' st' name = Ok r)"
proof -
  note eff = pull_effect [OF pull_Inr [OF assms(4-6)] assms(3)]
  then have "container_path st' name = container_path st name" by (simp add: container_path_def component_path_def)
  with eff have "get_container_file L env' name st' = Inr ctn"
    by (intro container_codecs.pulled_container [OF assms(1) _ assms(6-8)]) simp
  with router.metadata_routes [OF assms(2,11)] assms(9,10) show ?thesis by (simp add: initialize_grpc_def)
qed

lemma sample_initializes:
  "get_container_file meta_lib no_faults sample_component (snd sample_pull_state) = Inr \<lparr>ctn_component = [0, 97, 115, 109], ctn_metadata = sample_metadata\<rparr>
   \<and> (\<exists>r. initialize_grpc meta_lib link_lib list_router no_faults (snd sample_pull_state) sample_component = Ok r)"
proof (rule pulled_pod_initializes [OF meta.container_codecs_axioms list_router.router_axioms sample_store_ok _ sample_metadata_fetch])
  show "sample_pull_state = (Inr (), snd sample_pull_state)" using sample_pull_ok by (simp add: prod_eq_iff)
  show "metadata_ok (\<lambda>_. True) (method_handler link_lib sample_component
      (ctn_component \<lparr>ctn_component = [0, 97, 115, 109], ctn_metadata = sample_metadata\<rparr>) ())
      (ctn_metadata \<lparr>ctn_component = [0, 97, 115, 109], ctn_metadata = sample_metadata\<rparr>)" using sample_metadata_ok by simp
  show "length [0, 97, 115, 109 :: u8] < 2 ^ 63" by simp
qed (simp_all add: meta_lib_def link_lib_def no_faults_def grpc_linker_def)

section \<open>Properties\<close>

text \<open>
  C27: When a pod is initialized, its routes are exactly the methods of the stored component's metadata, at \<^verbatim>\<open>/service/method\<close>: every
  method has a route, and every route leads to a handler with the decoder and the encoder that are compiled from the request and the
  response type of such a method, and with the function that the component exports under the method's function name.
\<close>

theorem routes_exact:
  assumes "router R nested literal" "initialize_grpc L W R env st name = Ok r"
  shows "\<exists>ctn i. get_container_file L env name st = Inr ctn
    \<and> (\<forall>s \<in> set (md_service (ctn_metadata ctn)). \<forall>n \<in> fst ` set (gs_methods s). \<exists>h. rl_lookup R r (''/'' @ gs_name s @ ''/'' @ n) = Some h)
    \<and> (\<forall>path h. rl_lookup R r path = Some h \<longleftrightarrow>
        (\<exists>s n m request response. s \<in> set (md_service (ctn_metadata ctn)) \<and> (n, m) \<in> set (gs_methods s) \<and> path = ''/'' @ gs_name s @ ''/'' @ n
          \<and> gm_request m = Some request \<and> gm_response m = Some response
          \<and> RequestDecoder_new request = Inr (cd_decoder (mt_codec h)) \<and> ResponseEncoder_new response = Inr (cd_encoder (mt_codec h))
          \<and> wl_get_export_index W (ctn_component ctn) (gm_function m) = Some (mt_function h)
          \<and> mt_instantiator h = i \<and> mt_component h = name))"
proof -
  from assms(2) obtain ctn l i where ctn: "get_container_file L env name st = Inr ctn"
    and r: "service_routes R (method_handler W name (ctn_component ctn) i) (md_service (ctn_metadata ctn)) (rl_default R) = Ok r"
    by (auto simp: initialize_grpc_def split: sum.splits option.splits)
  have routes: "rl_lookup R r path = Some h \<longleftrightarrow> (\<exists>s n m. s \<in> set (md_service (ctn_metadata ctn)) \<and> (n, m) \<in> set (gs_methods s)
      \<and> path = ''/'' @ gs_name s @ ''/'' @ n \<and> method_handler W name (ctn_component ctn) i m = Inr h)" for path h
    using router.service_routes_lookup [OF assms(1) r, of path h] router.new_router(1) [OF assms(1)] by (auto simp: Bex_def)
  have "\<exists>h. rl_lookup R r (''/'' @ gs_name s @ ''/'' @ n) = Some h"
    if "s \<in> set (md_service (ctn_metadata ctn))" "n \<in> fst ` set (gs_methods s)" for s n
  proof -
    from that(2) obtain m where m: "(n, m) \<in> set (gs_methods s)" by auto
    from router.service_routes_handlers [OF assms(1) r that(1) m] m that(1) show ?thesis unfolding routes by blast
  qed
  moreover have "rl_lookup R r path = Some h \<longleftrightarrow>
        (\<exists>s n m request response. s \<in> set (md_service (ctn_metadata ctn)) \<and> (n, m) \<in> set (gs_methods s) \<and> path = ''/'' @ gs_name s @ ''/'' @ n
          \<and> gm_request m = Some request \<and> gm_response m = Some response
          \<and> RequestDecoder_new request = Inr (cd_decoder (mt_codec h)) \<and> ResponseEncoder_new response = Inr (cd_encoder (mt_codec h))
          \<and> wl_get_export_index W (ctn_component ctn) (gm_function m) = Some (mt_function h)
          \<and> mt_instantiator h = i \<and> mt_component h = name)" for path h
    unfolding routes method_handler_Inr by blast
  ultimately show ?thesis using ctn by (intro exI [of _ ctn] exI [of _ i] conjI ballI allI) assumption+
qed

theorem routes_exact_witness:
  "\<exists>r h. initialize_grpc meta_lib link_lib list_router no_faults (snd sample_pull_state) sample_component = Ok r
     \<and> rl_lookup list_router r ''/pkg.Greeter/Greet'' = Some h"
proof -
  obtain r where r: "initialize_grpc meta_lib link_lib list_router no_faults (snd sample_pull_state) sample_component = Ok r"
    using sample_initializes by blast
  from routes_exact [OF list_router.router_axioms r] sample_initializes
  show ?thesis by (auto simp: r sample_metadata_def)
qed



end
