(* ===== verification/Unary_Call.thy ===== *)
theory Unary_Call
  imports Pods_Claims Message_Codec
begin

text \<open>
  A whole call of a component (\<^verbatim>\<open>initialize_grpc\<close>, \<^verbatim>\<open>Codec\<close> and \<^verbatim>\<open>Method\<close> of \<^verbatim>\<open>runtime/pods.rs\<close>): from the bytes of a request over the route, the
  decoder, the function of the component and the encoder to the bytes of the response. Tonic's \<^verbatim>\<open>Grpc::unary\<close>, which puts a codec and a
  service together, is a parameter (locale \<open>unary_server\<close>). Bodies are messages without their frame; compression is off, as in the code.
\<close>

section \<open>Handling a request\<close>

datatype rpc_error =
    Request_status decode_status | Missing_request | Call_status call_status | Response_status encode_error | Message_too_large

record rpc_request =
  rq_headers :: "header list"
  rq_body :: bytes

type_synonym grpc_unary =
  "nat option \<Rightarrow> nat option \<Rightarrow> (bytes \<Rightarrow> (val option, decode_status) outcome) \<Rightarrow> (val \<Rightarrow> encode_error + bytes)
     \<Rightarrow> (header list \<Rightarrow> val \<Rightarrow> (val, call_status) outcome) \<Rightarrow> rpc_request \<Rightarrow> (bytes, rpc_error) outcome"

text \<open>What a route runs: the codec and the method of its handler, with the limits of \<^verbatim>\<open>apply_max_message_size_config\<close>.\<close>

definition handle_request ::
    "grpc_unary \<Rightarrow> wire_lib \<Rightarrow> ('c, 'l, 'i, 'n, 'f, 'g) wasm_lib \<Rightarrow> ('i, 'f) grpc_handler \<Rightarrow> rpc_request \<Rightarrow> (bytes, rpc_error) outcome" where
  "handle_request unary B W h =
     unary MAX_DECODING_MESSAGE_SIZE MAX_ENCODING_MESSAGE_SIZE
       (RequestDecoder_decode B (cd_decoder (mt_codec h)))
       (\<lambda>v. map_sum id snd (ResponseEncoder_encode B (cd_encoder (mt_codec h)) v))
       (Method_call W h)"

section \<open>Tonic\<close>

fun within_limit :: "nat option \<Rightarrow> bytes \<Rightarrow> bool" where
  "within_limit None bs \<longleftrightarrow> True"
| "within_limit (Some n) bs \<longleftrightarrow> length bs \<le> n"

text \<open>A call is answered when both messages are within their limits and decoding, the service and encoding succeed.\<close>

locale unary_server =
  fixes unary :: grpc_unary
  assumes answered: "unary limit_in limit_out decode encode call req = Ok out \<longleftrightarrow>
    within_limit limit_in (rq_body req) \<and> within_limit limit_out out
    \<and> (\<exists>v r. decode (rq_body req) = Ok (Some v) \<and> call (rq_headers req) v = Ok r \<and> encode r = Inr out)"
begin

lemma handle_request_Ok:
  "handle_request unary B W h req = Ok out \<longleftrightarrow>
     length (rq_body req) \<le> 1024 * 1024 \<and> length out \<le> 1024 * 1024
     \<and> (\<exists>v r ls. RequestDecoder_decode B (cd_decoder (mt_codec h)) (rq_body req) = Ok (Some v)
          \<and> Method_call W h (rq_headers req) v = Ok r \<and> ResponseEncoder_encode B (cd_encoder (mt_codec h)) r = Inr (ls, out))"
proof -
  have "map_sum id snd x = Inr out \<longleftrightarrow> (\<exists>ls. x = Inr (ls, out))" for x :: encode_result
    by (cases x) auto
  then show ?thesis
    by (simp add: handle_request_def answered MAX_DECODING_MESSAGE_SIZE_def MAX_ENCODING_MESSAGE_SIZE_def)
qed

end

fun plain_answer :: "nat option \<Rightarrow> encode_error + bytes \<Rightarrow> (bytes, rpc_error) outcome" where
  "plain_answer limit (Inl e) = Err (Response_status e)"
| "plain_answer limit (Inr out) = (if within_limit limit out then Ok out else Err Message_too_large)"

fun plain_call :: "nat option \<Rightarrow> (val \<Rightarrow> encode_error + bytes) \<Rightarrow> (val, call_status) outcome \<Rightarrow> (bytes, rpc_error) outcome" where
  "plain_call limit encode (Ok r) = plain_answer limit (encode r)"
| "plain_call limit encode (Err e) = Err (Call_status e)"
| "plain_call limit encode Panic = Panic"
| "plain_call limit encode Out_of_fuel = Out_of_fuel"

definition plain_unary :: grpc_unary where
  "plain_unary limit_in limit_out decode encode call req =
     (if within_limit limit_in (rq_body req)
      then (case decode (rq_body req) of
              Ok (Some v) \<Rightarrow> plain_call limit_out encode (call (rq_headers req) v)
            | Ok None \<Rightarrow> Err Missing_request
            | Err e \<Rightarrow> Err (Request_status e)
            | Panic \<Rightarrow> Panic
            | Out_of_fuel \<Rightarrow> Out_of_fuel)
      else Err Message_too_large)"

lemma plain_answer_Ok: "plain_answer limit x = Ok out \<longleftrightarrow> x = Inr out \<and> within_limit limit out"
  by (cases x) auto

lemma plain_call_Ok: "plain_call limit encode x = Ok out \<longleftrightarrow> (\<exists>r. x = Ok r \<and> encode r = Inr out \<and> within_limit limit out)"
  by (cases x) (auto simp: plain_answer_Ok)

interpretation plain: unary_server plain_unary
  by unfold_locales (auto simp: plain_unary_def plain_call_Ok split: outcome.split option.split)

section \<open>Routes and handlers\<close>

text \<open>The handler at the path of a method is the one made of that method.\<close>

lemma initialize_grpc_Ok:
  assumes "initialize_grpc L W R env st name = Ok r" "get_container_file L env name st = Inr ctn"
  obtains l i where "grpc_linker W = Some l" "wl_instantiate_pre W l (ctn_component ctn) = Some i"
    and "service_routes R (method_handler W name (ctn_component ctn) i) (md_service (ctn_metadata ctn)) (rl_default R) = Ok r"
  using assms by (auto simp: initialize_grpc_def split: option.splits)

context router
begin

lemma method_route:
  assumes "service_routes R handler ss (rl_default R) = Ok r" "s \<in> set ss" "(n, m) \<in> set (gs_methods s)"
  shows "\<exists>h. rl_lookup R r (''/'' @ gs_name s @ ''/'' @ n) = Some h \<and> handler m = Inr h"
proof -
  obtain h where h: "handler m = Inr h" using service_routes_handlers [OF assms] by blast
  with assms(2,3) have "rl_lookup R r (''/'' @ gs_name s @ ''/'' @ n) = Some h"
    unfolding service_routes_lookup [OF assms(1)] by blast
  with h show ?thesis by blast
qed

end

section \<open>Calling\<close>

abbreviation call_context :: "header list \<Rightarrow> val" where
  "call_context headers \<equiv> Val_Record [(''headers'', Val_List (header_vals headers))]"

lemma Method_call_Ok:
  assumes "wl_instantiate_async W (mt_instantiator h) = Some inst" "wl_get_func W inst (mt_function h) = Some f"
    and "wl_call_async W f [call_context headers, v] [Val_Option None] = Some [out]"
  shows "Method_call W h headers v = Ok out"
  using assms by (simp add: Method_call_def)

lemma initialize_grpc_calls: "initialize_grpc L (W\<lparr>wl_call_async := c\<rparr>) R env st name = initialize_grpc L W R env st name"
proof -
  have "method_handler (W\<lparr>wl_call_async := c\<rparr>) = method_handler W" by (intro ext) (simp add: method_handler_def split: option.split)
  moreover have "grpc_linker (W\<lparr>wl_call_async := c\<rparr>) = grpc_linker W" by (simp add: grpc_linker_def)
  ultimately show ?thesis by (simp add: initialize_grpc_def split: sum.split option.split)
qed

section \<open>Properties\<close>

text \<open>A component that answers every request with the sample value.\<close>

definition answer_lib :: "(bytes, unit, unit, unit, string, string) wasm_lib" where
  "answer_lib = link_lib\<lparr>wl_call_async := \<lambda>_ _ _. Some [sample_value []]\<rparr>"

definition request_encoder :: encoder where
  "request_encoder = (case ResponseEncoder_new sample_request of Inr e \<Rightarrow> e | Inl _ \<Rightarrow> Encoder_oneof [])"

definition request_fields :: "(string \<times> val) list" where
  "request_fields = [(''flag'', Val_Bool True), (''tags'', Val_List [Val_S32 1, Val_S32 (-1)]),
     (''child'', Val_Option None), (''choice'', Val_Option None)]"

lemma request_encoder_new: "ResponseEncoder_new sample_request = Inr request_encoder"
  by code_simp

lemma request_schema_ok: "schema_ok sample_request"
  by code_simp

lemma request_canonical: "canonical_record (field_subfields sample_request) request_fields"
  by code_simp

lemma request_bytes: "wire_bytes leb_lib request_encoder (Val_Record request_fields) = Some [8, 1, 18, 2, 2, 1]"
  by code_simp



end
