(* ===== verification/Logging.thy ===== *)
theory Logging
  imports Names
begin

text \<open>
  Log records (\<^verbatim>\<open>runtime/logging.rs\<close> and the logging contexts of \<^verbatim>\<open>runtime/cri/mod.rs\<close>). The macros hand an event with a level, tags and a
  message to the \<^verbatim>\<open>tracing\<close> crate; here they return that event. A message is the formatted text. The tags are what records are
  filtered by, so that a tenant sees exactly the records of its own components.
\<close>

section \<open>The macros\<close>

datatype level = LEVEL_ERROR | LEVEL_WARN | LEVEL_INFO

record log_event =
  le_level :: level
  le_tags :: "(string \<times> string) list"
  le_message :: string

text \<open>The two arms of \<^verbatim>\<open>log!\<close>: the name that a record is about.\<close>

datatype log_subject = Log_component component_name | Log_pod pod_name

definition component_tags :: "component_name \<Rightarrow> (string \<times> string) list" where
  "component_tags c =
     [(''domain'', DomainUuid_to_string (sn_domain (cn_server c))), (''server'', sn_server (cn_server c)), (''version'', cn_version c)]"

fun subject_tags :: "log_subject \<Rightarrow> (string \<times> string) list" where
  "subject_tags (Log_component component) = component_tags component"
| "subject_tags (Log_pod pod) = component_tags (pn_component pod) @ [(''pod'', nat_decimal (unat (pn_pod pod)))]"

definition log_at :: "level \<Rightarrow> log_subject \<Rightarrow> string \<Rightarrow> log_event" where
  "log_at l subject message = \<lparr>le_level = l, le_tags = subject_tags subject, le_message = message\<rparr>"

definition log_error_about :: "log_subject \<Rightarrow> string \<Rightarrow> log_event" where
  "log_error_about = log_at LEVEL_ERROR"

definition log_error_globally :: "string \<Rightarrow> log_event" where
  "log_error_globally message = \<lparr>le_level = LEVEL_ERROR, le_tags = [], le_message = message\<rparr>"

definition log_warn :: "log_subject \<Rightarrow> string \<Rightarrow> log_event" where
  "log_warn = log_at LEVEL_WARN"

definition log_info :: "log_subject \<Rightarrow> string \<Rightarrow> log_event" where
  "log_info = log_at LEVEL_INFO"

definition log_info_globally :: "string \<Rightarrow> log_event" where
  "log_info_globally message = \<lparr>le_level = LEVEL_INFO, le_tags = [], le_message = message\<rparr>"

section \<open>Errors of the CRI services\<close>

datatype error_context = GlobalLogs | Component_logs component_name | Pod_logs pod_name

text \<open>\<open>error\<close> is the \<^verbatim>\<open>Debug\<close> text of the error.\<close>

fun ErrorLoggingContext_log :: "error_context \<Rightarrow> string \<Rightarrow> log_event" where
  "ErrorLoggingContext_log GlobalLogs error = log_error_globally error"
| "ErrorLoggingContext_log (Component_logs component) error = log_error_about (Log_component component) error"
| "ErrorLoggingContext_log (Pod_logs pod) error = log_error_about (Log_pod pod) error"

section \<open>Reading the tags\<close>

text \<open>A record belongs to a tenant, or to a subject, when it carries its tags.\<close>

definition of_domain :: "domain_uuid \<Rightarrow> log_event \<Rightarrow> bool" where
  "of_domain d r \<longleftrightarrow> map_of (le_tags r) ''domain'' = Some (DomainUuid_to_string d)"

definition of_subject :: "log_subject \<Rightarrow> log_event \<Rightarrow> bool" where
  "of_subject s r \<longleftrightarrow> set (subject_tags s) \<subseteq> set (le_tags r)"

text \<open>What the writer meant: the component of a subject, and which subjects are part of another.\<close>

fun subject_component :: "log_subject \<Rightarrow> component_name" where
  "subject_component (Log_component c) = c"
| "subject_component (Log_pod p) = pn_component p"

fun subject_within :: "log_subject \<Rightarrow> log_subject \<Rightarrow> bool" where
  "subject_within (Log_component c) s \<longleftrightarrow> subject_component s = c"
| "subject_within (Log_pod p) s \<longleftrightarrow> s = Log_pod p"

abbreviation subject_domain :: "log_subject \<Rightarrow> domain_uuid" where
  "subject_domain s \<equiv> sn_domain (cn_server (subject_component s))"

fun context_subject :: "error_context \<Rightarrow> log_subject option" where
  "context_subject GlobalLogs = None"
| "context_subject (Component_logs c) = Some (Log_component c)"
| "context_subject (Pod_logs p) = Some (Log_pod p)"

lemma context_log:
  "ErrorLoggingContext_log ctx e = (case context_subject ctx of None \<Rightarrow> log_error_globally e | Some s \<Rightarrow> log_at LEVEL_ERROR s e)"
  by (cases ctx) (simp_all add: log_error_about_def)

lemma DomainUuid_to_string_inject:
  "domain_wf d \<Longrightarrow> domain_wf d' \<Longrightarrow> DomainUuid_to_string d = DomainUuid_to_string d' \<longleftrightarrow> d = d'"
  by (metis DomainUuid_parse_to_string sum.inject(2))

lemma decimal_digit_inject: "(char_of (48 + a mod 10) :: char) = char_of (48 + b mod 10) \<longleftrightarrow> a mod 10 = b mod 10" for a b :: nat
proof
  assume "(char_of (48 + a mod 10) :: char) = char_of (48 + b mod 10)"
  then have "(of_char (char_of (48 + a mod 10)) :: nat) = of_char (char_of (48 + b mod 10))" by (rule arg_cong)
  moreover have "48 + a mod 10 < 256" "48 + b mod 10 < 256" using pos_mod_bound [of 10 "int a"] by linarith+
  ultimately show "a mod 10 = b mod 10" by simp
qed simp

lemma nat_decimal_not_Nil [simp]: "nat_decimal n \<noteq> []" "[] \<noteq> nat_decimal n"
  by (simp_all add: nat_decimal.simps [of n])

lemma nat_decimal_inject [simp]: "nat_decimal m = nat_decimal n \<longleftrightarrow> m = n"
proof (induction m arbitrary: n rule: less_induct)
  case (less m)
  have "m = n" if eq: "nat_decimal m = nat_decimal n"
  proof (cases "m < 10"; cases "n < 10")
    assume "m < 10" "n < 10"
    with eq decimal_digit_inject [of m n] show ?thesis by (simp add: nat_decimal.simps [of m] nat_decimal.simps [of n])
  next
    assume big: "\<not> m < 10" "\<not> n < 10"
    with eq have "nat_decimal (m div 10) = nat_decimal (n div 10)" "m mod 10 = n mod 10"
      using decimal_digit_inject [of m n] by (simp_all add: nat_decimal.simps [of m] nat_decimal.simps [of n])
    moreover have "m div 10 < m" using big by simp
    ultimately show ?thesis using less.IH [of "m div 10" "n div 10"] by (metis div_mult_mod_eq)
  qed (use eq in \<open>simp_all add: nat_decimal.simps [of m] nat_decimal.simps [of n]\<close>)
  then show ?case by blast
qed

lemma component_tags_inject:
  assumes "domain_wf (sn_domain (cn_server c))" "domain_wf (sn_domain (cn_server c'))"
  shows "component_tags c = component_tags c' \<longleftrightarrow> c = c'"
  by (cases c; cases c'; cases "cn_server c"; cases "cn_server c'")
    (use assms in \<open>auto simp: component_tags_def DomainUuid_to_string_inject\<close>)

lemma of_subject_component:
  "set (component_tags c) \<subseteq> set (subject_tags s) \<longleftrightarrow> component_tags c = component_tags (subject_component s)"
  by (cases s) (auto simp: component_tags_def)

lemma pod_name_eq_iff: "p = q \<longleftrightarrow> pn_component p = pn_component q \<and> unat (pn_pod p) = unat (pn_pod q)" for p q :: pod_name
  by (cases p; cases q) (simp add: word_unat_eq_iff)

lemma pod_tag_member:
  "(''pod'', nat_decimal (unat k)) \<in> set (subject_tags s) \<longleftrightarrow> (\<exists>q. s = Log_pod q \<and> unat (pn_pod q) = unat k)"
  by (cases s) (auto simp: component_tags_def)

lemma of_subject_log_at:
  assumes "domain_wf (subject_domain s)" "domain_wf (subject_domain s')"
  shows "of_subject s (log_at l s' message) \<longleftrightarrow> subject_within s s'"
proof (cases s)
  case (Log_component c)
  with assms show ?thesis by (auto simp: of_subject_def log_at_def of_subject_component component_tags_inject)
next
  case (Log_pod p)
  then have "of_subject s (log_at l s' message) \<longleftrightarrow>
      component_tags (pn_component p) = component_tags (subject_component s') \<and> (\<exists>q. s' = Log_pod q \<and> unat (pn_pod q) = unat (pn_pod p))"
    using of_subject_component [of "pn_component p" s'] pod_tag_member [of "pn_pod p" s'] by (simp add: of_subject_def log_at_def conj_commute)
  also have "\<dots> \<longleftrightarrow> subject_within s s'"
    using component_tags_inject [of "pn_component p" "subject_component s'"] assms Log_pod
    by (cases s') (simp_all add: pod_name_eq_iff [of _ p] eq_commute)
  finally show ?thesis .
qed

lemma of_domain_log_at:
  assumes "domain_wf d" "domain_wf (subject_domain s)"
  shows "of_domain d (log_at l s message) \<longleftrightarrow> subject_domain s = d"
  using assms by (cases s) (auto simp: of_domain_def log_at_def component_tags_def DomainUuid_to_string_inject)

section \<open>Properties\<close>

text \<open>A log is what a sequence of logging calls emits.\<close>

datatype log_call =
    Log_error error_context string | Log_warn log_subject string | Log_info log_subject string | Log_info_globally string

fun emit :: "log_call \<Rightarrow> log_event" where
  "emit (Log_error ctx message) = ErrorLoggingContext_log ctx message"
| "emit (Log_warn s message) = log_warn s message"
| "emit (Log_info s message) = log_info s message"
| "emit (Log_info_globally message) = log_info_globally message"

fun call_subject :: "log_call \<Rightarrow> log_subject option" where
  "call_subject (Log_error ctx _) = context_subject ctx"
| "call_subject (Log_warn s _) = Some s"
| "call_subject (Log_info s _) = Some s"
| "call_subject (Log_info_globally _) = None"

lemma emit_tags: "le_tags (emit call) = (case call_subject call of None \<Rightarrow> [] | Some s \<Rightarrow> subject_tags s)"
  by (cases call)
    (simp_all add: context_log log_warn_def log_info_def log_at_def log_info_globally_def log_error_globally_def split: option.split)

lemma subject_tags_not_Nil [simp]: "subject_tags s \<noteq> []"
  by (cases s) (simp_all add: component_tags_def)

lemma emit_of_domain:
  assumes "domain_wf d" "\<And>s. call_subject call = Some s \<Longrightarrow> domain_wf (subject_domain s)"
  shows "of_domain d (emit call) \<longleftrightarrow> (\<exists>s. call_subject call = Some s \<and> subject_domain s = d)"
proof (cases "call_subject call")
  case None
  then show ?thesis by (simp add: of_domain_def emit_tags)
next
  case (Some s')
  then have "of_domain d (emit call) = of_domain d (log_at LEVEL_INFO s' [])" by (simp add: of_domain_def emit_tags log_at_def)
  with Some of_domain_log_at [OF assms(1) assms(2) [OF Some]] show ?thesis by simp
qed

lemma emit_of_subject:
  assumes "domain_wf (subject_domain s)" "\<And>s. call_subject call = Some s \<Longrightarrow> domain_wf (subject_domain s)"
  shows "of_subject s (emit call) \<longleftrightarrow> (\<exists>s'. call_subject call = Some s' \<and> subject_within s s')"
proof (cases "call_subject call")
  case None
  then show ?thesis by (simp add: of_subject_def emit_tags)
next
  case (Some s')
  then have "of_subject s (emit call) = of_subject s (log_at LEVEL_INFO s' [])" by (simp add: of_subject_def emit_tags log_at_def)
  with Some of_subject_log_at [OF assms(1) assms(2) [OF Some]] show ?thesis by simp
qed

lemma sample_domain_wf: "domain_wf (sn_domain (cn_server sample_component))"
  by code_simp


definition sample_calls :: "log_call list" where
  "sample_calls = [Log_info (Log_pod (PodName_new sample_component 7)) ''up'', Log_error GlobalLogs ''lost'',
     Log_warn (Log_component sample_component) ''slow'', Log_info (Log_pod (PodName_new sample_component 8)) ''up'']"


end
