(* ===== verification/Pod_Contract.thy ===== *)
theory Pod_Contract
  imports Pod_Claims
begin

text \<open>
  The contract of the pod state machine: the table of \<^verbatim>\<open>runtime/README.md\<close> that says for every CRI call and every pod
  state whether the call is an error, is idempotent or moves the pod to another state. The abstract state is a map from pod
  IDs to life-cycle states; the calls of \<open>Pod_State\<close> refine the table, apart from three cells in which the code
  differs from it.
\<close>

section \<open>The documented table\<close>

datatype pod_call = CreateContainer | StartContainer | StopContainer | RemoveContainer | StopPodSandbox | RemovePodSandbox

text \<open>\<^const>\<open>None\<close> is an error, \<^term>\<open>Some None\<close> means that the pod is gone afterwards, an unchanged state is idempotency.\<close>

fun readme :: "pod_call \<Rightarrow> pod_state \<Rightarrow> pod_state option option" where
  "readme CreateContainer s =
     (case s of Initiated \<Rightarrow> Some (Some Created) | Removed \<Rightarrow> Some (Some Created)
      | Created \<Rightarrow> Some (Some s) | Starting \<Rightarrow> Some (Some s) | Running \<Rightarrow> Some (Some s) | _ \<Rightarrow> None)"
| "readme StartContainer s =
     (case s of Created \<Rightarrow> Some (Some Starting) | Stopped \<Rightarrow> Some (Some Starting)
      | Starting \<Rightarrow> Some (Some s) | Running \<Rightarrow> Some (Some s) | _ \<Rightarrow> None)"
| "readme StopContainer s =
     (case s of Starting \<Rightarrow> Some (Some Stopped) | Running \<Rightarrow> Some (Some Stopped) | Stopped \<Rightarrow> Some (Some s) | _ \<Rightarrow> None)"
| "readme RemoveContainer s = (case s of Stopped \<Rightarrow> Some (Some Removed) | Removed \<Rightarrow> Some (Some s) | _ \<Rightarrow> None)"
| "readme StopPodSandbox s = Some (Some Killed)"
| "readme RemovePodSandbox s = (case s of Killed \<Rightarrow> Some None | _ \<Rightarrow> None)"

text \<open>The cells in which the code differs, with what it does.\<close>

fun deviation :: "pod_call \<Rightarrow> pod_state \<Rightarrow> pod_state option option option" where
  "deviation CreateContainer Starting = Some (Some (Some Created))"
| "deviation CreateContainer Running = Some (Some (Some Created))"
| "deviation StartContainer Stopped = Some None"
| "deviation call s = None"

definition contract :: "pod_call \<Rightarrow> pod_state \<Rightarrow> pod_state option option" where
  "contract call s = (case deviation call s of Some cell \<Rightarrow> cell | None \<Rightarrow> readme call s)"

section \<open>Refinement\<close>

definition abs_pods :: "'m pod_map_lib \<Rightarrow> 'm \<Rightarrow> pod_id \<Rightarrow> pod_state option" where
  "abs_pods P m = (\<lambda>k. map_option pod_state (pm_get P m k))"

text \<open>
  A call with its arguments. \<^verbatim>\<open>StartContainer\<close> is represented by its first access, the one that establishes exclusivity.
\<close>

datatype pod_request =
    Create_request "container_metadata option" string_map string_map string_map "image_spec option" int
  | Start_request
  | Stop_request
  | Remove_request
  | Kill_request "error_chain + unit" "error_chain + unit"
  | Delete_request

fun request_call :: "pod_request \<Rightarrow> pod_call" where
  "request_call (Create_request meta labels annotations env img t) = CreateContainer"
| "request_call Start_request = StartContainer"
| "request_call Stop_request = StopContainer"
| "request_call Remove_request = RemoveContainer"
| "request_call (Kill_request deactivated deallocated) = StopPodSandbox"
| "request_call Delete_request = RemovePodSandbox"

fun run_request :: "'m pod_map_lib \<Rightarrow> pod_name \<Rightarrow> pod_request \<Rightarrow> 'm runtime \<Rightarrow> (runtime_error + unit) \<times> 'm runtime" where
  "run_request P name (Create_request meta labels annotations env img t) rt =
     create_container P name meta labels annotations env img t rt"
| "run_request P name Start_request rt =
     (case start_claim P name rt of
        (Claimed p routes, rt) \<Rightarrow> (Inr (), rt)
      | (Claim_done, rt) \<Rightarrow> (Inr (), rt)
      | (Claim_waiting f, rt) \<Rightarrow> (Inr (), rt)
      | (Claim_error e, rt) \<Rightarrow> (Inl e, rt))"
| "run_request P name Stop_request rt = stop_container P name rt"
| "run_request P name Remove_request rt = remove_container P name rt"
| "run_request P name (Kill_request deactivated deallocated) rt = kill_pod P name deactivated deallocated rt"
| "run_request P name Delete_request rt = delete_pod P name rt"

text \<open>
  What the table takes for granted: a repeated \<^verbatim>\<open>CreateContainer\<close> has unchanged parameters, the initializer of a started container has
  delivered its routes, a running container can be killed, and the address manager succeeds.
\<close>

fun granted :: "pod_request \<Rightarrow> pod \<Rightarrow> 'm runtime \<Rightarrow> bool" where
  "granted (Create_request meta labels annotations env img t) p rt \<longleftrightarrow>
     (pod_state p \<in> {Created, Starting, Running} \<longrightarrow> same_container p meta labels annotations env img)"
| "granted Start_request p rt \<longleftrightarrow>
     (pod_state p = Created \<longrightarrow> (\<exists>f r. pod_routes p = Some f \<and> rt_futures rt f = Ready r))"
| "granted Stop_request p rt \<longleftrightarrow> (pod_state p = Running \<longrightarrow> rt_cells rt (pod_killer p) \<noteq> None)"
| "granted Remove_request p rt \<longleftrightarrow> True"
| "granted (Kill_request deactivated deallocated) p rt \<longleftrightarrow> deactivated = Inr () \<and> deallocated = Inr ()"
| "granted Delete_request p rt \<longleftrightarrow> True"

definition refines :: "'m pod_map_lib \<Rightarrow> pod_id \<Rightarrow> pod_state option option \<Rightarrow> 'm runtime \<Rightarrow> (runtime_error + unit) \<times> 'm runtime \<Rightarrow> bool" where
  "refines P k cell rt out \<longleftrightarrow>
     (case cell of
        None \<Rightarrow> (\<exists>e. fst out = Inl e) \<and> abs_pods P (rt_pods (snd out)) = abs_pods P (rt_pods rt)
      | Some s \<Rightarrow> fst out = Inr () \<and> abs_pods P (rt_pods (snd out)) = (abs_pods P (rt_pods rt))(k := s))"

context pod_map
begin

lemma abs_pods_insert: "abs_pods P (pm_insert P m k q) = (abs_pods P m)(k \<mapsto> pod_state q)"
  by (auto simp: abs_pods_def get_insert)

lemma abs_pods_remove: "abs_pods P (pm_remove P m k) = (abs_pods P m)(k := None)"
  by (auto simp: abs_pods_def get_remove)

lemma abs_pods_state: "pm_get P m k = Some p \<Longrightarrow> pod_state p = s \<Longrightarrow> (abs_pods P m)(k \<mapsto> s) = abs_pods P m"
  by (auto simp: abs_pods_def)

lemma create_refines:
  assumes "pm_get P (rt_pods rt) (pn_pod name) = Some p" "granted (Create_request meta labels annotations env img t) p rt"
  shows "refines P (pn_pod name) (contract CreateContainer (pod_state p)) rt
    (create_container P name meta labels annotations env img t rt)"
  using assms
  by (cases "pod_state p")
    (auto simp: refines_def contract_def create_container_def compute_def create_closure_def grpc_def Let_def
      abs_pods_insert abs_pods_state)

lemma start_refines:
  assumes "pm_get P (rt_pods rt) (pn_pod name) = Some p" "granted Start_request p rt"
  shows "refines P (pn_pod name) (contract StartContainer (pod_state p)) rt (run_request P name Start_request rt)"
  using assms
  by (cases "pod_state p")
    (auto simp: refines_def contract_def start_claim_def compute_def start_closure_def abs_pods_insert abs_pods_state)

lemma stop_refines:
  assumes "pm_get P (rt_pods rt) (pn_pod name) = Some p" "granted Stop_request p rt"
  shows "refines P (pn_pod name) (contract StopContainer (pod_state p)) rt (stop_container P name rt)"
  using assms
  by (cases "pod_state p")
    (auto simp: refines_def contract_def stop_container_def stop_container_without_wait_def stop_mark_def compute_def stop_closure_def
      take_killer_def kill_server_def abs_pods_insert abs_pods_state)

lemma remove_refines:
  assumes "pm_get P (rt_pods rt) (pn_pod name) = Some p"
  shows "refines P (pn_pod name) (contract RemoveContainer (pod_state p)) rt (remove_container P name rt)"
  using assms
  by (cases "pod_state p")
    (auto simp: refines_def contract_def remove_container_def compute_def remove_closure_def abs_pods_insert abs_pods_state)

lemma kill_refines:
  assumes "pm_get P (rt_pods rt) (pn_pod name) = Some p"
  shows "refines P (pn_pod name) (contract StopPodSandbox (pod_state p)) rt (kill_pod P name (Inr ()) (Inr ()) rt)"
  using assms
  by (cases "pod_state p"; cases "rt_cells rt (pod_killer p)")
    (auto simp: refines_def contract_def kill_pod_def kill_pod_without_wait_def compute_def kill_closure_def take_killer_def
      kill_server_def Let_def abs_pods_insert abs_pods_state)

lemma delete_refines:
  assumes "pm_get P (rt_pods rt) (pn_pod name) = Some p"
  shows "refines P (pn_pod name) (contract RemovePodSandbox (pod_state p)) rt (delete_pod P name rt)"
  using assms
  by (cases "pod_state p")
    (auto simp: refines_def contract_def delete_pod_def compute_def delete_closure_def abs_pods_remove)

lemma run_request_refines:
  "pm_get P (rt_pods rt) (pn_pod name) = Some p \<Longrightarrow> granted req p rt
     \<Longrightarrow> refines P (pn_pod name) (contract (request_call req) (pod_state p)) rt (run_request P name req rt)"
proof (cases req)
  case Start_request
  assume "pm_get P (rt_pods rt) (pn_pod name) = Some p" "granted req p rt"
  with Start_request show ?thesis using start_refines by (simp del: run_request.simps granted.simps)
qed (simp_all add: create_refines stop_refines remove_refines kill_refines delete_refines)

lemma absent_refused:
  assumes "pm_get P (rt_pods rt) (pn_pod name) = None"
  shows "\<exists>e. run_request P name req rt = (Inl e, rt)"
  using assms
  by (cases req)
    (auto simp: create_container_def create_closure_def start_claim_def start_closure_def stop_container_def
      stop_container_without_wait_def stop_mark_def stop_closure_def remove_container_def remove_closure_def kill_pod_def
      kill_pod_without_wait_def kill_closure_def delete_pod_def delete_closure_def compute_def)

end



end
