(* ===== verification/Cri_Image.thy ===== *)
theory Cri_Image
  imports Cri_Runtime Container_Claims
begin

text \<open>
  The CRI image service (\<^verbatim>\<open>ProxyingImageService\<close> of \<^verbatim>\<open>runtime/cri/image.rs\<close>): a definition per call on the container store and the
  downstream runtime, which is a parameter as in the runtime service.

  The regular expression \<^verbatim>\<open>IMAGE_ID_RE\<close> is used for its groups, \<open>captures\<close>; the locale \<open>image_id_regex\<close> states what it matches. There is
  at most one way to match it, so that the groups do not depend on the engine's preferences.
\<close>

section \<open>Image IDs\<close>

datatype image_id_error = Malformed_image_id | Bad_component_name name_error

definition registry_and_component_from_image_spec ::
    "(string \<Rightarrow> (string \<times> string \<times> string \<times> string) option) \<Rightarrow> (rx \<Rightarrow> string \<Rightarrow> bool) \<Rightarrow> string
      \<Rightarrow> image_id_error + string \<times> component_name" where
  "registry_and_component_from_image_spec captures is_match image_id =
     (case captures image_id of
        None \<Rightarrow> Inl Malformed_image_id
      | Some (registry, domain, server, version) \<Rightarrow>
          emap_err Bad_component_name
            (ebind (DomainUuid_parse domain) (\<lambda>domain.
             ebind (ComponentName_new is_match domain server version) (\<lambda>name. Inr (registry, name)))))"

locale image_id_regex =
  fixes captures :: "string \<Rightarrow> (string \<times> string \<times> string \<times> string) option"
  assumes captures_iff:
    "captures s = Some (registry, domain, server, version) \<longleftrightarrow>
       s = registry @ ''/'' @ domain @ ''/'' @ server @ '':'' @ version
       \<and> CHR ''/'' \<notin> set registry \<and> CHR ''/'' \<notin> set domain \<and> CHR '':'' \<notin> set server \<and> CHR 0x0A \<notin> set version"

text \<open>The matcher as a function: cut at the first slash, the next one and the first colon after it.\<close>

definition cut_at :: "char \<Rightarrow> string \<Rightarrow> (string \<times> string) option" where
  "cut_at c s = (case dropWhile (\<lambda>x. x \<noteq> c) s of [] \<Rightarrow> None | _ # rest \<Rightarrow> Some (takeWhile (\<lambda>x. x \<noteq> c) s, rest))"

definition image_id_captures :: "string \<Rightarrow> (string \<times> string \<times> string \<times> string) option" where
  "image_id_captures s =
     (case cut_at CHR ''/'' s of
        None \<Rightarrow> None
      | Some (registry, s) \<Rightarrow>
          (case cut_at CHR ''/'' s of
             None \<Rightarrow> None
           | Some (domain, s) \<Rightarrow>
               (case cut_at CHR '':'' s of
                  None \<Rightarrow> None
                | Some (server, version) \<Rightarrow>
                    if CHR 0x0A \<in> set version then None else Some (registry, domain, server, version))))"

lemma cut_at_iff: "cut_at c s = Some (a, b) \<longleftrightarrow> s = a @ c # b \<and> c \<notin> set a"
proof
  assume "cut_at c s = Some (a, b)"
  then obtain x where rest: "dropWhile (\<lambda>x. x \<noteq> c) s = x # b" "a = takeWhile (\<lambda>x. x \<noteq> c) s"
    by (auto simp: cut_at_def split: list.splits)
  then have "x = c" using hd_dropWhile [of "\<lambda>x. x \<noteq> c" s] by simp
  with rest have "s = a @ c # b" using takeWhile_dropWhile_id [of "\<lambda>x. x \<noteq> c" s] by simp
  moreover have "c \<notin> set a" using rest(2) set_takeWhileD [of c "\<lambda>x. x \<noteq> c" s] by blast
  ultimately show "s = a @ c # b \<and> c \<notin> set a" by blast
next
  have "c \<notin> set a \<Longrightarrow> dropWhile (\<lambda>x. x \<noteq> c) (a @ c # b) = c # b \<and> takeWhile (\<lambda>x. x \<noteq> c) (a @ c # b) = a"
    by (induction a) auto
  then show "s = a @ c # b \<and> c \<notin> set a \<Longrightarrow> cut_at c s = Some (a, b)" by (simp add: cut_at_def)
qed

interpretation image_id: image_id_regex image_id_captures
proof
  fix s registry domain server version
  let ?shape = "s = registry @ ''/'' @ domain @ ''/'' @ server @ '':'' @ version
    \<and> CHR ''/'' \<notin> set registry \<and> CHR ''/'' \<notin> set domain \<and> CHR '':'' \<notin> set server \<and> CHR 0x0A \<notin> set version"
  have "?shape \<Longrightarrow> cut_at CHR ''/'' s = Some (registry, domain @ ''/'' @ server @ '':'' @ version)"
    "?shape \<Longrightarrow> cut_at CHR ''/'' (domain @ ''/'' @ server @ '':'' @ version) = Some (domain, server @ '':'' @ version)"
    "?shape \<Longrightarrow> cut_at CHR '':'' (server @ '':'' @ version) = Some (server, version)"
    by (simp_all add: cut_at_iff)
  then have "?shape \<Longrightarrow> image_id_captures s = Some (registry, domain, server, version)" by (simp add: image_id_captures_def)
  moreover have "image_id_captures s = Some (registry, domain, server, version) \<Longrightarrow> ?shape"
    by (auto simp: image_id_captures_def cut_at_iff split: option.splits if_splits)
  ultimately show "image_id_captures s = Some (registry, domain, server, version) \<longleftrightarrow> ?shape" by blast
qed

section \<open>The service\<close>

datatype image_error =
    Invalid_image_id string image_id_error
  | Invalid_image_labels string_map label_error
  | Pod_label_mismatch component_name component_name
  | Error_pulling_image string store_error
  | Error_removing_image string store_error
  | Image_store_error store_error

type_synonym image_status = "image_error tonic_status"

datatype passed_image_request =
    Pass_list_images "image_spec option"
  | Pass_image_status "image_spec option"
  | Pass_pull_image "image_spec option" "pod_sandbox_config option"
  | Pass_remove_image "image_spec option"

record filesystem_usage_message =
  fm_timestamp :: int
  fm_mountpoint :: string
  fm_used_bytes :: u64
  fm_inodes_used :: u64

record 'd image_downstream_lib =
  di_pass :: "passed_image_request \<Rightarrow> 'd \<Rightarrow> (image_status + passed_reply) \<times> 'd"
  di_image_fs_info :: "'d \<Rightarrow> (image_status + filesystem_usage_message list) \<times> 'd"

record 'd image_service =
  isv_containers :: store
  isv_downstream :: 'd

type_synonym ('a, 'd) image_handled = "('a, image_status) outcome \<times> 'd image_service"

definition ProxyingImageService_new :: "store \<Rightarrow> 'd \<Rightarrow> 'd image_service" where
  "ProxyingImageService_new containers oci_image = \<lparr>isv_containers = containers, isv_downstream = oci_image\<rparr>"

definition pass_image :: "'d image_downstream_lib \<Rightarrow> passed_image_request \<Rightarrow> 'd image_service \<Rightarrow> ('u reply, 'd) image_handled" where
  "pass_image D req sv =
     (let (r, d) = di_pass D req (isv_downstream sv)
      in ((case r of Inl s \<Rightarrow> Err s | Inr reply \<Rightarrow> Ok (From_downstream reply)), sv\<lparr>isv_downstream := d\<rparr>))"

text \<open>\<open>filter_image\<close> is the image of the request's filter.\<close>

definition list_images :: "'d image_downstream_lib \<Rightarrow> image_spec option \<Rightarrow> 'd image_service \<Rightarrow> (unit reply, 'd) image_handled" where
  "list_images D filter_image sv =
     (let image_spec = (case filter_image of None \<Rightarrow> default_image_spec | Some i \<Rightarrow> i)
      in if is_runtime_handler image_spec \<noteq> ''TODO-this-should-be-something-else-but-what?'' then pass_image D (Pass_list_images filter_image) sv
         else (Panic, sv))"

definition other_handler :: "image_spec option \<Rightarrow> bool" where
  "other_handler img = (case img of None \<Rightarrow> False | Some spec \<Rightarrow> is_runtime_handler spec \<noteq> CONTAINER_RUNTIME_HANDLER)"

text \<open>The kind that \<^verbatim>\<open>downcast_ref::<IoError>\<close> finds below the context of an error.\<close>

fun io_kind :: "store_error \<Rightarrow> io_error option" where
  "io_kind (Io_at ctx p e) = Some e"
| "io_kind (Io_in ctx e) = Some e"
| "io_kind _ = None"

type_synonym captures = "string \<Rightarrow> (string \<times> string \<times> string \<times> string) option"

definition image_status ::
    "('c, 'm) container_lib \<Rightarrow> 'd image_downstream_lib \<Rightarrow> captures \<Rightarrow> (rx \<Rightarrow> string \<Rightarrow> bool) \<Rightarrow> io_env \<Rightarrow> image_spec option
      \<Rightarrow> 'd image_service \<Rightarrow> (image option reply, 'd) image_handled" where
  "image_status L D captures is_match env request_image sv =
     (if other_handler request_image then pass_image D (Pass_image_status request_image) sv
      else
        let image_spec = (case request_image of None \<Rightarrow> default_image_spec | Some i \<Rightarrow> i)
        in (case log_error (emap_err (Invalid_image_id (is_image image_spec))
                    (registry_and_component_from_image_spec captures is_match (is_image image_spec))) of
              Inl s \<Rightarrow> (Err s, sv)
            | Inr (registry, name) \<Rightarrow>
                (case get_image L env name (isv_containers sv) of
                   Inr img \<Rightarrow> (Ok (Upstream (Some img)), sv)
                 | Inl e \<Rightarrow>
                     if io_kind e = Some NotFound then (Ok (Upstream None), sv)
                     else (Err (Status_internal (Image_store_error e)), sv))))"

definition pull_image ::
    "('c, 'm) container_lib \<Rightarrow> 'd image_downstream_lib \<Rightarrow> captures \<Rightarrow> (rx \<Rightarrow> string \<Rightarrow> bool) \<Rightarrow> io_env \<Rightarrow> http
      \<Rightarrow> image_spec option \<Rightarrow> pod_sandbox_config option \<Rightarrow> 'd image_service \<Rightarrow> (string reply, 'd) image_handled" where
  "pull_image L D captures is_match env http request_image sandbox_config sv =
     (if other_handler request_image then pass_image D (Pass_pull_image request_image sandbox_config) sv
      else
        let image_spec = (case request_image of None \<Rightarrow> default_image_spec | Some i \<Rightarrow> i)
        in (case log_error (emap_err (Invalid_image_id (is_image image_spec))
                    (registry_and_component_from_image_spec captures is_match (is_image image_spec))) of
              Inl s \<Rightarrow> (Err s, sv)
            | Inr (registry, name_from_image) \<Rightarrow>
                let pod_labels = psc_labels (case sandbox_config of None \<Rightarrow> default_sandbox_config | Some c \<Rightarrow> c)
                in (case log_error (emap_err (Invalid_image_labels pod_labels) (component_name_from_labels is_match pod_labels)) of
                      Inl s \<Rightarrow> (Err s, sv)
                    | Inr name \<Rightarrow>
                        if name_from_image \<noteq> name then (Err (Status_internal (Pod_label_mismatch name_from_image name)), sv)
                        else
                          let (r, st) = pull L env http registry name image_spec (isv_containers sv); sv = sv\<lparr>isv_containers := st\<rparr>
                          in (case log_error (emap_err (Error_pulling_image (is_image image_spec)) r) of
                                Inl s \<Rightarrow> (Err s, sv)
                              | Inr _ \<Rightarrow> (Ok (Upstream (ComponentName_to_string name)), sv)))))"

definition remove_image ::
    "'d image_downstream_lib \<Rightarrow> captures \<Rightarrow> (rx \<Rightarrow> string \<Rightarrow> bool) \<Rightarrow> io_env \<Rightarrow> image_spec option \<Rightarrow> 'd image_service
      \<Rightarrow> (unit reply, 'd) image_handled" where
  "remove_image D captures is_match env request_image sv =
     (if other_handler request_image then pass_image D (Pass_remove_image request_image) sv
      else
        let image_spec = (case request_image of None \<Rightarrow> default_image_spec | Some i \<Rightarrow> i)
        in (case log_error (emap_err (Invalid_image_id (is_image image_spec))
                    (registry_and_component_from_image_spec captures is_match (is_image image_spec))) of
              Inl s \<Rightarrow> (Err s, sv)
            | Inr (registry, name) \<Rightarrow>
                let (r, st) = remove_image_files env name (isv_containers sv); sv = sv\<lparr>isv_containers := st\<rparr>
                in (case log_error (emap_err (Error_removing_image (is_image image_spec)) r) of
                      Inl s \<Rightarrow> (Err s, sv)
                    | Inr _ \<Rightarrow> (Ok (Upstream ()), sv))))"

definition image_fs_info ::
    "'d image_downstream_lib \<Rightarrow> int \<Rightarrow> 'd image_service \<Rightarrow> (filesystem_usage_message list, 'd) image_handled" where
  "image_fs_info D t sv =
     (let (r, d) = di_image_fs_info D (isv_downstream sv); sv = sv\<lparr>isv_downstream := d\<rparr>
      in (case r of
            Inl s \<Rightarrow> (Err s, sv)
          | Inr image_filesystems \<Rightarrow>
              (case log_error (emap_err Image_store_error (filesystem_usage_of (isv_containers sv))) of
                 Inl s \<Rightarrow> (Err s, sv)
               | Inr usage \<Rightarrow>
                   (Ok (\<lparr>fm_timestamp = t, fm_mountpoint = mountpoint (isv_containers sv), fm_used_bytes = fu_bytes usage,
                         fm_inodes_used = fu_inodes usage\<rparr> # image_filesystems), sv))))"

end
