(* ===== verification/Image_Claims.thy ===== *)
theory Image_Claims
  imports Cri_Image Cri_Claims
begin

text \<open>
  What the CRI image service guarantees: image IDs name components exactly, an image goes through pull, status and removal, and only the
  component that the pod's labels name is pulled.
\<close>

section \<open>Image IDs\<close>

definition image_id_of :: "string \<Rightarrow> component_name \<Rightarrow> string" where
  "image_id_of registry c =
     registry @ ''/'' @ DomainUuid_to_string (sn_domain (cn_server c)) @ ''/'' @ sn_server (cn_server c) @ '':'' @ cn_version c"

lemma domain_no_slash: "domain_wf d \<Longrightarrow> CHR ''/'' \<notin> set (DomainUuid_to_string d)"
proof
  assume "domain_wf d" "CHR ''/'' \<in> set (DomainUuid_to_string d)"
  then obtain h where h: "h \<in> set (hex_code (uuid d))" "CHR ''/'' = char_of_u8 h"
    by (auto simp: domain_wf_def DomainUuid_to_string_def from_bytes_def hexify_hex_code)
  have "h = u8_of_char CHR ''/''" by (simp add: h(2))
  moreover have "is_hex h" using h(1) by (rule hex_code_is_hex)
  ultimately show False by (simp add: is_hex_def u8_of_char_def)
qed

lemma server_no_colon: "server_name_doc s \<Longrightarrow> CHR '':'' \<notin> set s"
  by (auto simp: server_name_doc_def class_defs)

lemma version_no_newline: "version_doc v \<Longrightarrow> CHR 0x0A \<notin> set v"
proof
  assume "version_doc v" "CHR 0x0A \<in> set v"
  then have "alnum_dash CHR 0x0A"
    by (auto simp: version_doc_def prerelease_doc_def dest!: numeric_chars)
  then show False by (simp add: class_defs alnum_defs)
qed

lemma image_id_iff:
  assumes "regex_engine is_match" "image_id_regex captures"
  shows "registry_and_component_from_image_spec captures is_match s = Inr (registry, c) \<longleftrightarrow>
    component_wf is_match c \<and> CHR ''/'' \<notin> set registry \<and> s = image_id_of registry c"
proof
  assume "registry_and_component_from_image_spec captures is_match s = Inr (registry, c)"
  then show "component_wf is_match c \<and> CHR ''/'' \<notin> set registry \<and> s = image_id_of registry c"
    by (auto simp: registry_and_component_from_image_spec_def ebind_Inr_iff DomainUuid_parse_iff ComponentName_new_iff component_wf_def
        image_id_of_def image_id_regex.captures_iff [OF assms(2)] split: option.splits)
next
  assume shape: "component_wf is_match c \<and> CHR ''/'' \<notin> set registry \<and> s = image_id_of registry c"
  then have "captures s = Some (registry, DomainUuid_to_string (sn_domain (cn_server c)), sn_server (cn_server c), cn_version c)"
    unfolding image_id_regex.captures_iff [OF assms(2)]
    by (simp add: image_id_of_def component_wf_def domain_no_slash server_no_colon version_no_newline
        regex_engine.server_name_iff [OF assms(1)] regex_engine.version_iff [OF assms(1)])
  with shape show "registry_and_component_from_image_spec captures is_match s = Inr (registry, c)"
    by (simp add: registry_and_component_from_image_spec_def component_wf_def ebind_Inr_iff ComponentName_new_iff)
qed

section \<open>After a removal\<close>

lemma above_is_dir: "disk_ok d \<Longrightarrow> map_of d (p @ q) \<noteq> None \<Longrightarrow> q \<noteq> [] \<Longrightarrow> is_dir d p"
proof (induction q rule: rev_induct)
  case (snoc c q)
  then have "is_dir d (p @ q)" using disk_ok_child [OF snoc.prems(1), of "p @ q" c] by auto
  then show ?case using dir_prefix [OF snoc.prems(1)] by blast
qed simp

lemma removed_not_found:
  assumes "disk_ok d" "map_of d p \<noteq> None" "map_of d' \<subseteq>\<^sub>m map_of d"
  shows "lookup_error d' p = NotFound"
proof -
  have "is_dir d' (take i p)" if "i < length p" "exists_path d' (take i p)" for i
  proof -
    have "is_dir d (take i p)" using above_is_dir [OF assms(1), of "take i p" "drop i p"] assms(2) that(1) by simp
    with that(2) assms(3) show ?thesis by (force simp: is_dir_def exists_path_def map_le_def)
  qed
  then show ?thesis by (auto simp: lookup_error_def list_ex_iff)
qed

lemma remove_dirs_le: "map_of (st_disk (remove_dirs env ps st)) \<subseteq>\<^sub>m map_of (st_disk st)"
proof (induction ps arbitrary: st)
  case (Cons p ps)
  obtain r d where rd: "remove_dir env (Remove_directory p) p (st_disk st) = (r, d)" by (rule prod.exhaust)
  then have le: "map_of d \<subseteq>\<^sub>m map_of (st_disk st)"
    by (auto simp: remove_dir_def map_le_def split: option.splits node.splits if_splits)
  show ?case
  proof (cases r)
    case (Inr u)
    let ?st = "snd (count_inodes (- 1) (st\<lparr>st_disk := d\<rparr>))"
    have "remove_dirs env (p # ps) st = remove_dirs env ps ?st" using rd Inr by (simp add: on_disk_def)
    moreover have "st_disk ?st = d" by (simp add: count_inodes_def)
    ultimately show ?thesis using Cons [of ?st] le map_le_trans by metis
  qed (use rd le in \<open>simp add: on_disk_def\<close>)
qed simp

lemma pull_ok_bytes:
  assumes "pull_blocking env name component meta spec st = (Inr (), st')"
  shows "st_poisoned st' = st_poisoned st"
    "fu_bytes (st_usage st') = fu_bytes (st_usage st) + of_nat (8 + length component + length meta + length spec)"
  by (rule pull_blocking_ok [OF assms]; simp)+

lemma remove_ok_frame:
  assumes "remove_image_files env name st = (Inr (), st')" "store_ok st"
  shows "map_of (st_disk st') (container_path st name) = None" "lookup_error (st_disk st') (container_path st name) = NotFound"
    "st_root st' = st_root st"
proof -
  have keep: "keeps (removed_paths st name) st st'" using remove_keeps [of st name env] assms(1) by simp
  then show "st_root st' = st_root st" by (simp add: keeps_def)
  have "map_of (st_disk st) (container_path st name) \<noteq> None"
    using assms(1) by (auto simp: remove_image_files_def locked_def Let_def step_Inr remove_file_Inr split: if_splits)
  with keep assms(2) show "lookup_error (st_disk st') (container_path st name) = NotFound"
    by (intro removed_not_found [of "st_disk st"]) (auto simp: keeps_def store_ok_def)
  obtain st1 where "st' = remove_dirs env [component_path st name, butlast (component_path st name), butlast (butlast (component_path st name))] st1"
      "map_of (st_disk st1) (container_path st name) = None"
    using assms(1)
    by (auto simp: remove_image_files_def locked_def Let_def step_Inr remove_file_Inr count_bytes_def count_inodes_def simp del: remove_dirs.simps
        split: if_splits)
  then show "map_of (st_disk st') (container_path st name) = None"
    using remove_dirs_le by (metis domIff map_le_implies_dom_le subsetD)
qed

section \<open>Guarantees\<close>

text \<open>
  An image ID is accepted exactly when it is \<^verbatim>\<open>registry/domain/server:version\<close> with a well-formed component name and a registry
  without a slash, and it then gives back that registry and component.
\<close>

theorem image_id_exact:
  assumes "regex_engine is_match" "image_id_regex captures"
  shows "registry_and_component_from_image_spec captures is_match s = Inr (registry, c) \<longleftrightarrow>
    component_wf is_match c \<and> CHR ''/'' \<notin> set registry \<and> s = image_id_of registry c"
  using assms by (rule image_id_iff)

theorem image_id_exact_witness:
  "registry_and_component_from_image_spec image_id_captures rx_matches (image_id_of ''localhost:5000'' sample_component)
     = Inr (''localhost:5000'', sample_component)"
  using image_id_exact [OF deriv_engine.regex_engine_axioms image_id.image_id_regex_axioms] sample_component_wf by simp

text \<open>
  C25: The life cycle of an image, without input and output errors and with a registry that serves it: pulling it returns the name of the
  component as reference; then its status has that ID and the pulled image spec; it can be removed; then its status is empty, and the
  account shows as many bytes as before.
\<close>

theorem image_life_cycle:
  assumes "regex_engine is_match" "image_id_regex captures" "container_codecs L" "component_wf is_match c" "CHR ''/'' \<notin> set registry"
    and "is_image spec = image_id_of registry c" "is_runtime_handler spec = CONTAINER_RUNTIME_HANDLER" "finite (Mapping.keys (is_annotations spec))"
    and "component_name_from_labels is_match (psc_labels config) = Inr c"
    and "store_ok (isv_containers sv)" "\<not> st_poisoned (isv_containers sv)" "\<forall>call. io_fault env call = None" "free_for (isv_containers sv) c"
    and "fetch L http (st_insecure_registries (isv_containers sv)) registry c = Inr ctn" "cl_serialize L (ctn_component ctn) = Some bs"
    and "pull_image L D captures is_match env http (Some spec) (Some config) sv = (r1, sv1)"
    and "image_status L D captures is_match env (Some spec) sv1 = (r2, sv2)"
    and "remove_image D captures is_match env (Some spec) sv2 = (r3, sv3)"
    and "image_status L D captures is_match env (Some spec) sv3 = (r4, sv4)"
  shows "r1 = Ok (Upstream (ComponentName_to_string c))
    \<and> (\<exists>img. r2 = Ok (Upstream (Some img)) \<and> img_id img = ComponentName_to_string c \<and> img_spec img = Some spec)
    \<and> r3 = Ok (Upstream ()) \<and> r4 = Ok (Upstream None)
    \<and> fu_bytes (st_usage (isv_containers sv4)) = fu_bytes (st_usage (isv_containers sv))"
proof -
  let ?st = "isv_containers sv" and ?meta = "cl_metadata_encode L (ctn_metadata ctn)" and ?spec = "cl_image_spec_encode L spec"
  have here: "\<not> other_handler (Some spec)"
    and name: "registry_and_component_from_image_spec captures is_match (is_image spec) = Inr (registry, c)"
    using assms(4-7) image_id_iff [OF assms(1,2)] by (simp_all add: other_handler_def)
  note call = here name log_error_def Let_def
  obtain st1 where pulled: "pull_blocking env c bs ?meta ?spec ?st = (Inr (), st1)"
    using pull_blocking_succeeds [OF assms(10-13)] by blast
  then have "pull L env http registry c spec ?st = (Inr (), st1)" using assms(14,15) by (simp add: pull_def)
  then have 1: "r1 = Ok (Upstream (ComponentName_to_string c))" "sv1 = sv\<lparr>isv_containers := st1\<rparr>"
    using assms(16) by (auto simp: pull_image_def call assms(9))
  note eff = pull_effect [OF pulled assms(10)]
  then have paths: "container_path st1 c = container_path ?st c" "image_spec_path st1 c = image_spec_path ?st c"
    by (simp_all add: container_path_def image_spec_path_def component_path_def)
  have files: "map_of (st_disk st1) (container_path st1 c) = Some (File (to_le_bytes (of_nat (length bs)) @ bs @ ?meta))"
    "map_of (st_disk st1) (image_spec_path st1 c) = Some (File ?spec)" "store_ok st1"
    using eff by (simp_all add: paths)
  note img = container_codecs.pulled_image [OF assms(3) files(1,2) assms(8,12)]
  have 2: "\<exists>img. r2 = Ok (Upstream (Some img)) \<and> img_id img = ComponentName_to_string c \<and> img_spec img = Some spec" "sv2 = sv1"
    using assms(17) img by (auto simp: image_status_def call 1)
  obtain st3 where removed: "remove_image_files env c st1 = (Inr (), st3)"
    using remove_succeeds [OF _ assms(12) files(1,2)] pull_ok_bytes(1) [OF pulled] assms(11) by auto
  then have 3: "r3 = Ok (Upstream ())" "sv3 = sv\<lparr>isv_containers := st3\<rparr>"
    using assms(18) by (auto simp: remove_image_def call 1 2)
  note gone = remove_ok_frame [OF removed files(3)]
  have "container_path st3 c = container_path st1 c" using gone(3) by (simp add: container_path_def component_path_def)
  moreover have "container_path st1 c \<noteq> []" by (simp add: container_path_def)
  ultimately have "get_image L env c st3
      = Inl (Io_at ''Failed to get metadata for container file'' (container_path st1 c) NotFound)"
    using gone assms(12) by (simp add: get_image_def metadata_len_def)
  then have 4: "r4 = Ok (Upstream None)" "sv4 = sv3"
    using assms(19) by (auto simp: image_status_def call 3)
  have "fu_bytes (st_usage st3) = fu_bytes (st_usage ?st)"
    using remove_ok_bytes [OF removed] pull_ok_bytes(2) [OF pulled] files by (simp add: replaced_bytes_def)
  with 1 2 3 4 show ?thesis by simp
qed

definition sample_images :: "unit image_downstream_lib" where
  "sample_images = \<lparr>di_pass = (\<lambda>req d. (Inr 0, d)), di_image_fs_info = (\<lambda>d. (Inr [], d))\<rparr>"

definition sample_image_service :: "unit image_service" where
  "sample_image_service = ProxyingImageService_new sample_store ()"

definition sample_image :: image_spec where
  "sample_image = \<lparr>is_image = image_id_of ''r'' sample_component, is_annotations = Mapping.empty, is_user_specified_image = [],
     is_runtime_handler = CONTAINER_RUNTIME_HANDLER\<rparr>"

lemma sample_free: "free_for sample_store sample_component"
  by (simp add: sample_store_def free_for_def component_path_def container_path_def image_spec_path_def)

theorem image_life_cycle_witness:
  "fst (pull_image ref_lib sample_images image_id_captures rx_matches no_faults sample_http (Some sample_image) (Some sample_config)
     sample_image_service) = Ok (Upstream (ComponentName_to_string sample_component))"
proof -
  have store: "isv_containers sample_image_service = sample_store" by (simp add: sample_image_service_def ProxyingImageService_new_def)
  have fetched: "fetch ref_lib sample_http (st_insecure_registries (isv_containers sample_image_service)) ''r'' sample_component
      = Inr \<lparr>ctn_component = [0, 97, 115, 109], ctn_metadata = [7]\<rparr>"
    using sample_fetch by (simp add: store sample_store_def)
  have serialized: "cl_serialize ref_lib (ctn_component \<lparr>ctn_component = [0, 97, 115, 109], ctn_metadata = [7]\<rparr>) = Some [0, 97, 115, 109]"
    by (simp add: ref_lib_def)
  show ?thesis
    by (rule conjunct1 [OF image_life_cycle [OF deriv_engine.regex_engine_axioms image_id.image_id_regex_axioms ref.container_codecs_axioms
        sample_component_wf _ _ _ _ sample_config_component _ _ _ _ fetched serialized surjective_pairing surjective_pairing surjective_pairing
        surjective_pairing]])
      (simp_all add: sample_image_def store sample_store_ok sample_free no_faults_def sample_store_def [THEN arg_cong [of _ _ st_poisoned]])
qed

text \<open>
  A pull reaches the registry only for the component that the pod's labels name: when the image ID names another one, or either is
  malformed, the call fails and leaves the store as it was; when it succeeds, the reference it returns is that component.
\<close>

theorem pull_image_checked:
  assumes "\<not> other_handler (Some spec)" "pull_image L D captures is_match env http (Some spec) (Some config) sv = (r, sv')"
  shows "(\<forall>registry c. registry_and_component_from_image_spec captures is_match (is_image spec) = Inr (registry, c)
        \<and> component_name_from_labels is_match (psc_labels config) = Inr c \<longrightarrow>
        (\<exists>r'. pull L env http registry c spec (isv_containers sv) = (r', isv_containers sv')
          \<and> (r' = Inr () \<longleftrightarrow> r = Ok (Upstream (ComponentName_to_string c)))))
    \<and> ((\<nexists>registry c. registry_and_component_from_image_spec captures is_match (is_image spec) = Inr (registry, c)
        \<and> component_name_from_labels is_match (psc_labels config) = Inr c) \<longrightarrow> sv' = sv \<and> (\<exists>e. r = Err (Status_internal e)))"
  using assms
  by (cases "registry_and_component_from_image_spec captures is_match (is_image spec)"; cases "component_name_from_labels is_match (psc_labels config)")
    (auto simp: pull_image_def log_error_def Let_def split: prod.splits sum.splits if_splits)

theorem pull_image_checked_witness:
  "snd (pull_image ref_lib sample_images image_id_captures rx_matches no_faults sample_http (Some (sample_image\<lparr>is_image := ''r''\<rparr>))
     (Some sample_config) sample_image_service) = sample_image_service"
proof -
  let ?spec = "sample_image\<lparr>is_image := ''r''\<rparr>"
  have "\<not> other_handler (Some ?spec)" by (simp add: other_handler_def sample_image_def)
  moreover have "registry_and_component_from_image_spec image_id_captures rx_matches (is_image ?spec) = Inl Malformed_image_id"
    by (simp add: registry_and_component_from_image_spec_def image_id_captures_def cut_at_def)
  ultimately show ?thesis
    using pull_image_checked [OF _ surjective_pairing, where spec = ?spec and L = ref_lib and D = sample_images and captures = image_id_captures
        and is_match = rx_matches and env = no_faults and http = sample_http and config = sample_config and sv = sample_image_service] by simp
qed

end
