(* ===== verification/Ipam.thy ===== *)
theory Ipam
  imports Pod_State
begin

text \<open>
  IP address management (\<^verbatim>\<open>runtime/ipam.rs\<close>): allocating an address with a CNI plugin and activating it on the network interface over
  netlink, and the reverse. The plugin, netlink, SHA-256 and JSON are parameters, the record \<open>ipam_lib\<close>; \<open>'w\<close> is the state of the
  machine they act on. Errors are the messages that the code writes, outermost first; the causes that libraries add are left out. A text
  that a message shows in quotes is taken to need no escapes.
\<close>

section \<open>Libraries\<close>

datatype json = Json_string string | Json_array "json list" | Json_object "(string \<times> json) list"

record ipam_add_result_ip =
  ari_address :: string
  ari_gateway :: string

record ipam_add_result =
  ar_cniVersion :: string
  ar_ips :: "ipam_add_result_ip list"

text \<open>Feeding the configuration to the plugin and running it: it may not run at all; else whether it exits with success, and its output.\<close>

datatype plugin_result = Pipe_creation_failed | Pipe_write_failed | Execution_failed | Exited bool bytes

record address_message =
  am_link :: u32
  am_address :: ip_addr
  am_prefix_length :: u8

record 'w ipam_lib =
  il_run :: "string \<Rightarrow> (string \<times> string) list \<Rightarrow> bytes \<Rightarrow> 'w \<Rightarrow> plugin_result \<times> 'w"  \<comment> \<open>path, environment, standard input\<close>
  il_get_link :: "string \<Rightarrow> 'w \<Rightarrow> unit + u32 option"
  il_add_address :: "u32 \<Rightarrow> ip_addr \<Rightarrow> u8 \<Rightarrow> 'w \<Rightarrow> bool \<times> 'w"
  il_get_address :: "u32 \<Rightarrow> ip_addr \<Rightarrow> u8 \<Rightarrow> 'w \<Rightarrow> unit + address_message option"
  il_del_address :: "address_message \<Rightarrow> 'w \<Rightarrow> bool \<times> 'w"
  il_sha256 :: "bytes \<Rightarrow> bytes"
  il_from_slice :: "bytes \<Rightarrow> ipam_add_result option"
  il_to_vec :: "json \<Rightarrow> bytes"

section \<open>The provider\<close>

definition CNI_VERSION :: string where "CNI_VERSION = ''1.0.0''"
definition CNI_NETWORK_NAME :: string where "CNI_NETWORK_NAME = ''kindnet''"

record ipam =
  ipam_path :: string
  ipam_config :: bytes
  ipam_interface :: string

text \<open>\<open>connected\<close>: whether the netlink connection can be established.\<close>

definition host_local :: "'w ipam_lib \<Rightarrow> bool \<Rightarrow> string \<Rightarrow> string \<Rightarrow> string \<Rightarrow> error_chain + ipam" where
  "host_local I connected path pod_cidr interface =
     (if \<not> connected then Inl [''Failed to establish netlink connection'']
      else
        let config = il_to_vec I (Json_object
              [(''cniVersion'', Json_string CNI_VERSION), (''name'', Json_string CNI_NETWORK_NAME),
               (''ipam'', Json_object
                  [(''type'', Json_string ''host-local''), (''dataDir'', Json_string ''/run/cni-ipam-state''),
                   (''ranges'', Json_array [Json_array [Json_object [(''subnet'', Json_string pod_cidr)]]])])])
        in Inr \<lparr>ipam_path = path, ipam_config = config, ipam_interface = interface\<rparr>)"

definition ipam_container_id :: "'w ipam_lib \<Rightarrow> pod_name \<Rightarrow> string" where
  "ipam_container_id I pod =
     (let hash = il_sha256 I (as_bytes (PodName_to_string pod));
          chunks = fst (chunks_exact 16 hash)
      in from_bytes (hexify (chunks ! 0) @ hexify (chunks ! 1)))"

definition run_plugin_command :: "'w ipam_lib \<Rightarrow> ipam \<Rightarrow> string \<Rightarrow> pod_name \<Rightarrow> 'w \<Rightarrow> (error_chain + bytes) \<times> 'w" where
  "run_plugin_command I ipam command pod_name w =
     (let (r, w) = il_run I (ipam_path ipam)
            [(''CNI_COMMAND'', command), (''CNI_CONTAINERID'', ipam_container_id I pod_name), (''CNI_NETNS'', ''/dev/null''),
             (''CNI_IFNAME'', ''unused''), (''CNI_PATH'', ''/..'')]
            (ipam_config ipam) w
      in ((case r of
             Pipe_creation_failed \<Rightarrow> Inl [''Error creating stdin pipe'']
           | Pipe_write_failed \<Rightarrow> Inl [''Error writing to stdin pipe'']
           | Execution_failed \<Rightarrow> Inl [''Error executing command'']
           | Exited success stdout \<Rightarrow> if success then Inr stdout else Inl [''IPAM error: '' @ from_bytes stdout]), w))"

definition quoted :: "string \<Rightarrow> string" where
  "quoted s = [CHR 0x22] @ s @ [CHR 0x22]"

definition lookup_interface :: "'w ipam_lib \<Rightarrow> string \<Rightarrow> 'w \<Rightarrow> error_chain + u32" where
  "lookup_interface I interface w =
     (case il_get_link I interface w of
        Inl _ \<Rightarrow> Inl [''Failed executing netlink get-link request for interface '' @ quoted interface]
      | Inr (Some link) \<Rightarrow> Inr link
      | Inr None \<Rightarrow> Inl [''Network device '' @ quoted interface @ '' not found''])"

definition ip_addr_add :: "'w ipam_lib \<Rightarrow> string \<Rightarrow> ip_addr \<Rightarrow> u8 \<Rightarrow> 'w \<Rightarrow> (error_chain + unit) \<times> 'w" where
  "ip_addr_add I interface address prefix_length w =
     (case lookup_interface I interface w of
        Inl e \<Rightarrow> (Inl e, w)
      | Inr link \<Rightarrow>
          let (ok, w) = il_add_address I link address prefix_length w
          in (if ok then Inr () else Inl [''Failed executing netlink add-address request for interface '' @ quoted interface], w))"

definition address_text :: "ip_addr \<Rightarrow> u8 \<Rightarrow> string" where
  "address_text address prefix_length = ip_to_string address @ ''/'' @ u8_decimal prefix_length"

definition ip_addr_del :: "'w ipam_lib \<Rightarrow> string \<Rightarrow> ip_addr \<Rightarrow> u8 \<Rightarrow> 'w \<Rightarrow> (error_chain + unit) \<times> 'w" where
  "ip_addr_del I interface address prefix_length w =
     (case lookup_interface I interface w of
        Inl e \<Rightarrow> (Inl e, w)
      | Inr link \<Rightarrow>
          (case il_get_address I link address prefix_length w of
             Inl _ \<Rightarrow> (Inl [''Failed executing netlink get-address request for interface '' @ quoted interface], w)
           | Inr (Some message) \<Rightarrow>
               let (ok, w) = il_del_address I message w
               in (if ok then Inr () else Inl [''Failed executing netlink delete-address request for interface '' @ quoted interface], w)
           | Inr None \<Rightarrow>
               (Inl [''IP address '' @ address_text address prefix_length @ '' not found on network device '' @ quoted interface], w)))"

fun str_split :: "char \<Rightarrow> string \<Rightarrow> string list" where
  "str_split c [] = [[]]"
| "str_split c (x # xs) =
     (if x = c then [] # str_split c xs else (case str_split c xs of y # ys \<Rightarrow> (x # y) # ys | [] \<Rightarrow> [[x]]))"

text \<open>The output of \<^verbatim>\<open>ADD\<close>, from the decoding to the parsed address and prefix length.\<close>

definition parse_add_result :: "'w ipam_lib \<Rightarrow> bytes \<Rightarrow> error_chain + ip_addr \<times> u8" where
  "parse_add_result I output =
     (case il_from_slice I output of
        None \<Rightarrow> Inl [''Error decoding IPAM 'ADD' response'']
      | Some result \<Rightarrow>
          (case ar_ips result of
             [ip] \<Rightarrow>
               (let cidr = ari_address ip
                in case str_split CHR ''/'' cidr of
                     address # prefix_length # _ \<Rightarrow>
                       (case ip_addr_parse address of
                          None \<Rightarrow> Inl [''Invalid address: '' @ quoted address]
                        | Some address \<Rightarrow>
                            (case u8_parse prefix_length of
                               None \<Rightarrow> Inl [''Invalid subnet prefix length: '' @ quoted cidr]
                             | Some prefix_length \<Rightarrow> Inr (address, prefix_length)))
                   | _ \<Rightarrow> Inl [''Invalid address mask: '' @ quoted cidr])
           | ips \<Rightarrow> Inl [''Multiple IP addresses not supported: '' @ nat_decimal (length ips)]))"

definition Ipam_address :: "'w ipam_lib \<Rightarrow> ipam \<Rightarrow> pod_name \<Rightarrow> 'w \<Rightarrow> (error_chain + ip_address) \<times> 'w" where
  "Ipam_address I ipam pod_name w =
     (case run_plugin_command I ipam ''ADD'' pod_name w of
        (Inl e, w) \<Rightarrow> (Inl (''Failed to run IPAM ADD'' # e), w)
      | (Inr output, w) \<Rightarrow>
          (case parse_add_result I output of
             Inl e \<Rightarrow> (Inl e, w)
           | Inr (address, prefix_length) \<Rightarrow>
               (case ip_addr_add I (ipam_interface ipam) address prefix_length w of
                  (Inl e, w) \<Rightarrow>
                    let (ignored, w) = run_plugin_command I ipam ''DEL'' pod_name w
                    in (Inl ((''Failed adding IP address '' @ address_text address prefix_length @ '' to interface '' @ quoted (ipam_interface ipam)) # e), w)
                | (Inr _, w) \<Rightarrow>
                    (Inr \<lparr>ia_address = address, ia_prefix_length = prefix_length, ia_pod_name = pod_name\<rparr>, w))))"

definition deactivate :: "'w ipam_lib \<Rightarrow> ipam \<Rightarrow> ip_address \<Rightarrow> 'w \<Rightarrow> (error_chain + unit) \<times> 'w" where
  "deactivate I ipam ip w =
     (let (r, w) = ip_addr_del I (ipam_interface ipam) (ia_address ip) (ia_prefix_length ip) w
      in (emap_err (\<lambda>e. (''Failed deleting IP address '' @ address_text (ia_address ip) (ia_prefix_length ip) @ '' from interface ''
              @ quoted (ipam_interface ipam)) # e) r, w))"

definition deallocate :: "'w ipam_lib \<Rightarrow> ipam \<Rightarrow> ip_address \<Rightarrow> 'w \<Rightarrow> (error_chain + unit) \<times> 'w" where
  "deallocate I ipam ip w =
     (let (r, w) = run_plugin_command I ipam ''DEL'' (ia_pod_name ip) w
      in (case r of Inl e \<Rightarrow> Inl (''Failed to run IPAM DEL'' # e) | Inr _ \<Rightarrow> Inr (), w))"

section \<open>What the plugin and the kernel promise\<close>

text \<open>
  \<open>allocated\<close> are the container IDs with an address, \<open>active\<close> the addresses of the interface. A failed \<^verbatim>\<open>ADD\<close> leaves nothing
  allocated, a failed \<^verbatim>\<open>DEL\<close> may or may not release.
\<close>

locale ipam_world =
  fixes I :: "'w ipam_lib" and allocated :: "'w \<Rightarrow> string set" and active :: "'w \<Rightarrow> (ip_addr \<times> u8) set"
  assumes add_runs: "il_run I path ((''CNI_COMMAND'', ''ADD'') # (''CNI_CONTAINERID'', ident) # env) config w = (r, w') \<Longrightarrow>
      active w' = active w \<and> allocated w' = (if \<exists>out. r = Exited True out then insert ident (allocated w) else allocated w)"
    and del_runs: "il_run I path ((''CNI_COMMAND'', ''DEL'') # (''CNI_CONTAINERID'', ident) # env) config w = (r, w') \<Longrightarrow>
      active w' = active w \<and> allocated w - {ident} \<subseteq> allocated w' \<and> allocated w' \<subseteq> allocated w
      \<and> ((\<exists>out. r = Exited True out) \<longrightarrow> ident \<notin> allocated w')"
    and add_activates: "il_add_address I link a n w = (ok, w') \<Longrightarrow>
      allocated w' = allocated w \<and> active w' = (if ok then insert (a, n) (active w) else active w)"
    and get_message: "il_get_address I link a n w = Inr (Some m) \<Longrightarrow> am_address m = a \<and> am_prefix_length m = n"
    and del_deactivates: "il_del_address I m w = (ok, w') \<Longrightarrow>
      allocated w' = allocated w \<and> active w' = (if ok then active w - {(am_address m, am_prefix_length m)} else active w)"
    and sha256_length: "length (il_sha256 I bs) = 32"

text \<open>A machine that keeps them in lists, with one interface and a subnet of one address.\<close>

record net =
  net_allocated :: "string list"
  net_active :: "(ip_addr \<times> u8) list"
  net_add_fails :: bool
  net_output :: bytes

fun net_run :: "string \<Rightarrow> (string \<times> string) list \<Rightarrow> bytes \<Rightarrow> net \<Rightarrow> plugin_result \<times> net" where
  "net_run path ((command_key, command) # (id_key, ident) # env) config w =
     (if command = ''ADD'' then (Exited True (net_output w), w\<lparr>net_allocated := ident # net_allocated w\<rparr>)
      else (Exited True [], w\<lparr>net_allocated := filter (\<lambda>i. i \<noteq> ident) (net_allocated w)\<rparr>))"
| "net_run path env config w = (Execution_failed, w)"

definition net_lib :: "net ipam_lib" where
  "net_lib =
     \<lparr>il_run = net_run,
      il_get_link = (\<lambda>interface w. Inr (if interface = ''eth0'' then Some 2 else None)),
      il_add_address = (\<lambda>link a n w. if net_add_fails w then (False, w) else (True, w\<lparr>net_active := (a, n) # net_active w\<rparr>)),
      il_get_address = (\<lambda>link a n w. Inr (if (a, n) \<in> set (net_active w) then Some \<lparr>am_link = link, am_address = a, am_prefix_length = n\<rparr> else None)),
      il_del_address = (\<lambda>m w. (True, w\<lparr>net_active := filter (\<lambda>x. x \<noteq> (am_address m, am_prefix_length m)) (net_active w)\<rparr>)),
      il_sha256 = (\<lambda>bs. take 32 (bs @ replicate 32 0)),
      il_from_slice = (\<lambda>bs. Some \<lparr>ar_cniVersion = CNI_VERSION, ar_ips = [\<lparr>ari_address = from_bytes bs, ari_gateway = []\<rparr>]\<rparr>),
      il_to_vec = (\<lambda>json. [])\<rparr>"

interpretation net: ipam_world net_lib "\<lambda>w. set (net_allocated w)" "\<lambda>w. set (net_active w)"
  by unfold_locales (auto simp: net_lib_def split: if_splits)

section \<open>Lemmas\<close>

context ipam_world
begin

lemma plugin_add:
  "run_plugin_command I ipam ''ADD'' pod w = (r, w') \<Longrightarrow>
     active w' = active w \<and> allocated w' = (if \<exists>out. r = Inr out then insert (ipam_container_id I pod) (allocated w) else allocated w)"
  by (auto simp: run_plugin_command_def split: prod.splits plugin_result.splits if_splits dest!: add_runs)

lemma plugin_del:
  "run_plugin_command I ipam ''DEL'' pod w = (r, w') \<Longrightarrow>
     active w' = active w \<and> allocated w - {ipam_container_id I pod} \<subseteq> allocated w' \<and> allocated w' \<subseteq> allocated w
     \<and> ((\<exists>out. r = Inr out) \<longrightarrow> ipam_container_id I pod \<notin> allocated w')"
  by (auto simp: run_plugin_command_def split: prod.splits plugin_result.splits if_splits dest!: del_runs)

lemma ip_addr_add_effect:
  "ip_addr_add I interface a n w = (r, w') \<Longrightarrow>
     allocated w' = allocated w \<and> active w' = (if r = Inr () then insert (a, n) (active w) else active w)"
  by (auto simp: ip_addr_add_def split: sum.splits prod.splits if_splits dest!: add_activates)

lemma ip_addr_del_effect:
  "ip_addr_del I interface a n w = (r, w') \<Longrightarrow>
     allocated w' = allocated w \<and> active w' = (if r = Inr () then active w - {(a, n)} else active w)"
  by (auto simp: ip_addr_del_def split: sum.splits prod.splits if_splits option.splits dest!: del_deactivates dest: get_message)

end

end
