(* ===== verification/Ipam_Claims.thy ===== *)
theory Ipam_Claims
  imports Ipam Pod_Claims
begin

text \<open>
  What address management guarantees: what is allocated and active after each outcome of an allocation, that killing a pod gives its
  address back, and the IDs under which pods are known to the plugin.
\<close>

section \<open>Container IDs\<close>

lemma chunks_exact_32:
  fixes hash :: bytes
  assumes "length hash = 32"
  shows "fst (chunks_exact 16 hash) = [take 16 hash, drop 16 hash]"
proof -
  have "chunks_exact 16 hash = (let (cs, r) = chunks_exact 16 (drop 16 hash) in (take 16 hash # cs, r))"
    using assms by (subst chunks_exact.simps) simp
  moreover have "chunks_exact 16 (drop 16 hash) = (let (cs, r) = chunks_exact 16 [] in (drop 16 hash # cs, r))"
    using assms by (subst chunks_exact.simps) simp
  moreover have "chunks_exact 16 ([] :: bytes) = ([], [])" by (subst chunks_exact.simps) simp
  ultimately show ?thesis by simp
qed

context ipam_world
begin

lemma container_id_eq: "ipam_container_id I pod = from_bytes (hex_code (il_sha256 I (as_bytes (PodName_to_string pod))))"
proof -
  let ?h = "il_sha256 I (as_bytes (PodName_to_string pod))"
  have "hex_code ?h = hex_code (take 16 ?h) @ hex_code (drop 16 ?h)" by (metis append_take_drop_id hex_code_append)
  then show ?thesis
    by (simp add: ipam_container_id_def chunks_exact_32 sha256_length hexify_hex_code del: hex_code_append)
qed

lemma address_ok:
  assumes "Ipam_address I ipam pod w = (Inr ip, w')"
  shows "allocated w' = insert (ipam_container_id I pod) (allocated w)" "ia_pod_name ip = pod"
    "active w' = insert (ia_address ip, ia_prefix_length ip) (active w)"
  using assms
  by (auto simp: Ipam_address_def split: prod.splits sum.splits dest!: plugin_add ip_addr_add_effect)

lemma deactivate_ok:
  assumes "deactivate I ipam ip w = (Inr (), w')"
  shows "allocated w' = allocated w" "active w' = active w - {(ia_address ip, ia_prefix_length ip)}"
  using assms by (auto simp: deactivate_def split: prod.splits dest!: ip_addr_del_effect)

lemma deallocate_ok:
  assumes "deallocate I ipam ip w = (Inr (), w')"
  shows "active w' = active w" "allocated w' = allocated w - {ipam_container_id I (ia_pod_name ip)}"
  using assms by (auto simp: deallocate_def split: prod.splits sum.splits dest!: plugin_del)

lemma address_effect:
  assumes "Ipam_address I ipam pod w = (r, w')" "\<And>w. \<exists>out w'. run_plugin_command I ipam ''DEL'' pod w = (Inr out, w')"
    and "ipam_container_id I pod \<notin> allocated w"
  shows "case r of
      Inr ip \<Rightarrow> allocated w' = insert (ipam_container_id I pod) (allocated w)
        \<and> active w' = insert (ia_address ip, ia_prefix_length ip) (active w) \<and> ia_pod_name ip = pod
    | Inl e \<Rightarrow> active w' = active w
        \<and> allocated w' = (if \<exists>out w1 e. run_plugin_command I ipam ''ADD'' pod w = (Inr out, w1) \<and> parse_add_result I out = Inl e
             then insert (ipam_container_id I pod) (allocated w) else allocated w)"
proof (cases "run_plugin_command I ipam ''ADD'' pod w")
  case add: (Pair r1 w1)
  note added = plugin_add [OF add]
  show ?thesis
  proof (cases r1)
    case (Inl e)
    with add added assms(1) show ?thesis by (auto simp: Ipam_address_def)
  next
    case out: (Inr out)
    show ?thesis
    proof (cases "parse_add_result I out")
      case (Inl e)
      with add added out assms(1) show ?thesis by (auto simp: Ipam_address_def)
    next
      case parsed: (Inr an)
      obtain a n where an: "an = (a, n)" by (cases an)
      obtain r2 w2 where up: "ip_addr_add I (ipam_interface ipam) a n w1 = (r2, w2)" by fastforce
      obtain dout w3 where del: "run_plugin_command I ipam ''DEL'' pod w2 = (Inr dout, w3)" using assms(2) by blast
      show ?thesis
        using add added out parsed an up del ip_addr_add_effect [OF up] plugin_del [OF del] assms(1,3)
        by (cases r2) (auto simp: Ipam_address_def split: if_splits)
    qed
  qed
qed

end

section \<open>Guarantees\<close>

text \<open>
  C36: Allocating an address for a pod that has none, with a plugin whose \<^verbatim>\<open>DEL\<close> works: on success exactly the pod's ID is allocated and
  exactly its address is active in addition; on an error no address is active in addition and the allocation is released, except
  when the plugin's answer to \<^verbatim>\<open>ADD\<close> cannot be understood: then the error leaves the address allocated.
\<close>

theorem address_outcomes:
  assumes "ipam_world I allocated active" "Ipam_address I ipam pod w = (r, w')"
    and "\<And>w. \<exists>out w'. run_plugin_command I ipam ''DEL'' pod w = (Inr out, w')" "ipam_container_id I pod \<notin> allocated w"
  shows "case r of
      Inr ip \<Rightarrow> allocated w' = insert (ipam_container_id I pod) (allocated w)
        \<and> active w' = insert (ia_address ip, ia_prefix_length ip) (active w) \<and> ia_pod_name ip = pod
    | Inl e \<Rightarrow> active w' = active w
        \<and> allocated w' = (if \<exists>out w1 e. run_plugin_command I ipam ''ADD'' pod w = (Inr out, w1) \<and> parse_add_result I out = Inl e
             then insert (ipam_container_id I pod) (allocated w) else allocated w)"
  using assms by (rule ipam_world.address_effect)

definition sample_ipam :: ipam where
  "sample_ipam = \<lparr>ipam_path = ''/opt/cni/bin/host-local'', ipam_config = [], ipam_interface = ''eth0''\<rparr>"

definition sample_net :: net where
  "sample_net = \<lparr>net_allocated = [], net_active = [], net_add_fails = False, net_output = as_bytes ''10.1.0.7/16''\<rparr>"

lemma net_del: "\<exists>out w'. run_plugin_command net_lib sample_ipam ''DEL'' pod w = (Inr out, w')"
  by (simp add: run_plugin_command_def net_lib_def)

lemma net_lib_sel:
  "il_run net_lib = net_run" "il_get_link net_lib ''eth0'' w = Inr (Some 2)"
  "il_add_address net_lib link a n w = (if net_add_fails w then (False, w) else (True, w\<lparr>net_active := (a, n) # net_active w\<rparr>))"
  "il_get_address net_lib link a n w = Inr (if (a, n) \<in> set (net_active w) then Some \<lparr>am_link = link, am_address = a, am_prefix_length = n\<rparr> else None)"
  "il_del_address net_lib m w = (True, w\<lparr>net_active := filter (\<lambda>x. x \<noteq> (am_address m, am_prefix_length m)) (net_active w)\<rparr>)"
  by (simp_all add: net_lib_def)

lemma sample_address:
  "Ipam_address net_lib sample_ipam sample_name sample_net =
     (Inr \<lparr>ia_address = V4 10 1 0 7, ia_prefix_length = 16, ia_pod_name = sample_name\<rparr>,
      sample_net\<lparr>net_allocated := [ipam_container_id net_lib sample_name], net_active := [(V4 10 1 0 7, 16)]\<rparr>)"
proof -
  have "parse_add_result net_lib (as_bytes ''10.1.0.7/16'') = Inr (V4 10 1 0 7, 16)" by code_simp
  then show ?thesis
    by (simp add: Ipam_address_def run_plugin_command_def ip_addr_add_def lookup_interface_def sample_ipam_def sample_net_def net_lib_sel)
qed

theorem address_outcomes_witness:
  "set (net_active (snd (Ipam_address net_lib sample_ipam sample_name sample_net))) = {(V4 10 1 0 7, 16)}"
proof -
  have none: "net_allocated sample_net = []" "net_active sample_net = []" by (simp_all add: sample_net_def)
  then show ?thesis using address_outcomes [OF net.ipam_world_axioms sample_address net_del] by (simp add: sample_address)
qed



text \<open>
  The ID under which the plugin knows a pod is 64 lower-case hexadecimal digits, and two pods share it only if the SHA-256 hashes of their
  names collide.
\<close>

theorem container_id_hex:
  assumes "ipam_world I allocated active"
  shows "length (ipam_container_id I pod) = 64 \<and> list_all (\<lambda>c. is_hex (u8_of_char c)) (ipam_container_id I pod)
    \<and> (ipam_container_id I pod = ipam_container_id I pod' \<longleftrightarrow>
         il_sha256 I (as_bytes (PodName_to_string pod)) = il_sha256 I (as_bytes (PodName_to_string pod')))"
proof -
  have inj: "from_bytes xs = from_bytes ys \<longleftrightarrow> xs = ys" for xs ys by (metis as_bytes_from_bytes)
  then show ?thesis
    using ipam_world.container_id_eq [OF assms] ipam_world.sha256_length [OF assms]
    by (auto simp: list_all_iff hex_code_inject from_bytes_def hex_code_is_hex)
qed

theorem container_id_hex_witness: "length (ipam_container_id net_lib sample_name) = 64"
  using container_id_hex [OF net.ipam_world_axioms] by blast

end
