(* ===== verification/Server.thy ===== *)
theory Server
  imports Cri_Image Ipam
begin

text \<open>
  Process start-up (\<^verbatim>\<open>runtime/main.rs\<close>): the options from the command line, the configuration file and the defaults, and \<^verbatim>\<open>main\<close>, which
  builds the parts of the daemon, binds the socket on which it listens for Kubelet, serves until it is told to stop and unlinks the
  socket. What the process finds outside is the record \<open>server_env\<close>; the state that it shares with the next process is the disk and the
  downstream runtime (\<open>host\<close>). Paths are taken from the root, without \<^verbatim>\<open>..\<close>.
\<close>

section \<open>Options\<close>

definition DEFAULT_INCOMING :: string where "DEFAULT_INCOMING = ''/run/vimana/vimanad.sock''"
definition DEFAULT_DOWNSTREAM :: string where "DEFAULT_DOWNSTREAM = ''/run/containerd/containerd.sock''"
definition DEFAULT_IMAGE_STORE :: string where "DEFAULT_IMAGE_STORE = ''/var/lib/vimana/images''"
definition DEFAULT_IPAM_PLUGIN :: string where "DEFAULT_IPAM_PLUGIN = ''/opt/cni/bin/host-local''"
definition DEFAULT_NETWORK_INTERFACE :: string where "DEFAULT_NETWORK_INTERFACE = ''eth0''"
definition DEFAULT_POD_IPS :: string where "DEFAULT_POD_IPS = ''10.1.0.0/16''"

record vimanad_config =
  vc_config :: "string option"
  vc_incoming :: "string option"
  vc_downstream :: "string option"
  vc_image_store :: "string option"
  vc_insecure_registries :: "string list"
  vc_ipam_plugin :: "string option"
  vc_network_interface :: "string option"
  vc_pod_ips :: "string option"

definition default_config :: vimanad_config where
  "default_config =
     \<lparr>vc_config = None, vc_incoming = None, vc_downstream = None, vc_image_store = None, vc_insecure_registries = [],
      vc_ipam_plugin = None, vc_network_interface = None, vc_pod_ips = None\<rparr>"

text \<open>
  The derived \<^verbatim>\<open>Deserialize\<close> on a JSON object, under the names in camel case: an \<^verbatim>\<open>Option\<close> may be missing or null, a \<^verbatim>\<open>Vec\<close> has to be
  there, and other fields are ignored. An object has each of its names once.
\<close>

datatype config_value = Config_null | Config_string string | Config_strings "string list" | Config_other

type_synonym config_object = "(string \<times> config_value) list"

definition optional_field :: "string \<Rightarrow> config_object \<Rightarrow> string option option" where
  "optional_field key obj =
     (case map_of obj key of None \<Rightarrow> Some None | Some Config_null \<Rightarrow> Some None | Some (Config_string s) \<Rightarrow> Some (Some s) | _ \<Rightarrow> None)"

definition list_field :: "string \<Rightarrow> config_object \<Rightarrow> string list option" where
  "list_field key obj = (case map_of obj key of Some (Config_strings ss) \<Rightarrow> Some ss | _ \<Rightarrow> None)"

definition config_from_object :: "config_object \<Rightarrow> vimanad_config option" where
  "config_from_object obj =
     Option.bind (optional_field ''config'' obj) (\<lambda>config.
     Option.bind (optional_field ''incoming'' obj) (\<lambda>incoming.
     Option.bind (optional_field ''downstream'' obj) (\<lambda>downstream.
     Option.bind (optional_field ''imageStore'' obj) (\<lambda>image_store.
     Option.bind (list_field ''insecureRegistries'' obj) (\<lambda>insecure_registries.
     Option.bind (optional_field ''ipamPlugin'' obj) (\<lambda>ipam_plugin.
     Option.bind (optional_field ''networkInterface'' obj) (\<lambda>network_interface.
     Option.bind (optional_field ''podIps'' obj) (\<lambda>pod_ips.
       Some \<lparr>vc_config = config, vc_incoming = incoming, vc_downstream = downstream, vc_image_store = image_store,
             vc_insecure_registries = insecure_registries, vc_ipam_plugin = ipam_plugin, vc_network_interface = network_interface,
             vc_pod_ips = pod_ips\<rparr>))))))))"

text \<open>A configuration file: unreadable, not a JSON object, or an object.\<close>

datatype config_file = Unreadable | Not_an_object | Config_file config_object

definition load_config :: "(string \<Rightarrow> config_file) \<Rightarrow> vimanad_config \<Rightarrow> (vimanad_config, 'e) outcome" where
  "load_config files args =
     (case vc_config args of
        None \<Rightarrow> Ok default_config
      | Some config_path \<Rightarrow>
          (case files config_path of
             Config_file obj \<Rightarrow> (case config_from_object obj of None \<Rightarrow> Panic | Some config \<Rightarrow> Ok config)
           | _ \<Rightarrow> Panic))"

definition select_option :: "string option \<Rightarrow> string option \<Rightarrow> string \<Rightarrow> string" where
  "select_option arg config fallback = (case (case arg of None \<Rightarrow> config | Some v \<Rightarrow> Some v) of None \<Rightarrow> fallback | Some v \<Rightarrow> v)"

record options =
  op_incoming :: string
  op_downstream :: string
  op_image_store :: string
  op_insecure_registries :: "string set"
  op_ipam_plugin :: string
  op_network_interface :: string
  op_pod_ips :: string

definition select_options :: "vimanad_config \<Rightarrow> vimanad_config \<Rightarrow> options" where
  "select_options args config =
     \<lparr>op_incoming = select_option (vc_incoming args) (vc_incoming config) DEFAULT_INCOMING,
      op_downstream = select_option (vc_downstream args) (vc_downstream config) DEFAULT_DOWNSTREAM,
      op_image_store = select_option (vc_image_store args) (vc_image_store config) DEFAULT_IMAGE_STORE,
      op_insecure_registries = set (vc_insecure_registries args @ vc_insecure_registries config),
      op_ipam_plugin = select_option (vc_ipam_plugin args) (vc_ipam_plugin config) DEFAULT_IPAM_PLUGIN,
      op_network_interface = select_option (vc_network_interface args) (vc_network_interface config) DEFAULT_NETWORK_INTERFACE,
      op_pod_ips = select_option (vc_pod_ips args) (vc_pod_ips config) DEFAULT_POD_IPS\<rparr>"

section \<open>Start-up and shutdown\<close>

text \<open>The components of a path, and its parent, which the root and the empty path do not have.\<close>

definition path_of :: "string \<Rightarrow> path" where
  "path_of s = filter (\<lambda>c. c \<noteq> [] \<and> c \<noteq> ''.'') (split_on (CHR ''/'') s)"

definition parent :: "path \<Rightarrow> path option" where
  "parent p = (if p = [] then None else Some (butlast p))"

record 'd host =
  hs_disk :: disk
  hs_downstream :: 'd

text \<open>
  \<open>se_serve\<close> is the end of serving with the services that were built, \<^const>\<open>False\<close> for an error of the server.
\<close>

record ('m, 'd, 'w) server_env =
  se_pods :: "'m pod_map_lib"
  se_cri :: "'d downstream_lib"
  se_ipam :: "'w ipam_lib"
  se_config_files :: "string \<Rightarrow> config_file"
  se_connects :: "string \<Rightarrow> bool"  \<comment> \<open>to the socket of the downstream runtime\<close>
  se_netlink :: bool
  se_signals :: bool  \<comment> \<open>handlers of SIGTERM and SIGINT can be installed\<close>
  se_engine :: bool
  se_io :: io_env
  se_serve :: "ipam \<Rightarrow> ('m, 'd) service \<Rightarrow> 'd image_service \<Rightarrow> bool"

datatype main_error =
    Connection_error string | Network_error error_chain | Engine_error | Store_failure store_error | Socket_dir_error io_error
  | Service_error cri_error | Serve_error | Unlink_error io_error

text \<open>After the socket is bound: an error of the service's constructor is returned before the socket is unlinked.\<close>

definition serve_socket ::
    "('m, 'd, 'w) server_env \<Rightarrow> ipam \<Rightarrow> store \<Rightarrow> path \<Rightarrow> 'd host \<Rightarrow> (unit, main_error) outcome \<times> 'd host" where
  "serve_socket E ipam containers incoming h =
     (case ProxyingRuntimeService_new (se_cri E) (WorkRuntime_new (se_pods E)) (hs_downstream h) of
        Inl e \<Rightarrow> (Err (Service_error e), h)
      | Inr service \<Rightarrow>
          let result = se_serve E ipam service (ProxyingImageService_new containers (hs_downstream h));
              (unlink_socket_result, d) = remove_file (se_io E) Remove_socket incoming (hs_disk h);
              h = h\<lparr>hs_disk := d, hs_downstream := sv_downstream service\<rparr>
          in if \<not> result then (Err Serve_error, h)
             else (case unlink_socket_result of Inl e \<Rightarrow> (Err (Unlink_error e), h) | Inr _ \<Rightarrow> (Ok (), h)))"

definition bind_and_serve ::
    "('m, 'd, 'w) server_env \<Rightarrow> ipam \<Rightarrow> store \<Rightarrow> path \<Rightarrow> 'd host \<Rightarrow> (unit, main_error) outcome \<times> 'd host" where
  "bind_and_serve E ipam containers incoming h =
     (case parent incoming of
        None \<Rightarrow> (Panic, h)
      | Some dir \<Rightarrow>
          (case create_dir_all (se_io E) Create_socket_dir dir (hs_disk h) of
             (Inl e, d) \<Rightarrow> (Err (Socket_dir_error e), h\<lparr>hs_disk := d\<rparr>)
           | (Inr _, d) \<Rightarrow>
               (case bind_socket (se_io E) Bind_socket incoming d of
                  (Inl _, d) \<Rightarrow> (Panic, h\<lparr>hs_disk := d\<rparr>)
                | (Inr _, d) \<Rightarrow> serve_socket E ipam containers incoming (h\<lparr>hs_disk := d\<rparr>))))"

definition run_with :: "('m, 'd, 'w) server_env \<Rightarrow> options \<Rightarrow> 'd host \<Rightarrow> (unit, main_error) outcome \<times> 'd host" where
  "run_with E opts h =
     (if \<not> se_connects E (op_downstream opts) then (Err (Connection_error (op_downstream opts)), h)
      else
        (case host_local (se_ipam E) (se_netlink E) (op_ipam_plugin opts) (op_pod_ips opts) (op_network_interface opts) of
           Inl e \<Rightarrow> (Err (Network_error e), h)
         | Inr ipam \<Rightarrow>
             if \<not> se_signals E then (Panic, h)
             else if \<not> se_engine E then (Err Engine_error, h)
             else
               (case ContainerStore_new (se_io E) (path_of (op_image_store opts)) (op_insecure_registries opts) (hs_disk h) of
                  (Inl e, d) \<Rightarrow> (Err (Store_failure e), h\<lparr>hs_disk := d\<rparr>)
                | (Inr containers, d) \<Rightarrow> bind_and_serve E ipam containers (path_of (op_incoming opts)) (h\<lparr>hs_disk := d\<rparr>))))"

definition main :: "('m, 'd, 'w) server_env \<Rightarrow> vimanad_config \<Rightarrow> 'd host \<Rightarrow> (unit, main_error) outcome \<times> 'd host" where
  "main E args h =
     (case load_config (se_config_files E) args of
        Ok config \<Rightarrow> run_with E (select_options args config) h
      | Err e \<Rightarrow> (Err e, h)
      | Panic \<Rightarrow> (Panic, h)
      | Out_of_fuel \<Rightarrow> (Out_of_fuel, h))"

end
