(* ===== verification/Server_Claims.thy ===== *)
theory Server_Claims
  imports Server Container_Claims Cri_Claims
begin

text \<open>
  What a restart of the daemon can rely on: after a run that served, the socket is gone and the next run serves again; after a run that
  failed between binding the socket and serving, no later run serves until the socket is removed by hand.
\<close>

section \<open>Directories that stay\<close>

definition has_dirs :: "path \<Rightarrow> string list \<Rightarrow> disk \<Rightarrow> bool" where
  "has_dirs base cs d \<longleftrightarrow> (\<forall>i < length cs. map_of d (base @ take (Suc i) cs) = Some Dir)"

lemma has_dirs_Cons: "has_dirs base (c # cs) d \<longleftrightarrow> map_of d (base @ [c]) = Some Dir \<and> has_dirs (base @ [c]) cs d"
  by (auto simp: has_dirs_def All_less_Suc2)

lemma has_dirs_keep: "has_dirs base cs d \<Longrightarrow> (\<And>p. map_of d p = Some Dir \<Longrightarrow> map_of d' p = Some Dir) \<Longrightarrow> has_dirs base cs d'"
  by (simp add: has_dirs_def)

lemma create_dirs_keeps: "map_of d p = Some n \<Longrightarrow> map_of (snd (create_dirs base cs d)) p = Some n"
  by (induction base cs d rule: create_dirs.induct) (auto simp: update_conv' split: option.splits node.splits)

lemma create_dirs_has: "create_dirs base cs d = (Inr (), d') \<Longrightarrow> has_dirs base cs d'"
proof (induction base cs d rule: create_dirs.induct)
  case (2 base c cs d)
  show ?case
  proof (cases "map_of d (base @ [c])")
    case None
    with 2 have "has_dirs (base @ [c]) cs d'" "create_dirs (base @ [c]) cs (AList.update (base @ [c]) Dir d) = (Inr (), d')" by auto
    with create_dirs_keeps [of "AList.update (base @ [c]) Dir d" "base @ [c]" Dir "base @ [c]" cs]
    show ?thesis by (simp add: has_dirs_Cons update_conv')
  next
    case (Some n)
    with 2 have "n = Dir" "has_dirs (base @ [c]) cs d'" "create_dirs (base @ [c]) cs d = (Inr (), d')" by (auto split: node.splits)
    with create_dirs_keeps [of d "base @ [c]" Dir "base @ [c]" cs] Some show ?thesis by (simp add: has_dirs_Cons)
  qed
qed (simp add: has_dirs_def)

lemma has_dirs_is_dir:
  assumes "has_dirs [] cs d"
  shows "is_dir d cs"
proof (cases "cs = []")
  case False
  then have "length cs - 1 < length cs" by simp
  with assms False show ?thesis by (auto simp: is_dir_def has_dirs_def dest: spec [of _ "length cs - 1"])
qed (simp add: is_dir_def)

lemma create_dirs_again: "has_dirs base cs d \<Longrightarrow> create_dirs base cs d = (Inr (), d)"
  by (induction cs arbitrary: base) (auto simp: has_dirs_Cons)

lemma create_dir_all_keeps: "map_of d p = Some n \<Longrightarrow> map_of (snd (create_dir_all env call cs d)) p = Some n"
  by (auto simp: create_dir_all_def create_dirs_keeps split: option.splits)

lemma store_root_dirs:
  assumes "ContainerStore_new env root registries d = (Inr st, d')"
  shows "io_fault env Create_root = None \<and> has_dirs [] root d'"
  using assms create_dirs_has [of "[]" root d d']
  by (auto simp: ContainerStore_new_def create_dir_all_def split: prod.splits sum.splits option.splits)

lemma store_again:
  assumes "io_fault env Create_root = None" "has_dirs [] root d"
  shows "\<exists>st. ContainerStore_new env root registries d = (Inr st, d)"
  using assms by (simp add: ContainerStore_new_def create_dir_all_def create_dirs_again)

lemma store_keeps: "map_of d p = Some n \<Longrightarrow> map_of (snd (ContainerStore_new env root registries d)) p = Some n"
  using create_dir_all_keeps [of d p n env Create_root root]
  by (auto simp: ContainerStore_new_def split: prod.splits sum.splits)

section \<open>Serving\<close>

definition served :: "(unit, main_error) outcome \<Rightarrow> bool" where
  "served r \<longleftrightarrow> r = Ok () \<or> r = Err Serve_error \<or> (\<exists>e. r = Err (Unlink_error e))"

lemma serve_socket_served:
  assumes "serve_socket E ipam st incoming h = (r, h')" "served r" "io_fault (se_io E) Remove_socket = None" "map_of (hs_disk h) incoming = Some (File [])"
  shows "hs_disk h' = AList.delete incoming (hs_disk h)"
  using assms by (auto simp: serve_socket_def served_def remove_file_def Let_def split: sum.splits if_splits prod.splits)

lemma serve_socket_serves:
  assumes "ProxyingRuntimeService_new (se_cri E) (WorkRuntime_new (se_pods E)) (hs_downstream h) = Inr service"
  shows "served (fst (serve_socket E ipam st incoming h))"
  using assms by (auto simp: serve_socket_def served_def Let_def split: sum.splits prod.splits)

lemma bind_and_serve_served:
  assumes "bind_and_serve E ipam st incoming h = (r, h')" "served r" "io_fault (se_io E) Remove_socket = None"
  shows "incoming \<noteq> [] \<and> io_fault (se_io E) Create_socket_dir = None \<and> io_fault (se_io E) Bind_socket = None
    \<and> map_of (hs_disk h') incoming = None \<and> has_dirs [] (butlast incoming) (hs_disk h')
    \<and> (\<forall>p. map_of (hs_disk h) p = Some Dir \<longrightarrow> map_of (hs_disk h') p = Some Dir)"
proof -
  from assms(1,2) obtain d where incoming: "incoming \<noteq> []"
    and dirs: "create_dir_all (se_io E) Create_socket_dir (butlast incoming) (hs_disk h) = (Inr (), d)"
    and bind: "io_fault (se_io E) Bind_socket = None" "map_of d incoming = None"
    and run: "serve_socket E ipam st incoming (h\<lparr>hs_disk := AList.update incoming (File []) d\<rparr>) = (r, h')"
    by (auto simp: bind_and_serve_def parent_def served_def bind_socket_def exists_path_def split: if_splits prod.splits sum.splits option.splits)
  have fault: "io_fault (se_io E) Create_socket_dir = None" and created: "create_dirs [] (butlast incoming) (hs_disk h) = (Inr (), d)"
    using dirs by (simp_all add: create_dir_all_Inr)
  have "hs_disk h' = AList.delete incoming (AList.update incoming (File []) d)"
    using serve_socket_served [OF run assms(2,3)] by (simp add: update_conv')
  then have disk: "map_of (hs_disk h') p = (if p = incoming then None else map_of d p)" for p
    by (simp add: delete_conv' update_conv')
  have dir: "map_of (hs_disk h') p = Some Dir" if "map_of d p = Some Dir" for p using that bind(2) by (auto simp: disk)
  have "has_dirs [] (butlast incoming) (hs_disk h')" using has_dirs_keep [OF create_dirs_has [OF created] dir] .
  moreover have "map_of (hs_disk h') p = Some Dir" if "map_of (hs_disk h) p = Some Dir" for p
    using dir create_dirs_keeps [OF that, of "[]" "butlast incoming"] created by simp
  ultimately show ?thesis using incoming fault bind(1) disk by simp
qed

lemma bind_and_serve_serves:
  assumes "incoming \<noteq> []" "io_fault (se_io E) Create_socket_dir = None" "io_fault (se_io E) Bind_socket = None"
    and "map_of (hs_disk h) incoming = None" "has_dirs [] (butlast incoming) (hs_disk h)"
    and "ProxyingRuntimeService_new (se_cri E) (WorkRuntime_new (se_pods E)) (hs_downstream h) = Inr service"
  shows "served (fst (bind_and_serve E ipam st incoming h))"
proof -
  note has_dirs_is_dir [OF assms(5)]
  with assms create_dirs_again [OF assms(5)] show ?thesis
    by (simp add: bind_and_serve_def parent_def create_dir_all_def bind_socket_def exists_path_def serve_socket_serves)
qed

text \<open>A run that served got through every step, and leaves the disk so that the next run does.\<close>

lemma run_with_served:
  assumes "run_with E opts h = (r, h')" "served r" "io_fault (se_io E) Remove_socket = None"
  obtains ipam st d where "se_connects E (op_downstream opts)"
    "host_local (se_ipam E) (se_netlink E) (op_ipam_plugin opts) (op_pod_ips opts) (op_network_interface opts) = Inr ipam"
    "se_signals E" "se_engine E" "ContainerStore_new (se_io E) (path_of (op_image_store opts)) (op_insecure_registries opts) (hs_disk h) = (Inr st, d)"
    "bind_and_serve E ipam st (path_of (op_incoming opts)) (h\<lparr>hs_disk := d\<rparr>) = (r, h')"
  using assms by (auto simp: run_with_def served_def split: if_splits sum.splits prod.splits)

lemma run_with_again:
  assumes "run_with E opts h = (r, h')" "served r" "io_fault (se_io E) Remove_socket = None"
    and "ProxyingRuntimeService_new (se_cri E) (WorkRuntime_new (se_pods E)) (hs_downstream h') = Inr service"
  shows "map_of (hs_disk h') (path_of (op_incoming opts)) = None \<and> served (fst (run_with E opts h'))"
  using assms(1-3)
proof (rule run_with_served)
  fix ipam st d
  assume steps: "se_connects E (op_downstream opts)"
    "host_local (se_ipam E) (se_netlink E) (op_ipam_plugin opts) (op_pod_ips opts) (op_network_interface opts) = Inr ipam" "se_signals E" "se_engine E"
    and store: "ContainerStore_new (se_io E) (path_of (op_image_store opts)) (op_insecure_registries opts) (hs_disk h) = (Inr st, d)"
    and run: "bind_and_serve E ipam st (path_of (op_incoming opts)) (h\<lparr>hs_disk := d\<rparr>) = (r, h')"
  note eff = bind_and_serve_served [OF run assms(2,3)]
  have "has_dirs [] (path_of (op_image_store opts)) (hs_disk h')"
    using store_root_dirs [OF store] eff by (auto intro: has_dirs_keep)
  then obtain st' where "ContainerStore_new (se_io E) (path_of (op_image_store opts)) (op_insecure_registries opts) (hs_disk h') = (Inr st', hs_disk h')"
    using store_root_dirs [OF store] store_again by blast
  moreover have "served (fst (bind_and_serve E ipam st' (path_of (op_incoming opts)) h'))"
    using eff by (intro bind_and_serve_serves [OF _ _ _ _ _ assms(4)]) simp_all
  ultimately show ?thesis using steps eff by (simp add: run_with_def)
qed

text \<open>An entry at the path of the socket blocks every run, and no run removes it.\<close>

lemma blocked_run:
  assumes "map_of (hs_disk h) (path_of (op_incoming opts)) = Some n"
  shows "\<not> served (fst (run_with E opts h)) \<and> map_of (hs_disk (snd (run_with E opts h))) (path_of (op_incoming opts)) = Some n"
proof -
  let ?p = "path_of (op_incoming opts)"
  have "\<not> served (fst (bind_and_serve E ipam st ?p h')) \<and> map_of (hs_disk (snd (bind_and_serve E ipam st ?p h'))) ?p = Some n"
    if "map_of (hs_disk h') ?p = Some n" for ipam st and h' :: "'a host"
    using that create_dir_all_keeps [OF that, of "se_io E" Create_socket_dir "butlast ?p"]
    by (auto simp: bind_and_serve_def parent_def served_def bind_socket_def exists_path_def split: prod.splits sum.splits option.splits)
  note later = this [of "h\<lparr>hs_disk := snd (ContainerStore_new (se_io E) (path_of (op_image_store opts)) (op_insecure_registries opts) (hs_disk h))\<rparr>",
      simplified, OF store_keeps [OF assms]]
  show ?thesis
    using assms later store_keeps [OF assms, of "se_io E" "path_of (op_image_store opts)" "op_insecure_registries opts"]
    by (auto simp: run_with_def served_def split: if_splits sum.splits prod.splits)
qed

text \<open>Runs of the daemon one after the other, each in an environment and with a downstream runtime of its own.\<close>

fun restarts ::
    "(('m, 'd, 'w) server_env \<times> 'd) list \<Rightarrow> vimanad_config \<Rightarrow> 'd host \<Rightarrow> (unit, main_error) outcome list \<times> 'd host" where
  "restarts [] args h = ([], h)"
| "restarts ((E, oci) # Es) args h =
     (let (r, h) = main E args (h\<lparr>hs_downstream := oci\<rparr>); (rs, h) = restarts Es args h in (r # rs, h))"

lemma blocked_restarts:
  assumes "load_config files args = (Ok config :: (vimanad_config, main_error) outcome)"
    and "\<forall>(E, d) \<in> set Es. se_config_files E = files" "map_of (hs_disk h) (path_of (op_incoming (select_options args config))) = Some n"
  shows "\<forall>r \<in> set (fst (restarts Es args h)). \<not> served r"
  using assms(2,3)
proof (induction Es arbitrary: h)
  case (Cons x Es)
  obtain E d where x: "x = (E, d)" by (cases x)
  let ?run = "run_with E (select_options args config) (h\<lparr>hs_downstream := d\<rparr>)"
  have "main E args (h\<lparr>hs_downstream := d\<rparr>) = ?run" using Cons.prems(1) assms(1) by (simp add: x main_def)
  moreover note blocked_run [of "h\<lparr>hs_downstream := d\<rparr>" "select_options args config" n E]
  ultimately show ?case using Cons by (auto simp: x case_prod_beta Let_def)
qed simp

lemma service_error_leaves_socket:
  assumes "run_with E opts h = (Err (Service_error e), h')"
  shows "map_of (hs_disk h') (path_of (op_incoming opts)) = Some (File [])"
  using assms
  by (auto simp: run_with_def bind_and_serve_def serve_socket_def bind_socket_def update_conv' Let_def
      split: if_splits sum.splits prod.splits option.splits)

section \<open>Properties\<close>

definition sample_env :: "((pod_id \<times> pod) list, oci, net) server_env" where
  "sample_env =
     \<lparr>se_pods = alist_pods, se_cri = oci_lib, se_ipam = net_lib, se_config_files = (\<lambda>_. Unreadable), se_connects = (\<lambda>_. True),
      se_netlink = True, se_signals = True, se_engine = True, se_io = no_faults, se_serve = (\<lambda>_ _ _. True)\<rparr>"

definition sample_host :: "oci host" where
  "sample_host = \<lparr>hs_disk = [], hs_downstream = \<lparr>oci_pods = [], oci_containers = [], oci_next = 0\<rparr>\<rparr>"

definition deaf_env :: "((pod_id \<times> pod) list, oci, net) server_env" where
  "deaf_env = sample_env\<lparr>se_cri := oci_lib\<lparr>ds_list_containers := (\<lambda>filt d. (Inl (Status_downstream 14 ''unavailable''), d))\<rparr>\<rparr>"

text \<open>
  C30: The daemon can be restarted. A run that served leaves no entry at the path of its socket when unlinking works, so that the next run
  with the same options and surroundings serves as well, if the downstream runtime answers: it binds the socket again, and finds its
  directories.
\<close>

theorem restart_serves:
  assumes "main E args h = (r, h')" "served r" "io_fault (se_io E) Remove_socket = None"
    and "ProxyingRuntimeService_new (se_cri E) (WorkRuntime_new (se_pods E)) (hs_downstream h') = Inr service"
  shows "\<exists>config. load_config (se_config_files E) args = (Ok config :: (vimanad_config, main_error) outcome)
    \<and> map_of (hs_disk h') (path_of (op_incoming (select_options args config))) = None \<and> served (fst (main E args h'))"
proof (cases "load_config (se_config_files E) args :: (vimanad_config, main_error) outcome")
  case (Ok config)
  with assms(1) have "run_with E (select_options args config) h = (r, h')" by (simp add: main_def)
  from run_with_again [OF this assms(2-4)] Ok show ?thesis by (simp add: main_def)
qed (use assms(1,2) in \<open>auto simp: main_def served_def load_config_def split: option.splits config_file.splits\<close>)

lemma sample_run: "fst (main sample_env default_config sample_host) = Ok ()"
  by code_simp

theorem restart_serves_witness: "served (fst (main sample_env default_config (snd (main sample_env default_config sample_host))))"
proof -
  let ?h = "snd (main sample_env default_config sample_host)"
  have run: "main sample_env default_config sample_host = (Ok (), ?h)" using sample_run by (simp add: prod_eq_iff)
  have "\<exists>service. ProxyingRuntimeService_new (se_cri sample_env) (WorkRuntime_new (se_pods sample_env)) (hs_downstream ?h) = Inr service"
    by (simp add: ProxyingRuntimeService_new_def sample_env_def oci_lib_def)
  then show ?thesis using restart_serves [OF run] by (auto simp: served_def sample_env_def no_faults_def)
qed

text \<open>
  C32: A run that fails because the downstream runtime does not list its pods or containers has bound the socket and does not unlink it,
  although binding it is meant to be the last step that can fail. No later run with these options serves, however often the daemon is
  restarted and whatever the downstream runtime answers then.
\<close>

theorem failed_start_blocks_restarts:
  assumes "main E args h = (Err (Service_error e), h')" "\<forall>(E', d) \<in> set Es. se_config_files E' = se_config_files E"
  shows "\<forall>r \<in> set (fst (restarts Es args h')). \<not> served r"
proof (cases "load_config (se_config_files E) args :: (vimanad_config, main_error) outcome")
  case (Ok config)
  with assms(1) have "run_with E (select_options args config) h = (Err (Service_error e), h')" by (simp add: main_def)
  from blocked_restarts [OF Ok assms(2) service_error_leaves_socket [OF this]] show ?thesis .
qed (use assms(1) in \<open>auto simp: main_def load_config_def split: option.splits config_file.splits\<close>)

theorem failed_start_blocks_restarts_witness:
  "list_all (\<lambda>r. \<not> served r) (fst (restarts (replicate 3 (sample_env, hs_downstream sample_host)) default_config
     (snd (main deaf_env default_config sample_host))))"
  unfolding list_all_iff
proof (rule failed_start_blocks_restarts)
  have "fst (main deaf_env default_config sample_host) = Err (Service_error Downstream_startup_failure)" by code_simp
  then show "main deaf_env default_config sample_host
      = (Err (Service_error Downstream_startup_failure), snd (main deaf_env default_config sample_host))" by (simp add: prod_eq_iff)
qed (simp add: deaf_env_def)



end
