(* ===== verification/Descriptors.thy ===== *)
theory Descriptors
  imports Prelude "HOL-Library.Char_ord" "HOL-Library.List_Lexorder" "HOL-Library.Product_Lexorder" "HOL-Library.AList"
begin

text \<open>
  The compiler plug-in's view of Protobuf files (\<^verbatim>\<open>compiler/main.rs\<close>): qualified type names and the map of all descriptors of a request.
  A descriptor of \<^verbatim>\<open>prost_types\<close> is modelled by what its accessors return, so that a missing name is empty. Identifiers are ASCII, as
  Protobuf requires. A \<^verbatim>\<open>HashMap\<close> is an association list with every key once.
\<close>

section \<open>Descriptors\<close>

datatype proto_type =
    Type_double | Type_float | Type_int64 | Type_uint64 | Type_int32 | Type_fixed64 | Type_fixed32 | Type_bool | Type_string | Type_group
  | Type_message | Type_bytes | Type_uint32 | Type_enum | Type_sfixed32 | Type_sfixed64 | Type_sint32 | Type_sint64

datatype proto_label = Label_optional | Label_required | Label_repeated

record field_descriptor =
  fd_name :: string
  fd_type :: proto_type
  fd_type_name :: string
  fd_label :: proto_label
  fd_proto3_optional :: bool

record enum_descriptor =
  ed_name :: string
  ed_value :: "string list"  \<comment> \<open>names of the variants\<close>

datatype descriptor_proto = DescriptorProto
  (dp_name: string) (dp_field: "field_descriptor list") (dp_nested_type: "descriptor_proto list") (dp_enum_type: "enum_descriptor list")

record method_descriptor =
  me_name :: string
  me_input_type :: string
  me_output_type :: string
  me_client_streaming :: "bool option"
  me_server_streaming :: "bool option"

record service_descriptor =
  sd_name :: string
  sd_method :: "method_descriptor list"

record file_descriptor =
  fl_name :: string
  fl_package :: string
  fl_syntax :: "string option"
  fl_message_type :: "descriptor_proto list"
  fl_enum_type :: "enum_descriptor list"
  fl_service :: "service_descriptor list"

record code_generator_request =
  rq_file_to_generate :: "string list"
  rq_proto_file :: "file_descriptor list"

section \<open>Qualified names\<close>

datatype proto_syntax = Proto2 | Proto3 | Editions

record type_name_qualifier =
  tq_package :: "string list"
  tq_outer_messages :: "string list"

record qualified_type_name =
  qn_qualifier :: type_name_qualifier
  qn_name :: string

text \<open>The derived order compares the fields in the order of their declaration.\<close>

instantiation type_name_qualifier_ext :: (linorder) linorder
begin
definition less_eq_type_name_qualifier_ext :: "'a type_name_qualifier_scheme \<Rightarrow> 'a type_name_qualifier_scheme \<Rightarrow> bool" where
  "less_eq_type_name_qualifier_ext x y \<longleftrightarrow>
     (tq_package x, tq_outer_messages x, type_name_qualifier.more x) \<le> (tq_package y, tq_outer_messages y, type_name_qualifier.more y)"
definition less_type_name_qualifier_ext :: "'a type_name_qualifier_scheme \<Rightarrow> 'a type_name_qualifier_scheme \<Rightarrow> bool" where
  "less_type_name_qualifier_ext x y \<longleftrightarrow>
     (tq_package x, tq_outer_messages x, type_name_qualifier.more x) < (tq_package y, tq_outer_messages y, type_name_qualifier.more y)"
instance
  by intro_classes (auto simp: less_eq_type_name_qualifier_ext_def less_type_name_qualifier_ext_def intro: type_name_qualifier.equality)
end

instantiation qualified_type_name_ext :: (linorder) linorder
begin
definition less_eq_qualified_type_name_ext :: "'a qualified_type_name_scheme \<Rightarrow> 'a qualified_type_name_scheme \<Rightarrow> bool" where
  "less_eq_qualified_type_name_ext x y \<longleftrightarrow>
     (qn_qualifier x, qn_name x, qualified_type_name.more x) \<le> (qn_qualifier y, qn_name y, qualified_type_name.more y)"
definition less_qualified_type_name_ext :: "'a qualified_type_name_scheme \<Rightarrow> 'a qualified_type_name_scheme \<Rightarrow> bool" where
  "less_qualified_type_name_ext x y \<longleftrightarrow>
     (qn_qualifier x, qn_name x, qualified_type_name.more x) < (qn_qualifier y, qn_name y, qualified_type_name.more y)"
instance
  by intro_classes (auto simp: less_eq_qualified_type_name_ext_def less_qualified_type_name_ext_def intro: qualified_type_name.equality)
end

definition top_level :: "string list \<Rightarrow> type_name_qualifier" where
  "top_level package = \<lparr>tq_package = package, tq_outer_messages = []\<rparr>"

definition nested :: "type_name_qualifier \<Rightarrow> string \<Rightarrow> type_name_qualifier" where
  "nested q name = q\<lparr>tq_outer_messages := tq_outer_messages q @ [name]\<rparr>"

definition into_type :: "type_name_qualifier \<Rightarrow> string \<Rightarrow> qualified_type_name" where
  "into_type q name = \<lparr>qn_qualifier = q, qn_name = name\<rparr>"

definition is_lowercase :: "char \<Rightarrow> bool" where
  "is_lowercase c \<longleftrightarrow> CHR ''a'' \<le> c \<and> c \<le> CHR ''z''"

text \<open>The parts of the package, and the outer messages from the first part on that does not start in lower case.\<close>

fun split_package :: "string list \<Rightarrow> string list \<Rightarrow> (string list \<times> string list, 'e) outcome" where
  "split_package package [] = Ok (package, [])"
| "split_package package ([] # parts) = Panic"
| "split_package package ((c # cs) # parts) =
     (if is_lowercase c then split_package (package @ [c # cs]) parts else Ok (package, (c # cs) # parts))"

definition from_path :: "string \<Rightarrow> string list \<Rightarrow> (qualified_type_name, 'e) outcome" where
  "from_path type_path default_package =
     (let parts = split_on (CHR ''.'') type_path;
          name = last parts;
          parts = butlast parts
      in obind (if take 1 type_path = ''.'' then split_package [] (drop 1 parts) else Ok (default_package, parts)) (\<lambda>(package, outer_messages).
           Ok (into_type \<lparr>tq_package = package, tq_outer_messages = outer_messages\<rparr> name)))"

definition QualifiedTypeName_display :: "qualified_type_name \<Rightarrow> string" where
  "QualifiedTypeName_display t =
     ''.'' @ join ''.'' (tq_package (qn_qualifier t)) @ ''.'' @ join ''.'' (tq_outer_messages (qn_qualifier t)) @ ''.'' @ qn_name t"

section \<open>The map of descriptors\<close>

datatype compiler_error =
    Editions_unsupported | Unknown_syntax string string | Unknown_file string | Conflicting_packages "string list" "string list"
  | Type_not_found qualified_type_name | Groups_unsupported | Required_unsupported

record descriptor_map =
  dm_files :: "(string \<times> (file_descriptor \<times> proto_syntax)) list"
  dm_messages :: "(qualified_type_name \<times> (descriptor_proto \<times> proto_syntax)) list"
  dm_enums :: "(qualified_type_name \<times> enum_descriptor) list"

definition insert_enum :: "enum_descriptor \<Rightarrow> type_name_qualifier \<Rightarrow> descriptor_map \<Rightarrow> descriptor_map" where
  "insert_enum e q D = D\<lparr>dm_enums := AList.update (into_type q (ed_name e)) e (dm_enums D)\<rparr>"

fun insert_message :: "descriptor_proto \<Rightarrow> type_name_qualifier \<Rightarrow> proto_syntax \<Rightarrow> descriptor_map \<Rightarrow> descriptor_map"
and insert_messages :: "descriptor_proto list \<Rightarrow> type_name_qualifier \<Rightarrow> proto_syntax \<Rightarrow> descriptor_map \<Rightarrow> descriptor_map" where
  "insert_message (DescriptorProto name fds nested_type enum_type) q syn D =
     (let nested_qualifier = nested q name;
          D = insert_messages nested_type nested_qualifier syn D;
          D = foldl (\<lambda>D e. insert_enum e nested_qualifier D) D enum_type
      in D\<lparr>dm_messages := AList.update (into_type q name) (DescriptorProto name fds nested_type enum_type, syn) (dm_messages D)\<rparr>)"
| "insert_messages [] q syn D = D"
| "insert_messages (m # ms) q syn D = insert_messages ms q syn (insert_message m q syn D)"

definition file_syntax :: "file_descriptor \<Rightarrow> (proto_syntax, compiler_error) outcome" where
  "file_syntax f =
     (case fl_syntax f of
        None \<Rightarrow> Ok Proto2
      | Some s \<Rightarrow>
          if s = ''proto2'' then Ok Proto2
          else if s = ''proto3'' then Ok Proto3
          else if s = ''editions'' then Err Editions_unsupported
          else Err (Unknown_syntax s (fl_name f)))"

definition insert_file :: "file_descriptor \<Rightarrow> descriptor_map \<Rightarrow> (descriptor_map, compiler_error) outcome" where
  "insert_file f D =
     obind (file_syntax f) (\<lambda>syn.
       let q = top_level (split_on (CHR ''.'') (fl_package f));
           D = insert_messages (fl_message_type f) q syn D;
           D = foldl (\<lambda>D e. insert_enum e q D) D (fl_enum_type f)
       in Ok (D\<lparr>dm_files := AList.update (fl_name f) (f, syn) (dm_files D)\<rparr>))"

fun build_from :: "file_descriptor list \<Rightarrow> descriptor_map \<Rightarrow> (descriptor_map, compiler_error) outcome" where
  "build_from [] D = Ok D"
| "build_from (f # fs) D = obind (insert_file f D) (build_from fs)"

definition DescriptorMap_build :: "file_descriptor list \<Rightarrow> (descriptor_map, compiler_error) outcome" where
  "DescriptorMap_build fs = build_from fs \<lparr>dm_files = [], dm_messages = [], dm_enums = []\<rparr>"

definition get_file :: "descriptor_map \<Rightarrow> string \<Rightarrow> (file_descriptor \<times> proto_syntax, compiler_error) outcome" where
  "get_file D filename = (case map_of (dm_files D) filename of None \<Rightarrow> Err (Unknown_file filename) | Some f \<Rightarrow> Ok f)"

definition get_message :: "descriptor_map \<Rightarrow> qualified_type_name \<Rightarrow> (descriptor_proto \<times> proto_syntax) option" where
  "get_message D t = map_of (dm_messages D) t"

definition get_enum :: "descriptor_map \<Rightarrow> qualified_type_name \<Rightarrow> enum_descriptor option" where
  "get_enum D t = map_of (dm_enums D) t"

definition sorted_map_entries :: "('k :: linorder \<times> 'v) list \<Rightarrow> ('k \<times> 'v) list" where
  "sorted_map_entries entries = sort_key fst entries"

definition sorted_set_values :: "'v :: linorder set \<Rightarrow> 'v list" where
  "sorted_set_values values = sorted_list_of_set values"

end
