(* ===== verification/Wit.thy ===== *)
theory Wit
  imports Descriptors
begin

text \<open>
  The WIT file that the compiler plug-in generates (\<^verbatim>\<open>compiler/wit.rs\<close>), the metadata file (\<^verbatim>\<open>compiler/metadata.rs\<close>) and \<^verbatim>\<open>compile\<close>
  (\<^verbatim>\<open>compiler/main.rs\<close>). A value of the crate \<^verbatim>\<open>wit_encoder\<close> is represented by the calls that build it; how such a value is printed and how
  \<^verbatim>\<open>heck\<close> converts names are parameters (\<open>wit_lib\<close>). The recursion over the types that a message uses has fuel, one more than there are
  messages: a message that is compiled once is not compiled again.
\<close>

section \<open>WIT values\<close>

datatype wit_type =
    Wit_bool | Wit_u8 | Wit_u32 | Wit_u64 | Wit_s32 | Wit_s64 | Wit_f32 | Wit_f64 | Wit_string
  | Wit_named string | Wit_option wit_type | Wit_list wit_type

datatype wit_type_def_kind = Wit_record "(string \<times> wit_type) list" | Wit_enum "string list"

record wit_type_def =
  td_name :: string
  td_kind :: wit_type_def_kind

record standalone_func =
  sf_name :: string
  sf_params :: "(string \<times> wit_type) list"
  sf_result :: "wit_type option"

datatype interface_item = Interface_use string string | Interface_function standalone_func | Interface_type_def wit_type_def

record wit_interface =
  wi_name :: string
  wi_items :: "interface_item list"

datatype world_item = World_include string | World_use string string | World_export wit_interface

record wit_world =
  ww_name :: string
  ww_items :: "world_item list"

record package_name =
  pk_namespace :: string
  pk_name :: string

datatype package_item = Package_world wit_world | Package_interface wit_interface

record wit_package =
  wp_name :: package_name
  wp_items :: "package_item list"

record wit_lib =
  wt_kebab :: "string \<Rightarrow> string"
  wt_package_to_string :: "wit_package \<Rightarrow> string"
  wt_nested_package_to_string :: "wit_package \<Rightarrow> string"

section \<open>The state of the compiler\<close>

definition VIMANA_API_VERSION :: string where "VIMANA_API_VERSION = ''0.0.0''"
definition WASI_API_VERSION :: string where "WASI_API_VERSION = ''0.2.0''"
definition SUPPORTED_FEATURES :: u64 where "SUPPORTED_FEATURES = 1"  \<comment> \<open>\<^verbatim>\<open>FEATURE_PROTO3_OPTIONAL\<close>\<close>

definition WIT_FILENAME :: string where "WIT_FILENAME = ''server.wit''"
definition PACKAGE_NAME :: string where "PACKAGE_NAME = ''proto''"
definition WORLD_NAME :: string where "WORLD_NAME = ''server''"
definition TYPES_INTERFACE_NAME :: string where "TYPES_INTERFACE_NAME = ''types''"
definition REQUEST_PARAMETER_NAME :: string where "REQUEST_PARAMETER_NAME = ''request''"
definition METADATA_FILENAME :: string where "METADATA_FILENAME = ''metadata.binpb''"

record server_world =
  sw_package :: "string list option"
  sw_services :: "wit_interface list"
  sw_types_used :: "qualified_type_name set"

record types_interface =
  ti_types_defined :: "wit_type_def list"
  ti_types_used :: "qualified_type_name set"

record wit_file =
  wf_server_world :: server_world
  wf_types_interfaces :: "(type_name_qualifier \<times> types_interface) list"
  wf_types_compiled :: "qualified_type_name set"

definition WitFile_default :: wit_file where
  "WitFile_default = \<lparr>wf_server_world = \<lparr>sw_package = None, sw_services = [], sw_types_used = {}\<rparr>, wf_types_interfaces = [], wf_types_compiled = {}\<rparr>"

definition set_or_check_server_package :: "string \<Rightarrow> wit_file \<Rightarrow> (string list \<times> wit_file, compiler_error) outcome" where
  "set_or_check_server_package package wit =
     (let package = split_on (CHR ''.'') package;
          existing_package = (case sw_package (wf_server_world wit) of None \<Rightarrow> package | Some p \<Rightarrow> p);
          wit = wit\<lparr>wf_server_world := (wf_server_world wit)\<lparr>sw_package := Some existing_package\<rparr>\<rparr>
      in if package \<noteq> existing_package then Err (Conflicting_packages existing_package package) else Ok (package, wit))"

definition server_package :: "wit_file \<Rightarrow> (string list, compiler_error) outcome" where
  "server_package wit = (case sw_package (wf_server_world wit) of None \<Rightarrow> Panic | Some p \<Rightarrow> Ok p)"

definition package_namespace :: "wit_lib \<Rightarrow> string list \<Rightarrow> string" where
  "package_namespace K package = join '':'' (map (wt_kebab K) package)"

fun push_outer_messages :: "wit_lib \<Rightarrow> string \<Rightarrow> string list \<Rightarrow> string" where
  "push_outer_messages K package_name [] = package_name"
| "push_outer_messages K package_name (m # ms) = push_outer_messages K (package_name @ ''/'' @ wt_kebab K m) ms"

definition qualifier_package_name :: "wit_lib \<Rightarrow> type_name_qualifier \<Rightarrow> string" where
  "qualifier_package_name K q = push_outer_messages K PACKAGE_NAME (tq_outer_messages q)"

definition into_namespaced_package_name :: "wit_lib \<Rightarrow> type_name_qualifier \<Rightarrow> package_name" where
  "into_namespaced_package_name K q = \<lparr>pk_namespace = package_namespace K (tq_package q), pk_name = qualifier_package_name K q\<rparr>"

definition use_type_target :: "wit_lib \<Rightarrow> qualified_type_name \<Rightarrow> string" where
  "use_type_target K t =
     package_namespace K (tq_package (qn_qualifier t)) @ '':'' @ qualifier_package_name K (qn_qualifier t) @ ''/'' @ TYPES_INTERFACE_NAME"

definition use_type_item :: "wit_lib \<Rightarrow> qualified_type_name \<Rightarrow> string" where
  "use_type_item K t = wt_kebab K (qn_name t)"

section \<open>Services\<close>

fun compile_methods :: "wit_lib \<Rightarrow> method_descriptor list \<Rightarrow> wit_interface \<Rightarrow> wit_file \<Rightarrow> (wit_interface \<times> wit_file, compiler_error) outcome" where
  "compile_methods K [] service wit = Ok (service, wit)"
| "compile_methods K (m # ms) service wit =
     obind (server_package wit) (\<lambda>package.
     obind (from_path (me_input_type m) package) (\<lambda>request_type.
     obind (from_path (me_output_type m) package) (\<lambda>response_type.
       let f = \<lparr>sf_name = wt_kebab K (me_name m), sf_params = [(REQUEST_PARAMETER_NAME, Wit_named (wt_kebab K (qn_name request_type)))],
                sf_result = Some (Wit_named (wt_kebab K (qn_name response_type)))\<rparr>;
           service = service\<lparr>wi_items := wi_items service @ [Interface_function f]\<rparr>;
           w = wf_server_world wit;
           wit = wit\<lparr>wf_server_world := w\<lparr>sw_types_used := insert response_type (insert request_type (sw_types_used w))\<rparr>\<rparr>
       in compile_methods K ms service wit)))"

definition compile_service :: "wit_lib \<Rightarrow> service_descriptor \<Rightarrow> wit_file \<Rightarrow> (wit_file, compiler_error) outcome" where
  "compile_service K s wit =
     obind (compile_methods K (sd_method s) \<lparr>wi_name = wt_kebab K (sd_name s), wi_items = []\<rparr> wit) (\<lambda>(service, wit).
       let w = wf_server_world wit in Ok (wit\<lparr>wf_server_world := w\<lparr>sw_services := sw_services w @ [service]\<rparr>\<rparr>))"

section \<open>Types\<close>

text \<open>The WIT type of a field without its label, and the type that it uses.\<close>

definition wit_field_type ::
    "wit_lib \<Rightarrow> wit_file \<Rightarrow> field_descriptor \<Rightarrow> (wit_type \<times> qualified_type_name list, compiler_error) outcome" where
  "wit_field_type K wit f =
     (let named = obind (server_package wit) (\<lambda>package.
            obind (from_path (fd_type_name f) package) (\<lambda>type_name. Ok (Wit_named (wt_kebab K (qn_name type_name)), [type_name])))
      in (case fd_type f of
            Type_double \<Rightarrow> Ok (Wit_f64, [])
          | Type_float \<Rightarrow> Ok (Wit_f32, [])
          | Type_int64 \<Rightarrow> Ok (Wit_s64, [])
          | Type_uint64 \<Rightarrow> Ok (Wit_u64, [])
          | Type_int32 \<Rightarrow> Ok (Wit_s32, [])
          | Type_fixed64 \<Rightarrow> Ok (Wit_u64, [])
          | Type_fixed32 \<Rightarrow> Ok (Wit_u32, [])
          | Type_bool \<Rightarrow> Ok (Wit_bool, [])
          | Type_string \<Rightarrow> Ok (Wit_string, [])
          | Type_message \<Rightarrow> named
          | Type_enum \<Rightarrow> named
          | Type_bytes \<Rightarrow> Ok (Wit_list Wit_u8, [])
          | Type_uint32 \<Rightarrow> Ok (Wit_u32, [])
          | Type_sfixed32 \<Rightarrow> Ok (Wit_s32, [])
          | Type_sfixed64 \<Rightarrow> Ok (Wit_s64, [])
          | Type_sint32 \<Rightarrow> Ok (Wit_s32, [])
          | Type_sint64 \<Rightarrow> Ok (Wit_s64, [])
          | Type_group \<Rightarrow> Err Groups_unsupported))"

definition wit_label_type :: "proto_syntax \<Rightarrow> field_descriptor \<Rightarrow> wit_type \<Rightarrow> (wit_type, compiler_error) outcome" where
  "wit_label_type syn f t =
     (case fd_label f of
        Label_optional \<Rightarrow> Ok (if syn = Proto2 \<or> fd_proto3_optional f then Wit_option t else t)
      | Label_required \<Rightarrow> Err Required_unsupported
      | Label_repeated \<Rightarrow> Ok (Wit_list t))"

fun compile_fields ::
    "wit_lib \<Rightarrow> wit_file \<Rightarrow> proto_syntax \<Rightarrow> field_descriptor list \<Rightarrow> (string \<times> wit_type) list \<Rightarrow> qualified_type_name list
      \<Rightarrow> ((string \<times> wit_type) list \<times> qualified_type_name list, compiler_error) outcome" where
  "compile_fields K wit syn [] wit_fields types_used = Ok (wit_fields, types_used)"
| "compile_fields K wit syn (f # fs) wit_fields types_used =
     obind (wit_field_type K wit f) (\<lambda>(t, used).
     obind (wit_label_type syn f t) (\<lambda>t.
       compile_fields K wit syn fs (wit_fields @ [(wt_kebab K (fd_name f), t)]) (types_used @ used)))"

definition message_type_definition ::
    "wit_lib \<Rightarrow> wit_file \<Rightarrow> descriptor_proto \<Rightarrow> string \<Rightarrow> proto_syntax \<Rightarrow> (wit_type_def \<times> qualified_type_name list, compiler_error) outcome" where
  "message_type_definition K wit m name syn =
     obind (compile_fields K wit syn (dp_field m) [] []) (\<lambda>(wit_fields, types_used).
       Ok (\<lparr>td_name = wt_kebab K name, td_kind = Wit_record wit_fields\<rparr>, types_used))"

definition enum_type_definition :: "wit_lib \<Rightarrow> enum_descriptor \<Rightarrow> string \<Rightarrow> wit_type_def" where
  "enum_type_definition K e name = \<lparr>td_name = wt_kebab K name, td_kind = Wit_enum (map (wt_kebab K) (ed_value e))\<rparr>"

definition upsert_type_definition :: "type_name_qualifier \<Rightarrow> wit_type_def \<Rightarrow> qualified_type_name list \<Rightarrow> wit_file \<Rightarrow> wit_file" where
  "upsert_type_definition q def types_used wit =
     (let ti = (case map_of (wf_types_interfaces wit) q of
                  Some ti \<Rightarrow> ti\<lparr>ti_types_defined := ti_types_defined ti @ [def], ti_types_used := ti_types_used ti \<union> set types_used\<rparr>
                | None \<Rightarrow> \<lparr>ti_types_defined = [def], ti_types_used = set types_used\<rparr>)
      in wit\<lparr>wf_types_interfaces := AList.update q ti (wf_types_interfaces wit)\<rparr>)"

definition compile_enum :: "wit_lib \<Rightarrow> enum_descriptor \<Rightarrow> type_name_qualifier \<Rightarrow> wit_file \<Rightarrow> wit_file" where
  "compile_enum K e q wit =
     (let type_name = into_type q (ed_name e)
      in if type_name \<in> wf_types_compiled wit then wit
         else upsert_type_definition (qn_qualifier type_name) (enum_type_definition K e (qn_name type_name)) []
                (wit\<lparr>wf_types_compiled := insert type_name (wf_types_compiled wit)\<rparr>))"

fun WitFile_compile_message ::
    "nat \<Rightarrow> wit_lib \<Rightarrow> descriptor_map \<Rightarrow> descriptor_proto \<Rightarrow> type_name_qualifier \<Rightarrow> proto_syntax \<Rightarrow> wit_file \<Rightarrow> (wit_file, compiler_error) outcome"
and compile_types_used :: "nat \<Rightarrow> wit_lib \<Rightarrow> descriptor_map \<Rightarrow> qualified_type_name list \<Rightarrow> wit_file \<Rightarrow> (wit_file, compiler_error) outcome" where
  "WitFile_compile_message 0 K D m q syn wit = Out_of_fuel"
| "WitFile_compile_message (Suc fuel) K D m q syn wit =
     (let type_name = into_type q (dp_name m)
      in if type_name \<in> wf_types_compiled wit then Ok wit
         else
           let wit = wit\<lparr>wf_types_compiled := insert type_name (wf_types_compiled wit)\<rparr>
           in obind (message_type_definition K wit m (qn_name type_name) syn) (\<lambda>(def, types_used).
              obind (compile_types_used fuel K D types_used wit) (\<lambda>wit.
                Ok (upsert_type_definition (qn_qualifier type_name) def types_used wit))))"
| "compile_types_used fuel K D [] wit = Ok wit"
| "compile_types_used fuel K D (t # ts) wit =
     (case get_message D t of
        Some (m, syn) \<Rightarrow> obind (WitFile_compile_message fuel K D m (qn_qualifier t) syn wit) (compile_types_used fuel K D ts)
      | None \<Rightarrow>
          (case get_enum D t of
             Some e \<Rightarrow> compile_types_used fuel K D ts (compile_enum K e (qn_qualifier t) wit)
           | None \<Rightarrow> Err (Type_not_found t)))"

section \<open>Files\<close>

fun compile_services :: "wit_lib \<Rightarrow> service_descriptor list \<Rightarrow> wit_file \<Rightarrow> (wit_file, compiler_error) outcome" where
  "compile_services K [] wit = Ok wit"
| "compile_services K (s # ss) wit = obind (compile_service K s wit) (compile_services K ss)"

fun compile_messages ::
    "nat \<Rightarrow> wit_lib \<Rightarrow> descriptor_map \<Rightarrow> descriptor_proto list \<Rightarrow> type_name_qualifier \<Rightarrow> proto_syntax \<Rightarrow> wit_file \<Rightarrow> (wit_file, compiler_error) outcome" where
  "compile_messages fuel K D [] q syn wit = Ok wit"
| "compile_messages fuel K D (m # ms) q syn wit = obind (WitFile_compile_message fuel K D m q syn wit) (compile_messages fuel K D ms q syn)"

fun compile_files :: "nat \<Rightarrow> wit_lib \<Rightarrow> descriptor_map \<Rightarrow> string list \<Rightarrow> wit_file \<Rightarrow> (wit_file, compiler_error) outcome" where
  "compile_files fuel K D [] wit = Ok wit"
| "compile_files fuel K D (file_to_generate # fs) wit =
     obind (get_file D file_to_generate) (\<lambda>(f, syn).
     obind (set_or_check_server_package (fl_package f) wit) (\<lambda>(package, wit).
     obind (compile_services K (fl_service f) wit) (\<lambda>wit.
     obind (compile_messages fuel K D (fl_message_type f) (top_level package) syn wit) (compile_files fuel K D fs))))"

definition compile_wit :: "wit_lib \<Rightarrow> code_generator_request \<Rightarrow> (wit_file, compiler_error) outcome" where
  "compile_wit K request =
     obind (DescriptorMap_build (rq_proto_file request)) (\<lambda>D.
       compile_files (Suc (length (dm_messages D))) K D (rq_file_to_generate request) WitFile_default)"

record generated_file =
  gf_name :: "string option"
  gf_insertion_point :: "string option"
  gf_content :: "string option"

definition into_world :: "wit_lib \<Rightarrow> server_world \<Rightarrow> wit_world" where
  "into_world K w =
     \<lparr>ww_name = WORLD_NAME, ww_items =
        [World_include (''wasi:cli/imports@'' @ WASI_API_VERSION), World_include (''vimana:grpc/imports@'' @ VIMANA_API_VERSION)]
        @ map (\<lambda>t. World_use (use_type_target K t) (use_type_item K t)) (sorted_set_values (sw_types_used w))
        @ map World_export (sw_services w)\<rparr>"

definition into_interface :: "wit_lib \<Rightarrow> types_interface \<Rightarrow> wit_interface" where
  "into_interface K ti =
     \<lparr>wi_name = TYPES_INTERFACE_NAME, wi_items =
        map (\<lambda>t. Interface_use (use_type_target K t) (use_type_item K t)) (sorted_set_values (ti_types_used ti))
        @ map Interface_type_def (ti_types_defined ti)\<rparr>"

definition into_nested_package :: "wit_lib \<Rightarrow> type_name_qualifier \<Rightarrow> types_interface \<Rightarrow> wit_package" where
  "into_nested_package K q ti = \<lparr>wp_name = into_namespaced_package_name K q, wp_items = [Package_interface (into_interface K ti)]\<rparr>"

definition generate :: "wit_lib \<Rightarrow> wit_file \<Rightarrow> (generated_file, compiler_error) outcome" where
  "generate K wit =
     obind (server_package wit) (\<lambda>package.
       let q = top_level package;
           name = \<lparr>pk_namespace = package_namespace K package, pk_name = PACKAGE_NAME\<rparr>;
           own_types = (case map_of (wf_types_interfaces wit) q of None \<Rightarrow> [] | Some ti \<Rightarrow> [Package_interface (into_interface K ti)]);
           wit_contents = wt_package_to_string K \<lparr>wp_name = name, wp_items = Package_world (into_world K (wf_server_world wit)) # own_types\<rparr>
             @ concat (map (\<lambda>(q, ti). CHR 0x0A # wt_nested_package_to_string K (into_nested_package K q ti))
                 (sorted_map_entries (AList.delete q (wf_types_interfaces wit))))
       in Ok \<lparr>gf_name = Some WIT_FILENAME, gf_insertion_point = None, gf_content = Some wit_contents\<rparr>)"

definition metadata_generate :: generated_file where
  "metadata_generate = \<lparr>gf_name = Some METADATA_FILENAME, gf_insertion_point = None, gf_content = Some []\<rparr>"

definition compile :: "wit_lib \<Rightarrow> code_generator_request \<Rightarrow> (generated_file list, compiler_error) outcome" where
  "compile K request =
     obind (compile_wit K request) (\<lambda>wit_file.
     obind (generate K wit_file) (\<lambda>f. Ok [f, metadata_generate]))"

record code_generator_response =
  cr_file :: "generated_file list"
  cr_error :: "compiler_error option"
  cr_supported_features :: "u64 option"

text \<open>What \<^verbatim>\<open>main\<close> writes for a request that it could read: an error is part of the response.\<close>

definition compiler_main :: "wit_lib \<Rightarrow> code_generator_request \<Rightarrow> (code_generator_response, compiler_error) outcome" where
  "compiler_main K request =
     (let response = \<lparr>cr_file = [], cr_error = None, cr_supported_features = Some SUPPORTED_FEATURES\<rparr>
      in (case compile K request of
            Ok files \<Rightarrow> Ok (response\<lparr>cr_file := files\<rparr>)
          | Err e \<Rightarrow> Ok (response\<lparr>cr_error := Some e\<rparr>)
          | Panic \<Rightarrow> Panic
          | Out_of_fuel \<Rightarrow> Out_of_fuel))"

end
