(* ===== verification/Compiler_Claims.thy ===== *)
theory Compiler_Claims
  imports Wit "HOL-Library.Multiset"
begin

text \<open>
  What the compiler plug-in guarantees: compilation ends for every request, also for types that refer to themselves, and the interfaces of
  types it writes are closed: every type they use is defined once, in the interface of its qualifier. Paths of types are read back into the
  names they were made from; files without a package, and request and response types from elsewhere, are where this fails.
\<close>

section \<open>The map of descriptors\<close>

definition names_agree :: "descriptor_map \<Rightarrow> bool" where
  "names_agree D \<longleftrightarrow> (\<forall>t m syn. get_message D t = Some (m, syn) \<longrightarrow> dp_name m = qn_name t) \<and> (\<forall>t e. get_enum D t = Some e \<longrightarrow> ed_name e = qn_name t)
     \<and> (\<forall>t. get_message D t \<noteq> None \<or> get_enum D t \<noteq> None \<longrightarrow> tq_package (qn_qualifier t) \<noteq> [])"

definition message_names :: "descriptor_map \<Rightarrow> qualified_type_name set" where
  "message_names D = dom (get_message D)"

lemma message_names_eq: "message_names D = fst ` set (dm_messages D)"
  by (simp add: message_names_def get_message_def [abs_def] dom_map_of_conv_image_fst)

lemma card_message_names: "finite (message_names D)" "card (message_names D) \<le> length (dm_messages D)"
  unfolding message_names_eq by (simp_all add: card_image_le [THEN order_trans] card_length)

lemma insert_enum_effect:
  assumes "names_agree D" "tq_package q \<noteq> []"
  shows "names_agree (insert_enum e q D) \<and> message_names (insert_enum e q D) = message_names D \<and> dm_files (insert_enum e q D) = dm_files D"
  using assms by (auto simp: names_agree_def insert_enum_def get_enum_def get_message_def [abs_def] message_names_def update_conv' into_type_def split: if_splits)

lemma insert_enums_effect:
  assumes "names_agree D" "tq_package q \<noteq> []"
  shows "names_agree (foldl (\<lambda>D e. insert_enum e q D) D es) \<and> message_names (foldl (\<lambda>D e. insert_enum e q D) D es) = message_names D
    \<and> dm_files (foldl (\<lambda>D e. insert_enum e q D) D es) = dm_files D"
  using assms by (induction es arbitrary: D) (simp_all add: insert_enum_effect)

lemma insert_message_effect:
  "names_agree D \<Longrightarrow> tq_package q \<noteq> [] \<Longrightarrow> names_agree (insert_message m q syn D) \<and> dm_files (insert_message m q syn D) = dm_files D
     \<and> insert (into_type q (dp_name m)) (message_names D) \<subseteq> message_names (insert_message m q syn D)"
  "names_agree D \<Longrightarrow> tq_package q \<noteq> [] \<Longrightarrow> names_agree (insert_messages ms q syn D) \<and> dm_files (insert_messages ms q syn D) = dm_files D
     \<and> into_type q ` dp_name ` set ms \<union> message_names D \<subseteq> message_names (insert_messages ms q syn D)"
proof (induction m q syn D and ms q syn D rule: insert_message_insert_messages.induct)
  case (1 name fds nested_type enum_type q syn D)
  let ?D = "foldl (\<lambda>D e. insert_enum e (nested q name) D) (insert_messages nested_type (nested q name) syn D) enum_type"
  have q: "tq_package (nested q name) \<noteq> []" using 1 by (simp add: nested_def)
  with 1 have "names_agree ?D \<and> message_names D \<subseteq> message_names ?D \<and> dm_files ?D = dm_files D"
    using insert_enums_effect [OF _ q] by simp
  with 1(3) show ?case
    by (auto simp: Let_def names_agree_def get_message_def [abs_def] get_enum_def message_names_def update_conv' into_type_def)
qed auto

definition files_listed :: "descriptor_map \<Rightarrow> bool" where
  "files_listed D \<longleftrightarrow> (\<forall>name f syn. map_of (dm_files D) name = Some (f, syn) \<longrightarrow>
     into_type (top_level (split_on (CHR ''.'') (fl_package f))) ` dp_name ` set (fl_message_type f) \<subseteq> message_names D)"

lemma insert_file_effect:
  assumes "insert_file f D = Ok D'" "names_agree D" "files_listed D"
  shows "names_agree D' \<and> files_listed D'"
proof -
  let ?q = "top_level (split_on (CHR ''.'') (fl_package f))"
  obtain syn where syn: "file_syntax f = Ok syn" using assms(1) by (cases "file_syntax f") (simp_all add: insert_file_def)
  let ?D = "foldl (\<lambda>D e. insert_enum e ?q D) (insert_messages (fl_message_type f) ?q syn D) (fl_enum_type f)"
  have D': "D' = ?D\<lparr>dm_files := AList.update (fl_name f) (f, syn) (dm_files ?D)\<rparr>" using assms(1) by (simp add: insert_file_def syn Let_def)
  have q: "tq_package ?q \<noteq> []" by (simp add: top_level_def)
  note eff = insert_message_effect(2) [OF assms(2) q, of "fl_message_type f" syn]
  note effs = insert_enums_effect [OF conjunct1 [OF eff] q, of "fl_enum_type f"]
  have "names_agree D'" using effs by (simp add: D' names_agree_def get_message_def get_enum_def)
  have "message_names D' = message_names ?D" by (simp add: D' message_names_def get_message_def [abs_def])
  then have listed: "into_type ?q ` dp_name ` set (fl_message_type f) \<union> message_names D \<subseteq> message_names D'" using eff effs by simp
  have files: "dm_files D' = AList.update (fl_name f) (f, syn) (dm_files D)" using eff effs by (simp add: D')
  have "files_listed D'" unfolding files_listed_def
  proof (intro allI impI)
    fix name g s
    assume g: "map_of (dm_files D') name = Some (g, s)"
    show "into_type (top_level (split_on (CHR ''.'') (fl_package g))) ` dp_name ` set (fl_message_type g) \<subseteq> message_names D'"
    proof (cases "name = fl_name f")
      case True
      with g listed show ?thesis by (simp add: files update_conv')
    next
      case False
      with g have "map_of (dm_files D) name = Some (g, s)" by (simp add: files update_conv')
      with assms(3) listed show ?thesis unfolding files_listed_def by blast
    qed
  qed
  with \<open>names_agree D'\<close> show ?thesis by simp
qed

lemma build_effect:
  assumes "DescriptorMap_build fs = Ok D"
  shows "names_agree D \<and> files_listed D"
proof -
  have "build_from fs D' = Ok D \<Longrightarrow> names_agree D' \<Longrightarrow> files_listed D' \<Longrightarrow> names_agree D \<and> files_listed D" for D'
    by (induction fs arbitrary: D') (auto simp: obind_Ok_iff dest!: insert_file_effect)
  moreover have "names_agree \<lparr>dm_files = [], dm_messages = [], dm_enums = []\<rparr> \<and> files_listed \<lparr>dm_files = [], dm_messages = [], dm_enums = []\<rparr>"
    by (simp add: names_agree_def files_listed_def get_message_def get_enum_def)
  ultimately show ?thesis using assms by (simp add: DescriptorMap_build_def)
qed

section \<open>Growth of the interfaces\<close>

definition defined_names :: "wit_file \<Rightarrow> type_name_qualifier \<Rightarrow> string multiset" where
  "defined_names wit q = (case map_of (wf_types_interfaces wit) q of None \<Rightarrow> {#} | Some ti \<Rightarrow> mset (map td_name (ti_types_defined ti)))"

definition used_types :: "wit_file \<Rightarrow> qualified_type_name set" where
  "used_types wit = {t. \<exists>q ti. map_of (wf_types_interfaces wit) q = Some ti \<and> t \<in> ti_types_used ti}"

text \<open>The names under which types of a qualifier are defined.\<close>

definition names_in :: "wit_lib \<Rightarrow> type_name_qualifier \<Rightarrow> qualified_type_name set \<Rightarrow> string multiset" where
  "names_in K q ts = image_mset (\<lambda>t. wt_kebab K (qn_name t)) (mset_set {t \<in> ts. qn_qualifier t = q})"

definition types_grow :: "wit_lib \<Rightarrow> wit_file \<Rightarrow> wit_file \<Rightarrow> bool" where
  "types_grow K wit wit' \<longleftrightarrow>
     wf_types_compiled wit \<subseteq> wf_types_compiled wit' \<and> finite (wf_types_compiled wit' - wf_types_compiled wit)
     \<and> (\<forall>q. defined_names wit' q = defined_names wit q + names_in K q (wf_types_compiled wit' - wf_types_compiled wit))
     \<and> used_types wit' \<subseteq> used_types wit \<union> wf_types_compiled wit'"

lemma names_in_Un:
  assumes "finite A" "finite B" "A \<inter> B = {}"
  shows "names_in K q (A \<union> B) = names_in K q A + names_in K q B"
proof -
  have "{t \<in> A \<union> B. qn_qualifier t = q} = {t \<in> A. qn_qualifier t = q} \<union> {t \<in> B. qn_qualifier t = q}" by blast
  moreover have "{t \<in> A. qn_qualifier t = q} \<inter> {t \<in> B. qn_qualifier t = q} = {}" using assms(3) by blast
  ultimately show ?thesis using assms(1,2) by (simp add: names_in_def mset_set_Union)
qed

lemma names_in_empty [simp]: "names_in K q {} = {#}"
  by (simp add: names_in_def)

lemma names_in_singleton: "names_in K q {t} = (if qn_qualifier t = q then {#wt_kebab K (qn_name t)#} else {#})"
proof -
  have "{t' \<in> {t}. qn_qualifier t' = q} = (if qn_qualifier t = q then {t} else {})" by auto
  then show ?thesis by (simp add: names_in_def)
qed

lemma types_grow_same:
  assumes "wf_types_compiled wit' = wf_types_compiled wit" "wf_types_interfaces wit' = wf_types_interfaces wit"
  shows "types_grow K wit wit'"
  using assms by (simp add: types_grow_def defined_names_def used_types_def)

lemma types_grow_trans:
  assumes "types_grow K a b" "types_grow K b c"
  shows "types_grow K a c"
proof -
  let ?a = "wf_types_compiled a" and ?b = "wf_types_compiled b" and ?c = "wf_types_compiled c"
  have parts: "?c - ?a = (?b - ?a) \<union> (?c - ?b)" "(?b - ?a) \<inter> (?c - ?b) = {}" and sub: "?b \<subseteq> ?c" using assms by (auto simp: types_grow_def)
  have "finite (?b - ?a)" "finite (?c - ?b)" using assms by (simp_all add: types_grow_def)
  note names_in_Un [OF this parts(2), of K] this
  with assms sub show ?thesis by (auto simp: types_grow_def parts(1))
qed

lemma types_grow_subset: "types_grow K a b \<Longrightarrow> wf_types_compiled a \<subseteq> wf_types_compiled b"
  by (simp add: types_grow_def)

lemma used_types_upsert: "used_types (upsert_type_definition q def ts wit) \<subseteq> used_types wit \<union> set ts"
proof
  fix t
  assume "t \<in> used_types (upsert_type_definition q def ts wit)"
  then obtain q' ti where ti: "map_of (wf_types_interfaces (upsert_type_definition q def ts wit)) q' = Some ti" "t \<in> ti_types_used ti"
    by (auto simp: used_types_def)
  then show "t \<in> used_types wit \<union> set ts"
    by (cases "q' = q"; cases "map_of (wf_types_interfaces wit) q")
      (auto simp: upsert_type_definition_def update_conv' Let_def used_types_def, blast)
qed

lemma types_grow_define:
  assumes "t \<notin> wf_types_compiled wit" "types_grow K (wit\<lparr>wf_types_compiled := insert t (wf_types_compiled wit)\<rparr>) wit'"
    and "td_name def = wt_kebab K (qn_name t)" "set ts \<subseteq> wf_types_compiled wit'"
  shows "types_grow K wit (upsert_type_definition (qn_qualifier t) def ts wit')"
proof -
  let ?c = "wf_types_compiled wit" and ?c' = "wf_types_compiled wit'" and ?wit = "upsert_type_definition (qn_qualifier t) def ts wit'"
  have t: "insert t ?c \<subseteq> ?c'" and fin: "finite (?c' - insert t ?c)" using assms(2) by (simp_all add: types_grow_def)
  then have c': "?c' - ?c = insert t (?c' - insert t ?c)" using assms(1) by blast
  have names: "names_in K q (?c' - ?c) = names_in K q {t} + names_in K q (?c' - insert t ?c)" for q
    using names_in_Un [of "{t}" "?c' - insert t ?c" K q] fin unfolding c' by simp
  have "defined_names ?wit q = defined_names wit' q + names_in K q {t}" for q
    using assms(3) by (simp add: names_in_singleton defined_names_def upsert_type_definition_def Let_def update_conv' split: option.splits)
  moreover have "defined_names wit' q = defined_names wit q + names_in K q (?c' - insert t ?c)" for q
    using assms(2) by (simp add: types_grow_def defined_names_def)
  ultimately have "defined_names ?wit q = defined_names wit q + names_in K q (?c' - ?c)" for q by (simp add: names)
  moreover have "wf_types_compiled ?wit = ?c'" by (simp add: upsert_type_definition_def Let_def)
  moreover have "finite (?c' - ?c)" using fin unfolding c' by simp
  moreover have "used_types ?wit \<subseteq> used_types wit \<union> ?c'"
  proof -
    have "used_types wit' \<subseteq> used_types wit \<union> ?c'" using assms(2) by (simp add: types_grow_def used_types_def)
    with used_types_upsert [of "qn_qualifier t" def ts wit'] assms(4) show ?thesis by blast
  qed
  ultimately show ?thesis using t by (simp add: types_grow_def)
qed

lemma message_type_definition_name: "message_type_definition K wit m name syn = Ok (def, ts) \<Longrightarrow> td_name def = wt_kebab K name"
  by (auto simp: message_type_definition_def obind_Ok_iff)

lemma compile_enum_grows:
  assumes "ed_name e = qn_name t"
  shows "types_grow K wit (compile_enum K e (qn_qualifier t) wit) \<and> t \<in> wf_types_compiled (compile_enum K e (qn_qualifier t) wit)"
proof -
  have t: "into_type (qn_qualifier t) (ed_name e) = t" using assms by (simp add: into_type_def)
  show ?thesis
  proof (cases "t \<in> wf_types_compiled wit")
    case True
    then show ?thesis by (simp add: compile_enum_def t types_grow_same)
  next
    case False
    then show ?thesis
      using types_grow_define [OF False types_grow_same [OF refl refl], of "enum_type_definition K e (qn_name t)" K "[]"]
      by (simp add: compile_enum_def t enum_type_definition_def upsert_type_definition_def Let_def)
  qed
qed

lemma compile_grows:
  "WitFile_compile_message fuel K D m q syn wit = Ok wit' \<Longrightarrow> names_agree D
     \<Longrightarrow> types_grow K wit wit' \<and> into_type q (dp_name m) \<in> wf_types_compiled wit'"
  "compile_types_used fuel K D ts wit = Ok wit' \<Longrightarrow> names_agree D \<Longrightarrow> types_grow K wit wit' \<and> set ts \<subseteq> wf_types_compiled wit'"
proof (induction fuel K D m q syn wit and fuel K D ts wit arbitrary: wit' and wit' rule: WitFile_compile_message_compile_types_used.induct)
  case (2 fuel K D m q syn wit)
  let ?t = "into_type q (dp_name m)"
  let ?wit = "wit\<lparr>wf_types_compiled := insert ?t (wf_types_compiled wit)\<rparr>"
  show ?case
  proof (cases "?t \<in> wf_types_compiled wit")
    case True
    with 2 show ?thesis by (simp add: types_grow_same)
  next
    case False
    with "2.prems"(1) obtain def ts wit1 where def: "message_type_definition K ?wit m (qn_name ?t) syn = Ok (def, ts)"
      and used: "compile_types_used fuel K D ts ?wit = Ok wit1" and wit': "wit' = upsert_type_definition (qn_qualifier ?t) def ts wit1"
      by (auto simp: Let_def obind_Ok_iff)
    have grow: "types_grow K ?wit wit1 \<and> set ts \<subseteq> wf_types_compiled wit1"
      using "2.IH" [OF refl False refl def refl used "2.prems"(2)] .
    then have "?t \<in> wf_types_compiled wit1" by (auto simp: types_grow_def)
    with types_grow_define [OF False _ message_type_definition_name [OF def]] grow show ?thesis
      by (simp add: wit') (simp add: upsert_type_definition_def Let_def)
  qed
next
  case (4 fuel K D t ts wit)
  show ?case
  proof (cases "get_message D t")
    case (Some md)
    obtain m syn where m: "md = (m, syn)" by (cases md)
    with Some "4.prems" obtain wit1 where first: "WitFile_compile_message fuel K D m (qn_qualifier t) syn wit = Ok wit1"
      and rest: "compile_types_used fuel K D ts wit1 = Ok wit'" by (auto simp: obind_Ok_iff)
    have "into_type (qn_qualifier t) (dp_name m) = t" using "4.prems"(2) Some m by (simp add: names_agree_def into_type_def)
    with "4.IH"(2) [OF Some m [symmetric] first "4.prems"(2)] "4.IH"(3) [OF Some m [symmetric] first rest "4.prems"(2)]
    show ?thesis using types_grow_trans types_grow_subset by fastforce
  next
    case None
    with "4.prems" obtain e where e: "get_enum D t = Some e"
      and rest: "compile_types_used fuel K D ts (compile_enum K e (qn_qualifier t) wit) = Ok wit'" by (auto split: option.splits)
    then have "ed_name e = qn_name t" using "4.prems"(2) by (simp add: names_agree_def)
    with compile_enum_grows [OF this, of K wit] "4.IH"(1) [OF None e rest "4.prems"(2)]
    show ?thesis using types_grow_trans types_grow_subset by fastforce
  qed
qed (auto simp: types_grow_same)

section \<open>Enough fuel\<close>

lemma split_package_fuel [simp]: "split_package package parts \<noteq> Out_of_fuel"
  by (induction package parts rule: split_package.induct) auto

lemma from_path_fuel [simp]: "from_path path package \<noteq> Out_of_fuel"
  by (auto simp: from_path_def Let_def obind_fuel)

lemma server_package_fuel [simp]: "server_package wit \<noteq> Out_of_fuel"
  by (simp add: server_package_def split: option.splits)

lemma compile_fields_fuel: "compile_fields K wit syn fs flds used \<noteq> Out_of_fuel"
proof (induction fs arbitrary: flds used)
  case (Cons f fs)
  have "wit_field_type K wit f \<noteq> Out_of_fuel" by (cases "fd_type f") (auto simp: wit_field_type_def obind_fuel)
  moreover have "wit_label_type syn f t \<noteq> Out_of_fuel" for t by (cases "fd_label f") (auto simp: wit_label_type_def)
  ultimately show ?case using Cons by (auto simp: obind_fuel)
qed simp

lemma message_type_definition_fuel [simp]: "message_type_definition K wit m name syn \<noteq> Out_of_fuel"
  using compile_fields_fuel by (auto simp: message_type_definition_def obind_fuel)

definition left_to_compile :: "descriptor_map \<Rightarrow> wit_file \<Rightarrow> nat" where
  "left_to_compile D wit = card (message_names D - wf_types_compiled wit)"

lemma left_to_compile_mono: "types_grow K wit wit' \<Longrightarrow> left_to_compile D wit' \<le> left_to_compile D wit"
  unfolding left_to_compile_def types_grow_def by (intro card_mono) (auto simp: card_message_names(1))

lemma left_to_compile_insert:
  assumes "t \<in> message_names D" "t \<notin> wf_types_compiled wit"
  shows "left_to_compile D (wit\<lparr>wf_types_compiled := insert t (wf_types_compiled wit)\<rparr>) < left_to_compile D wit"
  unfolding left_to_compile_def using assms by (intro psubset_card_mono) (auto simp: card_message_names(1))

lemma compile_fuel:
  "names_agree D \<Longrightarrow> into_type q (dp_name m) \<in> message_names D \<Longrightarrow> left_to_compile D wit < fuel \<Longrightarrow> WitFile_compile_message fuel K D m q syn wit \<noteq> Out_of_fuel"
  "names_agree D \<Longrightarrow> left_to_compile D wit < fuel \<Longrightarrow> compile_types_used fuel K D ts wit \<noteq> Out_of_fuel"
proof (induction fuel K D m q syn wit and fuel K D ts wit rule: WitFile_compile_message_compile_types_used.induct)
  case (2 fuel K D m q syn wit)
  let ?t = "into_type q (dp_name m)"
  let ?wit = "wit\<lparr>wf_types_compiled := insert ?t (wf_types_compiled wit)\<rparr>"
  show ?case
  proof (cases "?t \<in> wf_types_compiled wit")
    case False
    have "left_to_compile D ?wit < fuel" using left_to_compile_insert [OF "2.prems"(2) False] "2.prems"(3) by simp
    then have "compile_types_used fuel K D ts ?wit \<noteq> Out_of_fuel" if "message_type_definition K ?wit m (qn_name ?t) syn = Ok (def, ts)" for def ts
      using "2.IH" [OF refl False refl that refl "2.prems"(1)] by blast
    with False show ?thesis by (auto simp: Let_def obind_fuel)
  qed simp
next
  case (4 fuel K D t ts wit)
  show ?case
  proof (cases "get_message D t")
    case (Some md)
    obtain m syn where m: "(m, syn) = md" by (cases md) auto
    have t: "into_type (qn_qualifier t) (dp_name m) = t" using "4.prems"(1) Some m by (auto simp: names_agree_def into_type_def)
    then have "into_type (qn_qualifier t) (dp_name m) \<in> message_names D" using Some by (simp add: message_names_def dom_def)
    note "4.IH"(2) [OF Some m "4.prems"(1) this "4.prems"(2)]
    moreover have "compile_types_used fuel K D ts wit1 \<noteq> Out_of_fuel" if first: "WitFile_compile_message fuel K D m (qn_qualifier t) syn wit = Ok wit1" for wit1
      using "4.IH"(3) [OF Some m first "4.prems"(1)] left_to_compile_mono compile_grows(1) [OF first "4.prems"(1)] "4.prems"(2)
      by (meson le_less_trans)
    ultimately show ?thesis using Some m by (auto simp: obind_fuel)
  next
    case None
    show ?thesis
    proof (cases "get_enum D t")
      case (Some e)
      then have "ed_name e = qn_name t" using "4.prems"(1) by (simp add: names_agree_def)
      then have "left_to_compile D (compile_enum K e (qn_qualifier t) wit) < fuel"
        using left_to_compile_mono compile_enum_grows "4.prems"(2) by (meson le_less_trans)
      from "4.IH"(1) [OF None Some "4.prems"(1) this] None Some show ?thesis by simp
    qed (simp add: None)
  qed
qed simp_all

lemma compile_services_types:
  "compile_services K ss wit = Ok wit' \<Longrightarrow> wf_types_compiled wit' = wf_types_compiled wit \<and> wf_types_interfaces wit' = wf_types_interfaces wit"
proof (induction ss arbitrary: wit)
  case (Cons s ss)
  have methods: "compile_methods K ms service w = Ok (service', w') \<Longrightarrow>
      wf_types_compiled w' = wf_types_compiled w \<and> wf_types_interfaces w' = wf_types_interfaces w" for ms service service' w w'
    by (induction ms arbitrary: service w) (auto simp: obind_Ok_iff Let_def)
  with Cons show ?case by (fastforce simp: obind_Ok_iff compile_service_def Let_def)
qed simp

lemma compile_messages_grow:
  "compile_messages fuel K D ms q syn wit = Ok wit' \<Longrightarrow> names_agree D
     \<Longrightarrow> types_grow K wit wit' \<and> into_type q ` dp_name ` set ms \<subseteq> wf_types_compiled wit'"
proof (induction ms arbitrary: wit)
  case (Cons m ms)
  then obtain wit1 where steps: "WitFile_compile_message fuel K D m q syn wit = Ok wit1" "compile_messages fuel K D ms q syn wit1 = Ok wit'"
    by (auto simp: obind_Ok_iff)
  from compile_grows(1) [OF steps(1) Cons.prems(2)] Cons.IH [OF steps(2) Cons.prems(2)] types_grow_subset [of K wit1 wit']
  show ?case by (auto intro: types_grow_trans)
qed (simp add: types_grow_same)

lemma set_or_check_types:
  "set_or_check_server_package package wit = Ok (parts, wit') \<Longrightarrow>
     parts = split_on (CHR ''.'') package \<and> wf_types_compiled wit' = wf_types_compiled wit \<and> wf_types_interfaces wit' = wf_types_interfaces wit"
  by (auto simp: set_or_check_server_package_def Let_def split: if_splits)

definition file_types :: "file_descriptor \<Rightarrow> qualified_type_name set" where
  "file_types f = into_type (top_level (split_on (CHR ''.'') (fl_package f))) ` dp_name ` set (fl_message_type f)"

lemma compile_files_grow:
  "compile_files fuel K D fs wit = Ok wit' \<Longrightarrow> names_agree D
     \<Longrightarrow> types_grow K wit wit' \<and> (\<forall>name \<in> set fs. \<exists>f syn. get_file D name = Ok (f, syn) \<and> file_types f \<subseteq> wf_types_compiled wit')"
proof (induction fs arbitrary: wit)
  case (Cons f fs)
  then obtain fd syn package wit1 wit2 wit3 where steps: "get_file D f = Ok (fd, syn)"
    "set_or_check_server_package (fl_package fd) wit = Ok (package, wit1)" "compile_services K (fl_service fd) wit1 = Ok wit2"
    "compile_messages fuel K D (fl_message_type fd) (top_level package) syn wit2 = Ok wit3" "compile_files fuel K D fs wit3 = Ok wit'"
    by (auto simp: obind_Ok_iff)
  have "types_grow K wit wit2" using set_or_check_types [OF steps(2)] compile_services_types [OF steps(3)] by (simp add: types_grow_same)
  moreover have "types_grow K wit2 wit3" "file_types fd \<subseteq> wf_types_compiled wit3"
    using compile_messages_grow [OF steps(4) Cons.prems(2)] set_or_check_types [OF steps(2)] by (simp_all add: file_types_def)
  moreover note Cons.IH [OF steps(5) Cons.prems(2)]
  moreover from this have "wf_types_compiled wit3 \<subseteq> wf_types_compiled wit'" using types_grow_subset by blast
  ultimately show ?case using steps(1) types_grow_trans by (metis (no_types, lifting) order_trans set_ConsD)
qed (simp add: types_grow_same)

lemma compile_messages_fuel:
  "names_agree D \<Longrightarrow> into_type q ` dp_name ` set ms \<subseteq> message_names D \<Longrightarrow> left_to_compile D wit < fuel
     \<Longrightarrow> compile_messages fuel K D ms q syn wit \<noteq> Out_of_fuel"
proof (induction ms arbitrary: wit)
  case (Cons m ms)
  have "compile_messages fuel K D ms q syn wit1 \<noteq> Out_of_fuel" if "WitFile_compile_message fuel K D m q syn wit = Ok wit1" for wit1
    using Cons left_to_compile_mono compile_grows(1) [OF that Cons.prems(1)] by (meson image_mono le_less_trans order_trans set_subset_Cons)
  with compile_fuel(1) [OF Cons.prems(1) _ Cons.prems(3)] Cons.prems(2) show ?case by (auto simp: obind_fuel)
qed simp

lemma compile_services_fuel: "compile_services K ss wit \<noteq> Out_of_fuel"
proof (induction ss arbitrary: wit)
  case (Cons s ss)
  have "compile_methods K ms service w \<noteq> Out_of_fuel" for ms service w
    by (induction ms arbitrary: service w) (auto simp: obind_fuel Let_def)
  with Cons show ?case by (auto simp: obind_fuel compile_service_def Let_def)
qed simp

lemma get_file_fuel [simp]: "get_file D name \<noteq> Out_of_fuel"
  by (simp add: get_file_def split: option.splits)

lemma set_or_check_fuel [simp]: "set_or_check_server_package package wit \<noteq> Out_of_fuel"
  by (simp add: set_or_check_server_package_def Let_def)

lemma compile_files_fuel:
  "names_agree D \<Longrightarrow> files_listed D \<Longrightarrow> left_to_compile D wit < fuel \<Longrightarrow> compile_files fuel K D fs wit \<noteq> Out_of_fuel"
proof (induction fs arbitrary: wit)
  case (Cons name fs)
  show ?case
  proof
    assume "compile_files fuel K D (name # fs) wit = Out_of_fuel"
    then obtain f syn package wit1 wit2 where steps: "get_file D name = Ok (f, syn)"
      "set_or_check_server_package (fl_package f) wit = Ok (package, wit1)" "compile_services K (fl_service f) wit1 = Ok wit2"
      and cases: "compile_messages fuel K D (fl_message_type f) (top_level package) syn wit2 = Out_of_fuel
        \<or> (\<exists>wit3. compile_messages fuel K D (fl_message_type f) (top_level package) syn wit2 = Ok wit3 \<and> compile_files fuel K D fs wit3 = Out_of_fuel)"
      using compile_services_fuel [of K] by (auto simp: obind_fuel)
    have left: "left_to_compile D wit2 < fuel"
      using set_or_check_types [OF steps(2)] compile_services_types [OF steps(3)] Cons.prems(3) by (simp add: left_to_compile_def)
    have "into_type (top_level package) ` dp_name ` set (fl_message_type f) \<subseteq> message_names D"
    proof -
      have "map_of (dm_files D) name = Some (f, syn)" using steps(1) by (simp add: get_file_def split: option.splits)
      with Cons.prems(2) set_or_check_types [OF steps(2)] show ?thesis unfolding files_listed_def by blast
    qed
    note compile_messages_fuel [OF Cons.prems(1) this left]
    with cases Cons.IH [OF Cons.prems(1,2)] compile_messages_grow Cons.prems(1) left left_to_compile_mono show False
      by (meson le_less_trans)
  qed
qed simp

section \<open>Properties\<close>

text \<open>
  C31: Compilation ends for every request, also when types refer to themselves or to each other in a circle: as many nested compilations as
  there are messages, and one more, are enough.
\<close>

theorem compile_terminates: "compile K request \<noteq> Out_of_fuel"
proof -
  have build: "build_from fs D \<noteq> Out_of_fuel" for fs D
    by (induction fs arbitrary: D) (auto simp: obind_fuel insert_file_def file_syntax_def Let_def split: option.splits if_splits)
  have "compile_files (Suc (length (dm_messages D))) K D fs WitFile_default \<noteq> Out_of_fuel" if "DescriptorMap_build files = Ok D" for D fs files
  proof (rule compile_files_fuel)
    show "left_to_compile D WitFile_default < Suc (length (dm_messages D))"
      using card_message_names(2) [of D] by (simp add: left_to_compile_def WitFile_default_def le_imp_less_Suc)
  qed (use build_effect [OF that] in auto)
  then have "compile_wit K request \<noteq> Out_of_fuel" using build by (auto simp: compile_wit_def obind_fuel DescriptorMap_build_def)
  then show ?thesis by (auto simp: compile_def obind_fuel generate_def Let_def)
qed

text \<open>
  C29: The interfaces of types that are written are complete and closed. Every top-level message of every file to generate is compiled;
  each interface defines the compiled types of its qualifier, each once; and every type that an interface uses is defined in the interface
  of its qualifier.
\<close>

theorem wit_types_closed:
  assumes "DescriptorMap_build (rq_proto_file request) = Ok D" "compile_wit K request = Ok wit"
  shows "(\<forall>name \<in> set (rq_file_to_generate request). \<exists>f syn. get_file D name = Ok (f, syn)
      \<and> into_type (top_level (split_on (CHR ''.'') (fl_package f))) ` dp_name ` set (fl_message_type f) \<subseteq> wf_types_compiled wit)
    \<and> (\<forall>q. (case map_of (wf_types_interfaces wit) q of None \<Rightarrow> {#} | Some ti \<Rightarrow> mset (map td_name (ti_types_defined ti)))
        = image_mset (\<lambda>t. wt_kebab K (qn_name t)) (mset_set {t \<in> wf_types_compiled wit. qn_qualifier t = q}))
    \<and> (\<forall>q ti t. map_of (wf_types_interfaces wit) q = Some ti \<longrightarrow> t \<in> ti_types_used ti \<longrightarrow>
        (\<exists>ti'. map_of (wf_types_interfaces wit) (qn_qualifier t) = Some ti' \<and> wt_kebab K (qn_name t) \<in> td_name ` set (ti_types_defined ti')))"
proof -
  have "compile_files (Suc (length (dm_messages D))) K D (rq_file_to_generate request) WitFile_default = Ok wit"
    using assms by (simp add: compile_wit_def)
  note eff = compile_files_grow [OF this conjunct1 [OF build_effect [OF assms(1)]]]
  have fin: "finite (wf_types_compiled wit)" and names: "defined_names wit q = names_in K q (wf_types_compiled wit)"
    and used: "used_types wit \<subseteq> wf_types_compiled wit" for q
    using eff by (auto simp: types_grow_def WitFile_default_def defined_names_def used_types_def)
  have "\<exists>ti'. map_of (wf_types_interfaces wit) (qn_qualifier t) = Some ti' \<and> wt_kebab K (qn_name t) \<in> td_name ` set (ti_types_defined ti')"
    if "map_of (wf_types_interfaces wit) q = Some ti" "t \<in> ti_types_used ti" for q ti t
  proof -
    have "t \<in> wf_types_compiled wit" using used that by (auto simp: used_types_def)
    then have "wt_kebab K (qn_name t) \<in># names_in K (qn_qualifier t) (wf_types_compiled wit)" using fin by (simp add: names_in_def)
    then have "wt_kebab K (qn_name t) \<in># defined_names wit (qn_qualifier t)" by (simp add: names)
    then show ?thesis by (auto simp: defined_names_def split: option.splits)
  qed
  with eff names show ?thesis by (auto simp: file_types_def defined_names_def names_in_def)
qed

text \<open>
  An order that refers to itself, to a nested message and to a status, and a service whose response is in another package. Names are
  written as they are.
\<close>

definition plain_lib :: wit_lib where
  "plain_lib = \<lparr>wt_kebab = (\<lambda>s. s), wt_package_to_string = (\<lambda>_. []), wt_nested_package_to_string = (\<lambda>_. [])\<rparr>"

definition sample_field :: "string \<Rightarrow> proto_type \<Rightarrow> string \<Rightarrow> field_descriptor" where
  "sample_field name t path = \<lparr>fd_name = name, fd_type = t, fd_type_name = path, fd_label = Label_optional, fd_proto3_optional = False\<rparr>"

definition sample_order :: descriptor_proto where
  "sample_order = DescriptorProto ''Order''
     [sample_field ''item'' Type_message ''.shop.v1.Order.Item'', sample_field ''parent'' Type_message ''.shop.v1.Order'',
      sample_field ''status'' Type_enum ''.shop.v1.Status'']
     [DescriptorProto ''Item'' [sample_field ''sku'' Type_string []] [] []] []"

definition sample_file :: file_descriptor where
  "sample_file = \<lparr>fl_name = ''shop.proto'', fl_package = ''shop.v1'', fl_syntax = Some ''proto3'', fl_message_type = [sample_order],
     fl_enum_type = [\<lparr>ed_name = ''Status'', ed_value = [''OPEN'', ''SHIPPED'']\<rparr>],
     fl_service = [\<lparr>sd_name = ''Shop'', sd_method = [\<lparr>me_name = ''Place'', me_input_type = ''.shop.v1.Order'', me_output_type = ''.billing.Invoice'',
       me_client_streaming = None, me_server_streaming = None\<rparr>]\<rparr>]\<rparr>"

definition billing_file :: file_descriptor where
  "billing_file = \<lparr>fl_name = ''billing.proto'', fl_package = ''billing'', fl_syntax = Some ''proto3'',
     fl_message_type = [DescriptorProto ''Invoice'' [] [] []], fl_enum_type = [], fl_service = []\<rparr>"

definition shop_request :: code_generator_request where
  "shop_request = \<lparr>rq_file_to_generate = [''shop.proto''], rq_proto_file = [billing_file, sample_file]\<rparr>"

definition shop_type :: "string list \<Rightarrow> string \<Rightarrow> qualified_type_name" where
  "shop_type outer name = \<lparr>qn_qualifier = \<lparr>tq_package = [''shop'', ''v1''], tq_outer_messages = outer\<rparr>, qn_name = name\<rparr>"

lemma shop_compiled:
  "case compile_wit plain_lib shop_request of Ok wit \<Rightarrow>
     wf_types_compiled wit = {shop_type [] ''Order'', shop_type [''Order''] ''Item'', shop_type [] ''Status''} | _ \<Rightarrow> False"
  by code_simp

theorem wit_types_closed_witness:
  "case compile_wit plain_lib shop_request of Ok wit \<Rightarrow>
     (case map_of (wf_types_interfaces wit) \<lparr>tq_package = [''shop'', ''v1''], tq_outer_messages = []\<rparr> of None \<Rightarrow> {#}
      | Some ti \<Rightarrow> mset (map td_name (ti_types_defined ti))) = {#''Order'', ''Status''#}
   | _ \<Rightarrow> False"
proof -
  obtain wit where wit: "compile_wit plain_lib shop_request = Ok wit"
    and compiled: "wf_types_compiled wit = {shop_type [] ''Order'', shop_type [''Order''] ''Item'', shop_type [] ''Status''}"
    using shop_compiled by (cases "compile_wit plain_lib shop_request") auto
  obtain D where D: "DescriptorMap_build (rq_proto_file shop_request) = Ok D" using wit by (auto simp: compile_wit_def obind_Ok_iff)
  have "{t \<in> wf_types_compiled wit. qn_qualifier t = \<lparr>tq_package = [''shop'', ''v1''], tq_outer_messages = []\<rparr>}
      = {shop_type [] ''Order'', shop_type [] ''Status''}" by (auto simp: compiled shop_type_def)
  with wit_types_closed [OF D wit] wit show ?thesis by (simp add: plain_lib_def shop_type_def)
qed



lemma compile_types_used_found:
  "compile_types_used fuel K D ts wit = Ok wit' \<Longrightarrow> t \<in> set ts \<Longrightarrow> get_message D t \<noteq> None \<or> get_enum D t \<noteq> None"
  by (induction ts arbitrary: wit) (auto simp: obind_Ok_iff split: option.splits)

lemma compile_fields_used:
  "compile_fields K wit syn fs flds used = Ok (flds', used') \<Longrightarrow>
     set used \<subseteq> set used' \<and> (\<forall>f \<in> set fs. \<exists>t ts. wit_field_type K wit f = Ok (t, ts) \<and> set ts \<subseteq> set used')"
proof (induction fs arbitrary: flds used)
  case (Cons f fs)
  then obtain t ts t' where step: "wit_field_type K wit f = Ok (t, ts)"
    "compile_fields K wit syn fs (flds @ [(wt_kebab K (fd_name f), t')]) (used @ ts) = Ok (flds', used')" by (auto simp: obind_Ok_iff)
  with Cons.IH [OF step(2)] show ?case by auto
qed simp

text \<open>
  C34: A message that refers to a type outside of all packages cannot be compiled: the path of such a type is read as a name with no package
  at all, while the map of descriptors files it under the package with one empty part.
\<close>

theorem package_less_type_refused:
  assumes "DescriptorMap_build files = Ok D" "f \<in> set (dp_field m)" "fd_type f \<in> {Type_message, Type_enum}" "fd_type_name f = CHR ''.'' # name"
    and "CHR ''.'' \<notin> set name" "into_type q (dp_name m) \<notin> wf_types_compiled wit"
  shows "WitFile_compile_message fuel K D m q syn wit \<noteq> Ok wit'"
proof
  assume ok: "WitFile_compile_message fuel K D m q syn wit = Ok wit'"
  then obtain n where "fuel = Suc n" by (cases fuel) auto
  let ?wit = "wit\<lparr>wf_types_compiled := insert (into_type q (dp_name m)) (wf_types_compiled wit)\<rparr>"
  from ok \<open>fuel = Suc n\<close> assms(6) obtain def ts wit1 where def: "message_type_definition K ?wit m (dp_name m) syn = Ok (def, ts)"
    and used: "compile_types_used n K D ts ?wit = Ok wit1" by (auto simp: Let_def obind_Ok_iff into_type_def)
  from def obtain flds where "compile_fields K ?wit syn (dp_field m) [] [] = Ok (flds, ts)" by (auto simp: message_type_definition_def obind_Ok_iff)
  from compile_fields_used [OF this] assms(2) obtain t used where f: "wit_field_type K ?wit f = Ok (t, used)" "set used \<subseteq> set ts" by blast
  then obtain package type where type: "from_path (fd_type_name f) package = (Ok type :: (_, compiler_error) outcome)" "used = [type]"
    using assms(3) by (auto simp: wit_field_type_def obind_Ok_iff)
  then have "tq_package (qn_qualifier type) = []" using assms(4,5) by (auto simp: from_path_def Let_def into_type_def)
  with build_effect [OF assms(1)] have "get_message D type = None \<and> get_enum D type = None" unfolding names_agree_def by blast
  with compile_types_used_found [OF used, of type] f(2) type(2) show False by simp
qed

theorem package_less_type_refused_witness:
  "case DescriptorMap_build [billing_file\<lparr>fl_package := []\<rparr>] of
     Ok D \<Rightarrow> (\<forall>wit'. WitFile_compile_message 5 plain_lib D
       (DescriptorProto ''Bill'' [sample_field ''invoice'' Type_message ''.Invoice''] [] []) (top_level [[]]) Proto3 WitFile_default \<noteq> Ok wit')
   | _ \<Rightarrow> False"
proof -
  have "case DescriptorMap_build [billing_file\<lparr>fl_package := []\<rparr>] of Ok D \<Rightarrow> True | _ \<Rightarrow> False" by code_simp
  then obtain D where D: "DescriptorMap_build [billing_file\<lparr>fl_package := []\<rparr>] = Ok D" by (auto split: outcome.splits)
  then show ?thesis
    using package_less_type_refused [OF D, where f = "sample_field ''invoice'' Type_message ''.Invoice''" and name = "''Invoice''"]
    by (simp add: sample_field_def WitFile_default_def)
qed

text \<open>
  A service may use a type that the WIT file does not define: the types of requests and responses are imported into the world, but
  compiled only when a message of a file to generate leads to them. Here the response of a method is a message of another package.
\<close>

theorem service_type_undefined:
  "case compile_wit plain_lib shop_request of
     Ok wit \<Rightarrow>
       let t = \<lparr>qn_qualifier = \<lparr>tq_package = [''billing''], tq_outer_messages = []\<rparr>, qn_name = ''Invoice''\<rparr>
       in t \<in> sw_types_used (wf_server_world wit) \<and> t \<notin> wf_types_compiled wit \<and> map_of (wf_types_interfaces wit) (qn_qualifier t) = None
   | _ \<Rightarrow> False"
  by code_simp

end
