(* ===== verification/Spec2Isabelle.thy ===== *)
theory Spec2Isabelle
  imports Codec_Memory Encode_Accept Unary_Call Logging Pod_Contract Cri_Claims Image_Claims Ipam_Claims Pods_Claims Server_Claims Compiler_Claims
begin

text \<open>
  Verification of the Vimana work runtime (\<^verbatim>\<open>src/runtime\<close>), the daemon that runs WebAssembly components as Kubernetes pods, and of the
  compiler plug-in that prepares them (\<^verbatim>\<open>src/compiler\<close>).

  \<^bold>\<open>The program.\<close> Kubelet talks to the daemon over the Container Runtime Interface. The runtime service
  (\<^verbatim>\<open>cri/runtime.rs\<close>) forwards what belongs to ordinary containers to a downstream OCI runtime and translates the rest into
  operations of the pod state machine (\<^verbatim>\<open>state.rs\<close>). That machine keeps the pods in a concurrent map, takes addresses for them
  from address management (\<^verbatim>\<open>ipam.rs\<close>), has them initialized in the background and starts and stops their servers. The
  image service (\<^verbatim>\<open>cri/image.rs\<close>) pulls components from a registry into the container store (\<^verbatim>\<open>containers.rs\<close>). A running
  pod decodes Protobuf requests into component values (\<^verbatim>\<open>decode/\<close>) and encodes component values as responses
  (\<^verbatim>\<open>encode/\<close>), both compiled from the metadata of the component (\<^verbatim>\<open>metadata.proto\<close>). Everything is addressed by names
  (\<^verbatim>\<open>names.rs\<close>). \<^verbatim>\<open>main.rs\<close> puts the daemon together and binds its socket. The compiler is a plug-in of \<^verbatim>\<open>protoc\<close> that writes the WIT
  world of a server from its Protobuf files.

  \<^bold>\<open>Conventions.\<close> Machine integers are words of their width; texts are lists of characters that stand for bytes of UTF-8.
  An error is a value of a sum type or of \<open>outcome\<close>, whose other cases are a panic and the end of the fuel. State is passed
  explicitly. What is not in the repository is a parameter of the definitions that use it, with a locale that states what it
  promises and an interpretation of that locale. Definitions describe a release build: \<^verbatim>\<open>debug_assert!\<close> is not executed and
  integers wrap around. Operations do not return the log records that they emit.

  \<^bold>\<open>Foundations.\<close>
  \<^item> \<open>Prelude\<close>: types, the two error monads, bytes and characters, decimal and hexadecimal numbers, UTF-8 validation.
  \<^item> \<open>Regex_Lang\<close>: patterns, their languages and the locale \<open>regex_engine\<close> for the regex crate, interpreted on a
    derivative-based matcher.
  \<^item> \<open>Filesystem\<close>: the part of \<^verbatim>\<open>std::fs\<close> that the container store uses, on a disk that maps paths to files and
    directories; every call may fail after part of its work.
  \<^item> \<open>Ip_Address\<close>: parsing and printing of \<^verbatim>\<open>std::net::IpAddr\<close>.

  \<^bold>\<open>Names\<close> (\<^verbatim>\<open>names.rs\<close>). \<open>Hex\<close> models hexadecimal coding with its SIMD paths, \<open>Names\<close> the parser, the validators and
  the printers. Parsing and printing are inverse to each other, the validators accept exactly what their documentation says, and
  where they do not, that is stated.

  \<^bold>\<open>Codecs\<close> (\<^verbatim>\<open>encode/\<close>, \<^verbatim>\<open>decode/\<close>, \<^verbatim>\<open>metadata.proto\<close>). \<open>Wire\<close> has the metadata, component values and the locale \<open>wire\<close>
  for varints and buffers. \<open>Encode_Scalar\<close> and \<open>Encode_Compound\<close> model the compiled encoder with its two passes (lengths, then
  bytes), \<open>Scalar_Spec\<close> and \<open>Encode_Spec\<close> a one-pass reference of the wire format and the proof that the encoder writes it.
  \<open>Decode_Scalar\<close> and \<open>Decode_Compound\<close> model the compiled decoder, \<open>Decode_Spec\<close> shows that it terminates on all input:
  the fuel of a loop is its limit, which is enough because every iteration consumes a byte of it.
  \<open>Codec\<close> relates the two for scalars: which of them come back unchanged. \<open>Message_Codec\<close> does so for whole messages, by induction
  over the message type: the bytes of a field are occurrences that its merger reads (locale \<open>inner_codec\<close> for one payload under each
  presence), and the loop of a message puts the fields at their indices. \<open>Encode_Accept\<close> characterizes the values that the encoder accepts, whatever their
  type and size. \<open>Codec_Memory\<close> is about the unions of the codecs: every function reads the member that was written, dropping a codec
  (\<^verbatim>\<open>Drop\<close>) releases exactly its tables, and the errors of the decoder that are about the runtime itself cannot occur.

  \<^bold>\<open>Pods\<close> (\<^verbatim>\<open>state.rs\<close>). \<open>Pod_State\<close> models the record of a pod, the runtime and every operation, each access to shared state
  as a definition of its own; the papaya map is a parameter (locale \<open>pod_map\<close>). \<open>Pod_Machine\<close> interleaves these accesses: tasks
  in progress are a multiset, \<open>rt_step\<close> is a step of one of them, and an invariant holds in every reachable configuration.
  \<open>Pod_Claims\<close> derives what callers can rely on: running pods can be stopped, no server is left behind, pods follow their life
  cycle. \<open>Pod_Contract\<close> states the table of \<^verbatim>\<open>runtime/README.md\<close> as an abstract specification that the operations refine.

  \<^bold>\<open>Pod initializer\<close> (\<^verbatim>\<open>pods.rs\<close>, \<^verbatim>\<open>host.rs\<close>). \<open>Pods\<close> models how a stored container becomes the routes of its gRPC methods, each
  with its codec, over Wasmtime and a router (locale \<open>router\<close>), and the call of a component's function. \<open>Pods_Claims\<close> shows that the
  routes are exactly the methods of the metadata and, through store, initializer and state machine, that a pulled component serves.
  \<open>Unary_Call\<close> puts route, decoder, component and encoder together: over tonic's \<^verbatim>\<open>Grpc::unary\<close> (locale \<open>unary_server\<close>) a request is answered with
  the wire format of what the component returns.

  \<^bold>\<open>Container Runtime Interface.\<close> \<open>Cri\<close> (\<^verbatim>\<open>cri/mod.rs\<close> and the conversions of \<^verbatim>\<open>cri/runtime.rs\<close>) has labels, statuses, IDs and
  messages; \<open>Cri_Runtime\<close> has a definition per call of \<^verbatim>\<open>ProxyingRuntimeService\<close>; \<open>Cri_Claims\<close> shows over all sequences of calls
  that every downstream object is routed downstream (for any runtime that satisfies the locale \<open>downstream\<close>), that calls act on one
  runtime only, that the IDs the service returns lead through the whole life cycle of a pod, and what the listings return.

  \<^bold>\<open>Images.\<close> \<open>Containers\<close> models the registry client and the store (\<^verbatim>\<open>containers.rs\<close>), \<open>Container_Claims\<close> that a pulled
  container is read back and how the account of bytes and inodes relates to the disk; \<open>Cri_Image\<close> models \<^verbatim>\<open>cri/image.rs\<close>, and
  \<open>Image_Claims\<close> its image IDs and the life cycle of an image.

  \<^bold>\<open>Addresses.\<close> \<open>Ipam\<close> models \<^verbatim>\<open>ipam.rs\<close> over the CNI plugin and netlink (locale \<open>ipam_world\<close>); \<open>Ipam_Claims\<close> shows what is
  allocated and active after each outcome, and that killing a pod gives its address back.

  \<^bold>\<open>Start-up.\<close> \<open>Server\<close> models \<^verbatim>\<open>runtime/main.rs\<close>: options, and the steps from connecting to the downstream runtime to unlinking the
  socket, composed of the constructors of the other theories. \<open>Server_Claims\<close> shows over sequences of runs when the next run serves.

  \<^bold>\<open>Logging.\<close> \<open>Logging\<close> models \<^verbatim>\<open>logging.rs\<close> and the logging contexts of \<^verbatim>\<open>cri/mod.rs\<close>, and shows that the tags of a record select exactly
  the records of a tenant, a component or a pod.

  \<^bold>\<open>Compiler\<close> (\<^verbatim>\<open>src/compiler\<close>). \<open>Descriptors\<close> has qualified type names and the map of descriptors (\<^verbatim>\<open>main.rs\<close>), \<open>Wit\<close> the generated world
  and interfaces (\<^verbatim>\<open>wit.rs\<close>), the metadata file (\<^verbatim>\<open>metadata.rs\<close>) and \<^verbatim>\<open>compile\<close>. The recursion over used types has as fuel one more than
  the number of messages; \<open>Compiler_Claims\<close> shows that this is always enough, because every nested compilation records a message that was
  not recorded before, and that the interfaces written are closed.

  \<^bold>\<open>Not modelled.\<close> Wasmtime, the HTTP transport of tonic and the other crates, which are parameters as far as the code uses them. How the
  \<^verbatim>\<open>tracing\<close> crate writes log records, and at which points of an operation they are emitted. \<^verbatim>\<open>Debug\<close> output and the texts of error causes, except where
  the code depends on them. The metadata compiler, which is commented out in \<^verbatim>\<open>compiler/metadata.rs\<close>. Unit tests (a large part of
  \<^verbatim>\<open>names.rs\<close>), and the operator and the end-to-end tests, which are written in other languages or are scripts.
\<close>

end
